(* ===== verification/Prelude.thy ===== *)
theory Prelude
  imports Main
begin

text \<open>
  Shared vocabulary of the development: how the parts of JavaScript that the
  modelled TypeScript relies on are represented, the character classes of its
  regular expressions, and the generic notion of a component that takes one
  event at a time, with the interface under which its invariants are lifted to
  whole runs.

  A thrown \<open>Error\<close> is the left summand of \<open>outcome\<close> and carries the source's
  message. Numbers are \<open>jsnum\<close>: an integral double, or any other number (a
  fraction, an infinity or NaN), which every check of the sources rejects
  through \<open>Number.isSafeInteger\<close> before it is compared. Strings are lists of
  characters with codes below 256.
\<close>

section \<open>JavaScript values\<close>

type_synonym 'a outcome = "string + 'a"

datatype jsnum = Whole int | NotWhole

definition MAX_SAFE_INTEGER :: int where
  "MAX_SAFE_INTEGER = 9007199254740991"

definition safe_int :: "int \<Rightarrow> bool" where
  "safe_int n \<longleftrightarrow> - MAX_SAFE_INTEGER \<le> n \<and> n \<le> MAX_SAFE_INTEGER"

fun isSafeInteger :: "jsnum \<Rightarrow> bool" where
  "isSafeInteger (Whole n) = safe_int n"
| "isSafeInteger NotWhole = False"

text \<open>The value of a number that \<open>isSafeInteger\<close> accepted.\<close>

fun whole :: "jsnum \<Rightarrow> int" where
  "whole (Whole n) = n"
| "whole NotWhole = 0"

datatype jsval =
    VUndefined
  | VNull
  | VBool bool
  | VNum jsnum
  | VStr string
  | VArr "jsval list"
  | VObj "(string \<times> jsval) list"

text \<open>Property read: \<open>undefined\<close> for a property the object does not have.\<close>

fun get_prop :: "jsval \<Rightarrow> string \<Rightarrow> jsval" where
  "get_prop (VObj ps) k = (case map_of ps k of None \<Rightarrow> VUndefined | Some v \<Rightarrow> v)"
| "get_prop _ k = VUndefined"

text \<open>\<open>Object.keys\<close> of a plain object.\<close>

fun object_keys :: "jsval \<Rightarrow> string list" where
  "object_keys (VObj ps) = remdups (map fst ps)"
| "object_keys _ = []"

fun is_plain_object :: "jsval \<Rightarrow> bool" where
  "is_plain_object (VObj ps) = True"
| "is_plain_object _ = False"

fun is_safe_num :: "jsval \<Rightarrow> bool" where
  "is_safe_num (VNum n) = isSafeInteger n"
| "is_safe_num _ = False"

fun num_of :: "jsval \<Rightarrow> int" where
  "num_of (VNum n) = whole n"
| "num_of _ = 0"

fun str_of :: "jsval \<Rightarrow> string" where
  "str_of (VStr s) = s"
| "str_of _ = []"

section \<open>Throwing code\<close>

text \<open>Sequencing of statements that may throw, and the guard that throws.\<close>

fun and_then :: "'a outcome \<Rightarrow> ('a \<Rightarrow> 'b outcome) \<Rightarrow> 'b outcome" where
  "and_then (Inl e) f = Inl e"
| "and_then (Inr a) f = f a"

definition require :: "bool \<Rightarrow> string \<Rightarrow> unit outcome" where
  "require b message = (if b then Inr () else Inl message)"

definition some_or :: "string \<Rightarrow> 'a option \<Rightarrow> 'a outcome" where
  "some_or message x = (case x of None \<Rightarrow> Inl message | Some a \<Rightarrow> Inr a)"

text \<open>Property access, which throws on \<open>undefined\<close> and \<open>null\<close>.\<close>

definition member :: "jsval \<Rightarrow> string \<Rightarrow> jsval outcome" where
  "member v k = (if v = VUndefined \<or> v = VNull then Inl ''TypeError'' else Inr (get_prop v k))"

section \<open>Character classes of the regular expressions\<close>

definition code :: "char \<Rightarrow> nat" where
  "code c = of_char c"

definition is_digit :: "char \<Rightarrow> bool" where
  "is_digit c \<longleftrightarrow> 48 \<le> code c \<and> code c \<le> 57"

definition is_lower_hex :: "char \<Rightarrow> bool" where
  "is_lower_hex c \<longleftrightarrow> is_digit c \<or> 97 \<le> code c \<and> code c \<le> 102"

definition is_id_char :: "char \<Rightarrow> bool" where
  "is_id_char c \<longleftrightarrow> is_digit c \<or> 65 \<le> code c \<and> code c \<le> 90 \<or> 97 \<le> code c \<and> code c \<le> 122
     \<or> c = CHR ''_'' \<or> c = CHR ''-''"

definition is_control :: "char \<Rightarrow> bool" where
  "is_control c \<longleftrightarrow> code c \<le> 31 \<or> code c = 127"

text \<open>\<open>/^[0-9a-f]{64}$/\<close> and \<open>/^[A-Za-z0-9_-]{16,128}$/\<close>.\<close>

definition hex64 :: "string \<Rightarrow> bool" where
  "hex64 s \<longleftrightarrow> length s = 64 \<and> list_all is_lower_hex s"

definition id_16_128 :: "string \<Rightarrow> bool" where
  "id_16_128 s \<longleftrightarrow> 16 \<le> length s \<and> length s \<le> 128 \<and> list_all is_id_char s"

section \<open>Components that take one event at a time\<close>

fun exec :: "('s \<Rightarrow> 'e \<Rightarrow> 's \<times> 'o) \<Rightarrow> 's \<Rightarrow> 'e list \<Rightarrow> 's \<times> 'o list" where
  "exec step s [] = (s, [])"
| "exec step s (e # es) =
     (let (s', r) = step s e; (s'', rs) = exec step s' es in (s'', r # rs))"

definition final :: "('s \<Rightarrow> 'e \<Rightarrow> 's \<times> 'o) \<Rightarrow> 's \<Rightarrow> 'e list \<Rightarrow> 's" where
  "final step s es = fst (exec step s es)"

definition outputs :: "('s \<Rightarrow> 'e \<Rightarrow> 's \<times> 'o) \<Rightarrow> 's \<Rightarrow> 'e list \<Rightarrow> 'o list" where
  "outputs step s es = snd (exec step s es)"

section \<open>Lemmas the components share\<close>

lemma final_simps [simp]:
  "final step s [] = s"
  "final step s (e # es) = final step (fst (step s e)) es"
  by (simp_all add: final_def split_beta Let_def)

lemma outputs_simps [simp]:
  "outputs step s [] = []"
  "outputs step s (e # es) = snd (step s e) # outputs step (fst (step s e)) es"
  by (simp_all add: outputs_def split_beta Let_def)

lemma final_append: "final step s (es @ fs) = final step (final step s es) fs"
  by (induction es arbitrary: s) simp_all

lemma outputs_append:
  "outputs step s (es @ fs) = outputs step s es @ outputs step (final step s es) fs"
  by (induction es arbitrary: s) simp_all

lemma length_outputs [simp]: "length (outputs step s es) = length es"
  by (induction es arbitrary: s) simp_all

lemma nth_outputs:
  "i < length es \<Longrightarrow> outputs step s es ! i = snd (step (final step s (take i es)) (es ! i))"
proof (induction es arbitrary: s i)
  case Nil
  then show ?case by simp
next
  case (Cons e es)
  then show ?case by (cases i) simp_all
qed

lemma and_then_ok [simp]: "and_then x f = Inr b \<longleftrightarrow> (\<exists>a. x = Inr a \<and> f a = Inr b)"
  by (cases x) simp_all

lemma and_then_cong [fundef_cong]:
  "x = y \<Longrightarrow> (\<And>a. y = Inr a \<Longrightarrow> f a = g a) \<Longrightarrow> and_then x f = and_then y g"
  by (cases y) simp_all

lemma require_ok [simp]: "require b m = Inr u \<longleftrightarrow> b" "require True m = Inr ()" "require False m = Inl m"
  by (simp_all add: require_def)

lemma some_or_ok [simp]:
  "some_or m x = Inr a \<longleftrightarrow> x = Some a" "some_or m None = Inl m" "some_or m (Some a) = Inr a"
  by (auto simp: some_or_def split: option.splits)

lemma isSafeInteger_Whole: "isSafeInteger n \<Longrightarrow> \<exists>k. n = Whole k \<and> safe_int k"
  by (cases n) simp_all

lemma safe_int_0_1 [simp]: "safe_int 0" "safe_int 1"
  by (simp_all add: safe_int_def MAX_SAFE_INTEGER_def)

text \<open>
  The interface of a component with an invariant: every event keeps it,
  whatever the event returned. What a client gets is that the invariant holds
  along every run.
\<close>

locale invariant_machine =
  fixes step :: "'s \<Rightarrow> 'e \<Rightarrow> 's \<times> 'o" and inv :: "'s \<Rightarrow> bool"
  assumes step_inv: "inv s \<Longrightarrow> inv (fst (step s e))"
begin

lemma run_inv: "inv s \<Longrightarrow> inv (final step s es)"
  by (induction es arbitrary: s) (simp_all add: step_inv)

end

text \<open>
  A machine in which some property of the state is never lost: once it holds
  it holds after every run (a terminal state, a recorded claim, a lower bound).
\<close>

locale monotone_machine = invariant_machine step inv
  for step :: "'s \<Rightarrow> 'e \<Rightarrow> 's \<times> 'o" and inv :: "'s \<Rightarrow> bool" +
  fixes grows :: "'s \<Rightarrow> 's \<Rightarrow> bool"
  assumes grows_refl: "inv s \<Longrightarrow> grows s s"
    and grows_trans: "grows s t \<Longrightarrow> grows t u \<Longrightarrow> grows s u"
    and step_grows: "inv s \<Longrightarrow> grows s (fst (step s e))"
begin

lemma run_grows: "inv s \<Longrightarrow> grows s (final step s es)"
proof (induction es arbitrary: s)
  case Nil
  then show ?case by (simp add: grows_refl)
next
  case (Cons e es)
  then have "grows s (fst (step s e))" and "grows (fst (step s e)) (final step (fst (step s e)) es)"
    by (simp_all add: step_grows step_inv)
  then show ?case by (auto intro: grows_trans)
qed

end

text \<open>
  Two machines that answer every event alike from related states, and stay
  related: the concrete one then answers every run as the abstract one does.
\<close>

locale simulation =
  fixes cstep :: "'s \<Rightarrow> 'e \<Rightarrow> 's \<times> 'o" and astep :: "'a \<Rightarrow> 'e \<Rightarrow> 'a \<times> 'o"
    and rel :: "'s \<Rightarrow> 'a \<Rightarrow> bool"
  assumes step_rel: "rel s a \<Longrightarrow> rel (fst (cstep s e)) (fst (astep a e))"
    and step_out: "rel s a \<Longrightarrow> snd (cstep s e) = snd (astep a e)"
begin

lemma run_rel: "rel s a \<Longrightarrow> rel (final cstep s es) (final astep a es)"
  by (induction es arbitrary: s a) (simp_all add: step_rel)

lemma run_out: "rel s a \<Longrightarrow> outputs cstep s es = outputs astep a es"
  by (induction es arbitrary: s a) (simp_all add: step_rel step_out)

end

end
