(* ===== verification/Encoding.thy ===== *)
theory Encoding
  imports Prelude "HOL-Library.Word"
begin

text \<open>
  The byte encodings the sources share: JavaScript strings as 16-bit code units,
  \<open>TextEncoder\<close> (UTF-8), the big-endian 32-bit length prefix and lower-case hex.
  Each is shown injective on the values the callers accept, which is what turns
  an equality of digests into an equality of what was digested.
\<close>

section \<open>UTF-16 and UTF-8\<close>

type_synonym u8 = "8 word"
type_synonym code_units = "16 word list"

definition high_surrogate :: "16 word \<Rightarrow> bool" where
  "high_surrogate c \<longleftrightarrow> 0xd800 \<le> unat c \<and> unat c \<le> 0xdbff"

definition low_surrogate :: "16 word \<Rightarrow> bool" where
  "low_surrogate c \<longleftrightarrow> 0xdc00 \<le> unat c \<and> unat c \<le> 0xdfff"

text \<open>The validation loop: true when it runs to the end without throwing.\<close>

fun scalar_string :: "code_units \<Rightarrow> bool" where
  "scalar_string [] = True"
| "scalar_string (c # cs) =
     (if high_surrogate c then
        (case cs of [] \<Rightarrow> False | d # ds \<Rightarrow> low_surrogate d \<and> scalar_string ds)
      else \<not> low_surrogate c \<and> scalar_string cs)"

text \<open>Code points of a valid string, and their UTF-8 bytes (values below 256).\<close>

fun code_points :: "code_units \<Rightarrow> nat list" where
  "code_points [] = []"
| "code_points (c # cs) =
     (if high_surrogate c then
        (case cs of
           [] \<Rightarrow> [unat c]
         | d # ds \<Rightarrow> (0x10000 + (unat c - 0xd800) * 0x400 + (unat d - 0xdc00)) # code_points ds)
      else unat c # code_points cs)"

definition utf8_point :: "nat \<Rightarrow> nat list" where
  "utf8_point n =
     (if n < 0x80 then [n]
      else if n < 0x800 then [0xc0 + n div 64, 0x80 + n mod 64]
      else if n < 0x10000 then [0xe0 + n div 4096, 0x80 + n div 64 mod 64, 0x80 + n mod 64]
      else [0xf0 + n div 262144, 0x80 + n div 4096 mod 64, 0x80 + n div 64 mod 64, 0x80 + n mod 64])"

definition utf8 :: "code_units \<Rightarrow> nat list" where
  "utf8 s = concat (map utf8_point (code_points s))"

definition encode_utf8 :: "code_units \<Rightarrow> u8 list" where
  "encode_utf8 s = map of_nat (utf8 s)"

definition units_of :: "string \<Rightarrow> code_units" where
  "units_of s = map (\<lambda>c. of_nat (code c)) s"

definition u32be_bytes :: "nat \<Rightarrow> u8 list" where
  "u32be_bytes n = [of_nat (n div 16777216), of_nat (n div 65536), of_nat (n div 256), of_nat n]"

definition hex_digit :: "nat \<Rightarrow> char" where
  "hex_digit n = ''0123456789abcdef'' ! n"

definition hex_byte :: "u8 \<Rightarrow> string" where
  "hex_byte b = [hex_digit (unat b div 16), hex_digit (unat b mod 16)]"

text \<open>
  SHA-256 over the UTF-8 bytes of a text, as lower-case hex: the shape of every
  digest the sources compute. The hash itself is a parameter.
\<close>

definition digest_hex :: "(u8 list \<Rightarrow> u8 list) \<Rightarrow> string \<Rightarrow> string" where
  "digest_hex sha256 text = concat (map hex_byte (sha256 (encode_utf8 (units_of text))))"

section \<open>The encodings are injective\<close>

text \<open>Re-encoding code points as code units undoes \<open>code_points\<close> on valid strings.\<close>

definition units_of_point :: "nat \<Rightarrow> code_units" where
  "units_of_point n =
     (if n < 0x10000 then [of_nat n]
      else [of_nat (0xd800 + (n - 0x10000) div 0x400), of_nat (0xdc00 + (n - 0x10000) mod 0x400)])"

lemma units_of_pair:
  assumes "high_surrogate c" and "low_surrogate d"
  shows "units_of_point (0x10000 + (unat c - 0xd800) * 0x400 + (unat d - 0xdc00)) = [c, d]"
proof -
  define a b where "a = unat c - 0xd800" and "b = unat d - 0xdc00"
  with assms have ab: "unat c = 0xd800 + a" "unat d = 0xdc00 + b" and b: "b < 0x400"
    by (auto simp: high_surrogate_def low_surrogate_def)
  let ?n = "0x10000 + a * 0x400 + b"
  have "(?n - 0x10000) div 0x400 = a" and "(?n - 0x10000) mod 0x400 = b" using b by simp_all
  then have "units_of_point ?n = [of_nat (unat c), of_nat (unat d)]"
    unfolding units_of_point_def ab by (simp only: not_less) simp
  moreover have "of_nat (unat c) = c" and "of_nat (unat d) = d" by simp_all
  ultimately have "units_of_point ?n = [c, d]" by (simp only:)
  then show ?thesis by (simp only: ab diff_add_inverse)
qed

lemma unit_bound: "unat (c :: 16 word) < 65536"
  using unsigned_less [of c, where ?'a = nat] by simp

lemma units_of_single: "units_of_point (unat (c :: 16 word)) = [c]"
  using unit_bound [of c] by (simp add: units_of_point_def)

lemma code_points_inverse: "scalar_string s \<Longrightarrow> concat (map units_of_point (code_points s)) = s"
  by (induction s rule: code_points.induct)
    (auto simp: units_of_pair units_of_single split: if_splits list.splits)

lemma code_points_bound: "n \<in> set (code_points s) \<Longrightarrow> scalar_string s \<Longrightarrow> n < 0x110000"
proof (induction s rule: code_points.induct)
  case 1
  then show ?case by simp
next
  case (2 c cs)
  with unit_bound [of c] show ?case
    by (auto simp: high_surrogate_def low_surrogate_def split: if_splits list.splits)
qed

text \<open>
  UTF-8 is prefix-free: the first point of an encoding and what follows it can
  be read off, so the encoding of a list of points is injective.
\<close>

lemma div_digit:
  assumes "(k :: nat) div (d * e) = l div (d * e)" and "k div d mod e = l div d mod e"
  shows "k div d = l div d"
  using assms by (metis div_mult2_eq div_mult_mod_eq)

lemma div_mod_64_inj:
  "(n :: nat) div 64 = m div 64 \<Longrightarrow> n mod 64 = m mod 64 \<Longrightarrow> n = m"
  by (metis div_mult_mod_eq)

lemma utf8_point_inj:
  assumes "utf8_point n @ xs = utf8_point m @ ys" and "n < 0x110000" and "m < 0x110000"
  shows "n = m \<and> xs = ys"
proof -
  have 2: "n = m" if "n div 64 = m div 64" "n mod 64 = m mod 64" for n m :: nat
    using that by (rule div_mod_64_inj)
  have 3: "n = m" if "n div 4096 = m div 4096" "n div 64 mod 64 = m div 64 mod 64" "n mod 64 = m mod 64"
    for n m :: nat
  proof (rule 2)
    from that(1) have "n div (64 * 64) = m div (64 * 64)" by simp
    then show "n div 64 = m div 64" using that(2) by (rule div_digit)
  qed (rule that(3))
  have 4: "n = m" if "n div 262144 = m div 262144" "n div 4096 mod 64 = m div 4096 mod 64"
    "n div 64 mod 64 = m div 64 mod 64" "n mod 64 = m mod 64" for n m :: nat
  proof (rule 3)
    from that(1) have "n div (4096 * 64) = m div (4096 * 64)" by simp
    then show "n div 4096 = m div 4096" using that(2) by (rule div_digit)
  qed (rule that)+
  have d: "k < 0x800 \<Longrightarrow> k div 64 < 32" "k < 0x10000 \<Longrightarrow> k div 4096 < 16"
    "k < 0x110000 \<Longrightarrow> k div 262144 < 8" for k :: nat by auto
  from assms show ?thesis
    by (auto simp: utf8_point_def split: if_splits dest: d intro: 2 3 4)
qed

lemma utf8_points_inj:
  "concat (map utf8_point ns) = concat (map utf8_point ms) \<Longrightarrow>
     \<forall>n \<in> set ns. n < 0x110000 \<Longrightarrow> \<forall>m \<in> set ms. m < 0x110000 \<Longrightarrow> ns = ms"
proof (induction ns arbitrary: ms)
  case Nil
  then show ?case by (cases ms) (auto simp: utf8_point_def split: if_splits)
next
  case (Cons n ns)
  then show ?case
  proof (cases ms)
    case Nil
    with Cons.prems show ?thesis by (auto simp: utf8_point_def split: if_splits)
  next
    case (Cons m ms')
    with Cons.prems utf8_point_inj [of n "concat (map utf8_point ns)" m "concat (map utf8_point ms')"]
    have "n = m" and "concat (map utf8_point ns) = concat (map utf8_point ms')" by simp_all
    with Cons.IH [of ms'] Cons.prems Cons show ?thesis by simp
  qed
qed

lemma utf8_byte: "b \<in> set (utf8_point n) \<Longrightarrow> n < 0x110000 \<Longrightarrow> b < 256"
  by (auto simp: utf8_point_def split: if_splits)

lemma map_of_nat_u8_inj:
  assumes "map (of_nat :: nat \<Rightarrow> u8) xs = map of_nat ys"
    and "\<forall>x \<in> set xs. x < 256" and "\<forall>y \<in> set ys. y < 256"
  shows "xs = ys"
proof -
  have "inj_on (of_nat :: nat \<Rightarrow> u8) {..<256}"
    by (rule inj_on_inverseI [of _ unat]) (simp add: unat_of_nat)
  with assms show ?thesis
    by (intro inj_on_map_eq_map [THEN iffD1, of of_nat xs ys]) (auto intro: inj_on_subset)
qed

lemma encode_utf8_inj:
  assumes "encode_utf8 s = encode_utf8 t" and "scalar_string s" and "scalar_string t"
  shows "s = t"
proof -
  have b: "\<forall>x \<in> set (utf8 s). x < 256" "\<forall>x \<in> set (utf8 t). x < 256"
    using code_points_bound assms by (auto simp: utf8_def dest: utf8_byte)
  then have "utf8 s = utf8 t"
    using assms(1) by (intro map_of_nat_u8_inj) (simp_all add: encode_utf8_def)
  then have eq: "code_points s = code_points t"
    unfolding utf8_def
    by (rule utf8_points_inj) (blast intro: code_points_bound assms)+
  have "s = concat (map units_of_point (code_points s))"
    by (rule code_points_inverse [OF assms(2), symmetric])
  also have "\<dots> = t" unfolding eq by (rule code_points_inverse [OF assms(3)])
  finally show ?thesis .
qed

lemma u32be_bytes_inj:
  assumes "u32be_bytes n = u32be_bytes m" and "n \<le> 0xffffffff" and "m \<le> 0xffffffff"
  shows "n = m"
proof -
  have e: "k mod 256 = l mod 256" if "(of_nat k :: u8) = of_nat l" for k l
    using arg_cong [OF that, of unat] by (simp add: unat_of_nat)
  from assms(1) have "n mod 256 = m mod 256" "n div 256 mod 256 = m div 256 mod 256"
    "n div 65536 mod 256 = m div 65536 mod 256" "n div 16777216 mod 256 = m div 16777216 mod 256"
    by (auto simp: u32be_bytes_def dest: e)
  moreover have "n div 16777216 mod 256 = n div 16777216" "m div 16777216 mod 256 = m div 16777216"
    using assms(2,3) by simp_all
  ultimately have "n div 65536 = m div 65536" using div_digit [of n 65536 256 m] by simp
  with \<open>n div 256 mod 256 = m div 256 mod 256\<close> have "n div 256 = m div 256"
    using div_digit [of n 256 256 m] by simp
  with \<open>n mod 256 = m mod 256\<close> show ?thesis by (metis div_mult_mod_eq)
qed

lemma hex_byte_inj: "hex_byte a = hex_byte b \<Longrightarrow> a = b"
proof -
  have e: "n = m" if "hex_digit n = hex_digit m" "n < 16" "m < 16" for n m
  proof -
    have "distinct ''0123456789abcdef''" by code_simp
    with that show ?thesis by (simp add: hex_digit_def nth_eq_iff_index_eq)
  qed
  have u: "unat x div 16 < 16" for x :: u8
    using unsigned_less [of x, where ?'a = nat] by simp
  assume "hex_byte a = hex_byte b"
  then have "unat a div 16 = unat b div 16" and "unat a mod 16 = unat b mod 16"
    by (auto simp: hex_byte_def intro!: e u)
  then have "unat a = unat b" by (metis div_mult_mod_eq)
  then show "a = b" by (rule unsigned_word_eqI)
qed

lemma hex_bytes_inj: "concat (map hex_byte xs) = concat (map hex_byte ys) \<Longrightarrow> xs = ys"
proof (induction xs arbitrary: ys)
  case Nil
  then show ?case by (cases ys) (simp_all add: hex_byte_def)
next
  case (Cons x xs)
  then show ?case
    by (cases ys) (auto simp: hex_byte_def intro: hex_byte_inj)
qed

lemma code_bound: "code c < 256"
  by (simp add: code_def)

lemma code_inject [simp]: "code c = code d \<longleftrightarrow> c = d"
  by (simp add: code_def)

lemma unat_unit_of_char: "unat (of_nat (code c) :: 16 word) = code c"
  using code_bound [of c] by (simp add: unat_of_nat)

lemma units_of_inj: "units_of s = units_of t \<Longrightarrow> s = t"
proof (induction s arbitrary: t)
  case Nil
  then show ?case by (simp add: units_of_def)
next
  case (Cons c s)
  then obtain d t' where t: "t = d # t'" by (cases t) (auto simp: units_of_def)
  with Cons.prems have "(of_nat (code c) :: 16 word) = of_nat (code d)" and "units_of s = units_of t'"
    by (simp_all add: units_of_def)
  then have "code c = code d" by (metis unat_unit_of_char)
  with t Cons.IH \<open>units_of s = units_of t'\<close> show ?case by simp
qed

lemma scalar_units_of: "scalar_string (units_of s)"
proof (induction s)
  case Nil
  then show ?case by (simp add: units_of_def)
next
  case (Cons c s)
  have "\<not> high_surrogate (of_nat (code c))" and "\<not> low_surrogate (of_nat (code c))"
    using code_bound [of c]
    by (simp_all add: high_surrogate_def low_surrogate_def unat_unit_of_char)
  with Cons show ?case by (simp add: units_of_def)
qed

text \<open>Equal digests of different texts are a collision of the hash on their bytes.\<close>

lemma digest_hex_binds:
  assumes "digest_hex sha256 s = digest_hex sha256 t" and "s \<noteq> t"
  shows "encode_utf8 (units_of s) \<noteq> encode_utf8 (units_of t) \<and>
    sha256 (encode_utf8 (units_of s)) = sha256 (encode_utf8 (units_of t))"
  using assms encode_utf8_inj [OF _ scalar_units_of scalar_units_of] units_of_inj hex_bytes_inj
  unfolding digest_hex_def by blast

text \<open>The length of a text in bytes.\<close>

definition utf8_length :: "string \<Rightarrow> nat" where
  "utf8_length t = length (encode_utf8 (units_of t))"

lemma code_points_units: "code_points (units_of s) = map code s"
proof (induction s)
  case (Cons c s)
  have "\<not> high_surrogate (of_nat (code c))"
    using code_bound [of c] by (simp add: high_surrogate_def unat_unit_of_char)
  with Cons show ?case by (simp add: units_of_def unat_unit_of_char)
qed (simp add: units_of_def)

lemma utf8_length_simps [simp]:
  "utf8_length [] = 0"
  "utf8_length (c # s) = (if code c < 128 then 1 else 2) + utf8_length s"
  using code_bound [of c]
  by (simp_all add: utf8_length_def encode_utf8_def utf8_def code_points_units utf8_point_def)

lemma utf8_length_append [simp]: "utf8_length (s @ t) = utf8_length s + utf8_length t"
  by (induction s) simp_all

lemma utf8_length_le: "utf8_length s \<le> 2 * length s"
  by (induction s) simp_all

end
