(* ===== verification/Json.thy ===== *)
theory Json
  imports Encoding
begin

text \<open>
  \<open>JSON.stringify\<close> on the values the sources serialise (null, booleans,
  integers, strings, arrays and objects whose property order is the insertion
  order), and the fact that its text determines the value. Every canonical form
  of the sources (device lists, authorizations, confirmations, proofs, sync
  packages) is such a text, so this is what makes their digests binding.
\<close>

section \<open>Printing\<close>

function show_nat :: "nat \<Rightarrow> string" where
  "show_nat n = (if n < 10 then [char_of (48 + n)] else show_nat (n div 10) @ [char_of (48 + n mod 10)])"
  by pat_completeness auto
termination
  by (relation "measure id") auto

declare show_nat.simps [simp del]

definition show_int :: "int \<Rightarrow> string" where
  "show_int n = (if n < 0 then CHR ''-'' # show_nat (nat (- n)) else show_nat (nat n))"

definition escape_char :: "char \<Rightarrow> string" where
  "escape_char c =
     (if code c = 34 then [CHR 0x5C, CHR 0x22]
      else if code c = 92 then [CHR 0x5C, CHR 0x5C]
      else if code c = 8 then [CHR 0x5C, CHR ''b'']
      else if code c = 9 then [CHR 0x5C, CHR ''t'']
      else if code c = 10 then [CHR 0x5C, CHR ''n'']
      else if code c = 12 then [CHR 0x5C, CHR ''f'']
      else if code c = 13 then [CHR 0x5C, CHR ''r'']
      else if code c < 32 then
        [CHR 0x5C, CHR ''u'', CHR ''0'', CHR ''0'', hex_digit (code c div 16), hex_digit (code c mod 16)]
      else [c])"

definition quote :: "string \<Rightarrow> string" where
  "quote s = CHR 0x22 # concat (map escape_char s) @ [CHR 0x22]"

text \<open>
  A property whose value is \<open>undefined\<close> is left out, an array element that is
  \<open>undefined\<close> prints as null.
\<close>

definition join :: "string list \<Rightarrow> string" where
  "join ss = (case ss of [] \<Rightarrow> [] | s # r \<Rightarrow> s @ concat (map (\<lambda>t. CHR '','' # t) r))"

fun stringify :: "jsval \<Rightarrow> string" where
  "stringify VUndefined = ''null''"
| "stringify VNull = ''null''"
| "stringify (VBool b) = (if b then ''true'' else ''false'')"
| "stringify (VNum NotWhole) = ''null''"
| "stringify (VNum (Whole n)) = show_int n"
| "stringify (VStr s) = quote s"
| "stringify (VArr vs) = CHR ''['' # join (map stringify vs) @ '']''"
| "stringify (VObj ps) = CHR ''{'' #
     join (concat (map (\<lambda>p. if snd p = VUndefined then []
       else [quote (fst p) @ '':'' @ stringify (snd p)]) ps)) @ ''}''"

text \<open>Values that JSON represents: no \<open>undefined\<close> and no other number than an integer.\<close>

fun json_ok :: "jsval \<Rightarrow> bool" where
  "json_ok VUndefined = False"
| "json_ok (VNum NotWhole) = False"
| "json_ok (VArr vs) = list_all json_ok vs"
| "json_ok (VObj ps) = list_all (\<lambda>p. json_ok (snd p)) ps"
| "json_ok _ = True"

section \<open>Numbers\<close>

lemma show_nat_digits: "c \<in> set (show_nat n) \<Longrightarrow> is_digit c"
  by (induction n arbitrary: c rule: show_nat.induct)
    (subst (asm) show_nat.simps, auto simp: is_digit_def code_def split: if_splits)

lemma show_nat_nonempty [simp]: "show_nat n \<noteq> []"
  by (subst show_nat.simps) simp

definition read_nat :: "string \<Rightarrow> nat" where
  "read_nat s = foldl (\<lambda>a c. 10 * a + (code c - 48)) 0 s"

lemma read_show_nat: "read_nat (show_nat n) = n"
proof (induction n rule: show_nat.induct)
  case (1 n)
  show ?case
  proof (cases "n < 10")
    case True
    then show ?thesis by (subst show_nat.simps) (simp add: read_nat_def code_def)
  next
    case False
    with 1 show ?thesis by (subst show_nat.simps) (simp add: read_nat_def code_def)
  qed
qed

text \<open>What can follow a value inside a larger text: the end, a comma or a closing bracket.\<close>

definition delimited :: "string \<Rightarrow> bool" where
  "delimited xs \<longleftrightarrow> (case xs of [] \<Rightarrow> True | x # _ \<Rightarrow> x \<in> {CHR '','', CHR '']'', CHR ''}''})"

lemma delimited_simps [simp]:
  "delimited []" "delimited (CHR '','' # xs)" "delimited (CHR '']'' # xs)" "delimited (CHR ''}'' # xs)"
  by (simp_all add: delimited_def)

lemma delimited_not_digit: "delimited (x # xs) \<Longrightarrow> \<not> is_digit x"
  by (auto simp: delimited_def is_digit_def code_def)

lemma digits_split:
  assumes "s @ xs = t @ ys" and "delimited xs" and "delimited ys"
    and "\<forall>c \<in> set s. is_digit c" and "\<forall>c \<in> set t. is_digit c"
  shows "s = t \<and> xs = ys"
proof -
  have "takeWhile is_digit (u @ zs) = u" if "delimited zs" "\<forall>c \<in> set u. is_digit c" for u zs
    using that delimited_not_digit by (cases zs) (auto simp: takeWhile_tail)
  with assms have "s = t" by metis
  with assms(1) show ?thesis by simp
qed

lemma show_nat_split:
  "show_nat n @ xs = show_nat m @ ys \<Longrightarrow> delimited xs \<Longrightarrow> delimited ys \<Longrightarrow> n = m \<and> xs = ys"
  using digits_split [of "show_nat n" xs "show_nat m" ys] show_nat_digits by (metis read_show_nat)

lemma hd_show_nat: "\<exists>c cs. show_nat n = c # cs \<and> is_digit c"
  using show_nat_nonempty [of n] show_nat_digits [of _ n] by (cases "show_nat n") auto

lemma minus_not_digit [simp]: "\<not> is_digit (CHR ''-'')"
  by (simp add: is_digit_def code_def)

lemma show_int_split:
  assumes "show_int n @ xs = show_int m @ ys" and "delimited xs" and "delimited ys"
  shows "n = m \<and> xs = ys"
proof (cases "n < 0"; cases "m < 0")
  assume "n < 0" "m < 0"
  with assms show_nat_split [of "nat (- n)" xs "nat (- m)" ys] show ?thesis by (auto simp: show_int_def)
next
  assume "\<not> n < 0" "\<not> m < 0"
  with assms show_nat_split [of "nat n" xs "nat m" ys] show ?thesis by (auto simp: show_int_def)
next
  assume "n < 0" "\<not> m < 0"
  with assms hd_show_nat [of "nat m"] show ?thesis by (auto simp: show_int_def)
next
  assume "\<not> n < 0" "m < 0"
  with assms hd_show_nat [of "nat n"] show ?thesis by (auto simp: show_int_def)
qed

section \<open>Strings\<close>

lemma hex_digit_inj: "hex_digit n = hex_digit m \<Longrightarrow> n < 16 \<Longrightarrow> m < 16 \<Longrightarrow> n = m"
proof -
  assume "hex_digit n = hex_digit m" "n < 16" "m < 16"
  moreover have "distinct ''0123456789abcdef''" by code_simp
  ultimately show ?thesis by (simp add: hex_digit_def nth_eq_iff_index_eq)
qed

lemma code_char_of [simp]: "n < 256 \<Longrightarrow> code (char_of n) = n"
  by (simp add: code_def)

lemma hex_digits_code:
  assumes "hex_digit (code c div 16) = hex_digit (code d div 16)"
    "hex_digit (code c mod 16) = hex_digit (code d mod 16)"
  shows "code c = code d"
proof -
  have "code x div 16 < 16" for x using code_bound [of x] by simp
  with assms have "code c div 16 = code d div 16" and "code c mod 16 = code d mod 16"
    by (auto intro: hex_digit_inj)
  then show ?thesis by (metis div_mult_mod_eq)
qed

lemma code_quotes: "code CHR 0x22 = 34" "code CHR 0x5C = 92"
  by (simp_all add: code_def)

text \<open>Reading one escaped character back: its code and the rest of the text.\<close>

definition hex_val :: "char \<Rightarrow> nat" where
  "hex_val c = (if is_digit c then code c - 48 else code c - 87)"

definition unescape :: "string \<Rightarrow> nat \<times> string" where
  "unescape s =
     (if hd s \<noteq> CHR 0x5C then (code (hd s), tl s)
      else let y = hd (tl s); r = tl (tl s) in
        if y = CHR 0x22 then (34, r) else if y = CHR 0x5C then (92, r)
        else if y = CHR ''b'' then (8, r) else if y = CHR ''t'' then (9, r)
        else if y = CHR ''n'' then (10, r) else if y = CHR ''f'' then (12, r)
        else if y = CHR ''r'' then (13, r)
        else (16 * hex_val (r ! 2) + hex_val (r ! 3), drop 4 r))"

lemma hex_val_digit: "n < 16 \<Longrightarrow> hex_val (hex_digit n) = n"
proof -
  assume n: "n < 16"
  have "list_all (\<lambda>k. hex_val (hex_digit k) = k) [0..<16]" by code_simp
  with n show ?thesis by (simp add: list_all_iff)
qed

lemma unescape_escape: "unescape (escape_char c @ xs) = (code c, xs)"
proof -
  have h: "16 * hex_val (hex_digit (code c div 16)) + hex_val (hex_digit (code c mod 16)) = code c"
    using code_bound [of c] by (simp add: hex_val_digit)
  have q: "code c \<noteq> 92 \<Longrightarrow> c \<noteq> CHR 0x5C" by (auto simp: code_quotes)
  show ?thesis
    unfolding escape_char_def unescape_def Let_def using h q by simp
qed

lemma escape_char_split:
  assumes "escape_char c @ xs = escape_char d @ ys"
  shows "c = d \<and> xs = ys"
proof -
  have "(code c, xs) = (code d, ys)" using assms unescape_escape by metis
  then show ?thesis by simp
qed

lemma escape_char_first: "\<exists>x xs. escape_char c = x # xs \<and> x \<noteq> CHR 0x22"
  by (auto simp: escape_char_def code_quotes)

lemma escaped_split:
  "concat (map escape_char s) @ CHR 0x22 # xs = concat (map escape_char t) @ CHR 0x22 # ys \<Longrightarrow>
     s = t \<and> xs = ys"
proof (induction s arbitrary: t)
  case Nil
  then show ?case using escape_char_first by (cases t) (auto, metis append_Cons list.inject)
next
  case (Cons c s)
  show ?case
  proof (cases t)
    case Nil
    with Cons.prems escape_char_first [of c] show ?thesis by auto
  next
    case (Cons d t')
    with Cons.prems escape_char_split [of c _ d] have "c = d"
      and "concat (map escape_char s) @ CHR 0x22 # xs =
           concat (map escape_char t') @ CHR 0x22 # ys" by auto
    with Cons.IH Cons show ?thesis by auto
  qed
qed

lemma quote_split: "quote s @ xs = quote t @ ys \<Longrightarrow> s = t \<and> xs = ys"
  using escaped_split [of s xs t ys] by (simp add: quote_def)

section \<open>Sequences\<close>

text \<open>A printer splits at two values if their texts, each followed by a delimiter, decide both.\<close>

definition splits_at :: "('a \<Rightarrow> string) \<Rightarrow> 'a \<Rightarrow> 'a \<Rightarrow> bool" where
  "splits_at f v w \<longleftrightarrow>
     (\<forall>a b. f v @ a = f w @ b \<longrightarrow> delimited a \<longrightarrow> delimited b \<longrightarrow> v = w \<and> a = b)"

lemma splits_atD:
  "splits_at f v w \<Longrightarrow> f v @ a = f w @ b \<Longrightarrow> delimited a \<Longrightarrow> delimited b \<Longrightarrow> v = w \<and> a = b"
  by (simp add: splits_at_def)

definition commas :: "('a \<Rightarrow> string) \<Rightarrow> 'a list \<Rightarrow> string" where
  "commas f vs = concat (map (\<lambda>v. CHR '','' # f v) vs)"

lemma commas_simps [simp]: "commas f [] = []" "commas f (v # vs) = CHR '','' # f v @ commas f vs"
  by (simp_all add: commas_def)

lemma commas_delimited: "e = CHR '']'' \<or> e = CHR ''}'' \<Longrightarrow> delimited (commas f us @ e # zs)"
  by (cases us) auto

lemma tail_split:
  assumes "\<forall>v \<in> set vs. \<forall>w \<in> set ws. splits_at f v w"
    and "commas f vs @ e # xs = commas f ws @ e # ys"
    and e: "e = CHR '']'' \<or> e = CHR ''}''"
  shows "vs = ws \<and> xs = ys"
  using assms(1,2)
proof (induction vs arbitrary: ws)
  case Nil
  with e show ?case by (cases ws) auto
next
  case (Cons v vs)
  from Cons.prems(2) e obtain w ws' where ws: "ws = w # ws'" by (cases ws) auto
  with Cons.prems(2) have eq: "f v @ (commas f vs @ e # xs) = f w @ (commas f ws' @ e # ys)" by simp
  from Cons.prems(1) ws have "splits_at f v w" by simp
  from splits_atD [OF this eq commas_delimited [OF e] commas_delimited [OF e]]
  have "v = w" and rest: "commas f vs @ e # xs = commas f ws' @ e # ys" by simp_all
  moreover from Cons.prems(1) ws have "\<forall>v \<in> set vs. \<forall>w \<in> set ws'. splits_at f v w" by simp
  ultimately show ?case using Cons.IH [OF _ rest] ws by simp
qed

lemma join_map: "join (map f vs) = (case vs of [] \<Rightarrow> [] | v # r \<Rightarrow> f v @ commas f r)"
  by (cases vs) (simp_all add: join_def commas_def comp_def)

lemma join_split:
  assumes elem: "\<forall>v \<in> set vs. \<forall>w \<in> set ws. splits_at f v w"
    and first: "\<forall>v \<in> set vs \<union> set ws. \<exists>c cs. f v = c # cs \<and> c \<noteq> e"
    and eq: "join (map f vs) @ e # xs = join (map f ws) @ e # ys"
    and e: "e = CHR '']'' \<or> e = CHR ''}''"
  shows "vs = ws \<and> xs = ys"
proof -
  consider "vs = []" "ws = []" | "vs \<noteq> []" "ws \<noteq> []" | "vs = [] \<longleftrightarrow> ws \<noteq> []" by blast
  then show ?thesis
  proof cases
    case 1
    with eq show ?thesis by (simp add: join_map)
  next
    case 2
    then obtain v r w q where "vs = v # r" and "ws = w # q" by (auto simp: neq_Nil_conv)
    with eq have "commas f vs @ e # xs = commas f ws @ e # ys"
      by (simp only: join_map list.case commas_simps append_assoc append_Cons)
    with elem e show ?thesis by (intro tail_split)
  next
    case 3
    with eq first show ?thesis
      by (cases vs; cases ws) (auto simp: join_def)
  qed
qed

section \<open>The text determines the value\<close>

text \<open>The first character tells the kind of value.\<close>

definition char_kind :: "char \<Rightarrow> nat" where
  "char_kind c =
     (if c = CHR ''n'' then 0 else if c = CHR ''t'' then 1 else if c = CHR ''f'' then 2
      else if is_digit c \<or> c = CHR ''-'' then 3 else if c = CHR 0x22 then 4
      else if c = CHR ''['' then 5 else if c = CHR ''{'' then 6 else 7)"

fun value_kind :: "jsval \<Rightarrow> nat" where
  "value_kind VUndefined = 0"
| "value_kind VNull = 0"
| "value_kind (VBool b) = (if b then 1 else 2)"
| "value_kind (VNum n) = 3"
| "value_kind (VStr s) = 4"
| "value_kind (VArr vs) = 5"
| "value_kind (VObj ps) = 6"

lemma char_kind_digit: "is_digit c \<Longrightarrow> char_kind c = 3"
  by (auto simp: char_kind_def is_digit_def code_def)

lemma char_kind_simps [simp]:
  "char_kind (CHR ''n'') = 0" "char_kind (CHR ''t'') = 1" "char_kind (CHR ''f'') = 2"
  "char_kind (CHR ''-'') = 3" "char_kind (CHR 0x22) = 4" "char_kind (CHR ''['') = 5"
  "char_kind (CHR ''{'') = 6" "char_kind (CHR '']'') = 7" "char_kind (CHR ''}'') = 7"
  by (simp_all add: char_kind_def is_digit_def code_def)

lemma stringify_first:
  assumes "json_ok v"
  shows "\<exists>c cs. stringify v = c # cs \<and> char_kind c = value_kind v"
proof -
  have "\<exists>c cs. show_int n = c # cs \<and> char_kind c = 3" for n
    using hd_show_nat [of "nat n"] char_kind_digit by (auto simp: show_int_def)
  with assms show ?thesis by (cases v rule: json_ok.cases) (auto simp: quote_def)
qed

lemma stringify_kind:
  assumes "json_ok v" and "json_ok w" and "stringify v @ a = stringify w @ b"
  shows "value_kind v = value_kind w"
  using assms stringify_first [of v] stringify_first [of w] by auto

lemma stringify_not_closing:
  assumes "json_ok v"
  shows "\<exists>c cs. stringify v = c # cs \<and> c \<noteq> CHR '']''"
proof -
  have "value_kind v < 7" by (cases v) simp_all
  moreover obtain c cs where "stringify v = c # cs" and "char_kind c = value_kind v"
    using stringify_first [OF assms] by blast
  moreover have "char_kind (CHR '']'') = 7" by simp
  ultimately show ?thesis by (metis less_irrefl)
qed

lemma stringify_obj:
  "json_ok (VObj ps) \<Longrightarrow> stringify (VObj ps) =
     CHR ''{'' # join (map (\<lambda>p. quote (fst p) @ '':'' @ stringify (snd p)) ps) @ ''}''"
proof -
  assume "json_ok (VObj ps)"
  then have "\<forall>p \<in> set ps. snd p \<noteq> VUndefined" by (auto simp: list_all_iff)
  then have "concat (map (\<lambda>p. if snd p = VUndefined then []
       else [quote (fst p) @ '':'' @ stringify (snd p)]) ps) =
     map (\<lambda>p. quote (fst p) @ '':'' @ stringify (snd p)) ps"
    by (induction ps) simp_all
  then show ?thesis by simp
qed

lemma prop_splits:
  assumes "splits_at stringify (snd p) (snd q)"
  shows "splits_at (\<lambda>p. quote (fst p) @ '':'' @ stringify (snd p)) p q"
  unfolding splits_at_def
proof (intro allI impI)
  fix a b
  assume eq: "(quote (fst p) @ '':'' @ stringify (snd p)) @ a = (quote (fst q) @ '':'' @ stringify (snd q)) @ b"
    and d: "delimited a" "delimited b"
  then have "fst p = fst q" and "stringify (snd p) @ a = stringify (snd q) @ b"
    using quote_split [of "fst p" "'':'' @ stringify (snd p) @ a" "fst q" "'':'' @ stringify (snd q) @ b"]
    by simp_all
  with splits_atD [OF assms] d show "p = q \<and> a = b" by (auto simp: prod_eq_iff)
qed

lemma kind_cases:
  assumes "value_kind v = value_kind w" and "json_ok v" and "json_ok w"
  obtains (null) "v = VNull" "w = VNull" | (bool) b where "v = VBool b" "w = VBool b"
    | (num) n m where "v = VNum (Whole n)" "w = VNum (Whole m)"
    | (str) s t where "v = VStr s" "w = VStr t"
    | (arr) vs ws where "v = VArr vs" "w = VArr ws"
    | (obj) ps qs where "v = VObj ps" "w = VObj qs"
  using assms
  by (cases v rule: json_ok.cases; cases w rule: json_ok.cases) (auto split: if_splits)

lemma atom_splits:
  assumes "json_ok v" and "json_ok w" and "value_kind v < 5"
  shows "splits_at stringify v w"
  unfolding splits_at_def
proof (intro allI impI)
  fix a b assume eq: "stringify v @ a = stringify w @ b" and d: "delimited a" "delimited b"
  from stringify_kind [OF assms(1,2) eq] assms(1,2) show "v = w \<and> a = b"
  proof (cases rule: kind_cases)
    case null
    with eq show ?thesis by simp
  next
    case bool
    with eq show ?thesis by simp
  next
    case (num n m)
    with eq d show_int_split [of n a m b] show ?thesis by simp
  next
    case (str s t)
    with eq quote_split [of s a t b] show ?thesis by simp
  qed (use assms(3) in simp_all)
qed

lemma stringify_split:
  assumes "json_ok v" and "json_ok w"
  shows "splits_at stringify v w"
  using assms
proof (induction v arbitrary: w rule: stringify.induct)
  case (7 vs)
  show ?case unfolding splits_at_def
  proof (intro allI impI)
    fix a b assume eq: "stringify (VArr vs) @ a = stringify w @ b"
    then have "value_kind w = 5" using stringify_kind [OF 7(2,3)] by fastforce
    with 7(3) obtain ws where w: "w = VArr ws" by (cases w) (auto split: if_splits)
    with 7 have "\<forall>v \<in> set vs. \<forall>w \<in> set ws. splits_at stringify v w" by (simp add: list_all_iff)
    moreover from 7(2,3) w have "\<forall>v \<in> set vs \<union> set ws. \<exists>c cs. stringify v = c # cs \<and> c \<noteq> CHR '']''"
      using stringify_not_closing by (auto simp only: list_all_iff json_ok.simps)
    moreover from eq w have "join (map stringify vs) @ CHR '']'' # a = join (map stringify ws) @ CHR '']'' # b"
      by simp
    ultimately show "VArr vs = w \<and> a = b" using join_split [of vs ws] w by blast
  qed
next
  case (8 ps)
  let ?f = "\<lambda>p. quote (fst p) @ '':'' @ stringify (snd p)"
  show ?case unfolding splits_at_def
  proof (intro allI impI)
    fix a b assume eq: "stringify (VObj ps) @ a = stringify w @ b"
    then have "value_kind w = 6" using stringify_kind [OF 8(2,3)] by fastforce
    with 8(3) obtain qs where w: "w = VObj qs" by (cases w) (auto split: if_splits)
    have "\<forall>p \<in> set ps. snd p \<noteq> VUndefined" using 8(2) by (auto simp: list_all_iff)
    with 8 w have "\<forall>p \<in> set ps. \<forall>q \<in> set qs. splits_at stringify (snd p) (snd q)"
      by (force simp: list_all_iff)
    then have "\<forall>p \<in> set ps. \<forall>q \<in> set qs. splits_at ?f p q" by (blast intro: prop_splits)
    moreover have "\<forall>p \<in> set ps \<union> set qs. \<exists>c cs. ?f p = c # cs \<and> c \<noteq> CHR ''}''"
      by (simp add: quote_def)
    moreover from eq w 8(2,3) have "join (map ?f ps) @ CHR ''}'' # a = join (map ?f qs) @ CHR ''}'' # b"
      by (simp add: stringify_obj del: stringify.simps)
    ultimately show "VObj ps = w \<and> a = b" using join_split [of ps qs ?f] w by blast
  qed
qed (simp_all add: atom_splits)

text \<open>Equal texts, equal values: \<open>JSON.stringify\<close> is injective on JSON values.\<close>

lemma stringify_inj: "stringify v = stringify w \<Longrightarrow> json_ok v \<Longrightarrow> json_ok w \<Longrightarrow> v = w"
  using splits_atD [OF stringify_split, of v w "[]" "[]"] by simp

section \<open>Values after a trip through text\<close>

text \<open>
  What \<open>JSON.parse(JSON.stringify(v))\<close> gives: properties that are \<open>undefined\<close> are
  gone, and what has no JSON form is null.
\<close>

fun json_image :: "jsval \<Rightarrow> jsval" where
  "json_image VUndefined = VNull"
| "json_image (VNum NotWhole) = VNull"
| "json_image (VArr vs) = VArr (map json_image vs)"
| "json_image (VObj ps) = VObj (map (\<lambda>p. (fst p, json_image (snd p))) (filter (\<lambda>p. snd p \<noteq> VUndefined) ps))"
| "json_image v = v"

lemma json_image_ok: "json_ok (json_image v)"
  by (induction v rule: json_image.induct) (auto simp: list_all_iff)

lemma json_image_id: "json_ok v \<Longrightarrow> json_image v = v"
proof (induction v rule: json_image.induct)
  case (4 ps)
  then have "filter (\<lambda>p. snd p \<noteq> VUndefined) ps = ps" by (auto simp: list_all_iff filter_id_conv)
  moreover from 4 have "map (\<lambda>p. (fst p, json_image (snd p))) ps = ps"
    by (intro map_idI) (force simp: list_all_iff)
  ultimately show ?case by simp
qed (auto simp: list_all_iff intro: map_idI)

lemma json_image_defined [simp]: "json_image v \<noteq> VUndefined"
  by (cases v rule: json_image.cases) simp_all

lemma stringify_image: "stringify (json_image v) = stringify v"
proof (induction v rule: json_image.induct)
  case (3 vs)
  then have "map (stringify \<circ> json_image) vs = map stringify vs" by simp
  then show ?case by (simp only: json_image.simps stringify.simps map_map)
next
  case (4 ps)
  have "concat (map ((\<lambda>p. if snd p = VUndefined then [] else [quote (fst p) @ '':'' @ stringify (snd p)])
          \<circ> (\<lambda>p. (fst p, json_image (snd p)))) (filter (\<lambda>p. snd p \<noteq> VUndefined) ps))
      = concat (map (\<lambda>p. if snd p = VUndefined then [] else [quote (fst p) @ '':'' @ stringify (snd p)]) ps)"
    using 4 by (induction ps) auto
  then show ?case by simp
qed simp_all

end
