(* ===== verification/DeviceIdentity.thy ===== *)
theory DeviceIdentity
  imports Json "HOL-Library.List_Lexorder" "HOL-Library.Char_ord"
begin

text \<open>
  Public device records of \<open>service/src/devices\<close>: the validated device entry and
  device list (\<open>deviceIdentity.ts\<close>, \<open>deviceList.ts\<close>), the canonical encoding and
  the commitment over it (\<open>canonicalEncoding.ts\<close>) and the epoch rules
  (\<open>epoch.ts\<close>). Constructors take arbitrary JavaScript values, as the code does
  when it reads stored or received data, and return the typed record or the
  error they throw. Web Crypto is assumed present; its SHA-256 is a parameter.
\<close>

section \<open>Entries and lists\<close>

datatype lifecycle_state = Pending_enrollment | Approved_pending_confirmation | Active | Revoked

record device_entry =
  deviceId :: string
  publicIdentityReference :: string
  algorithm :: string
  state :: lifecycle_state
  createdAt :: int
  revokedAt :: "int option"
  label :: "string option"

record device_list =
  identityReference :: string
  epoch :: int
  previousCommitment :: "string option"
  devices :: "device_entry list"

fun state_name :: "lifecycle_state \<Rightarrow> string" where
  "state_name Pending_enrollment = ''pending_enrollment''"
| "state_name Approved_pending_confirmation = ''approved_pending_confirmation''"
| "state_name Active = ''active''"
| "state_name Revoked = ''revoked''"

definition parse_state :: "jsval \<Rightarrow> lifecycle_state option" where
  "parse_state v =
     (if v = VStr ''pending_enrollment'' then Some Pending_enrollment
      else if v = VStr ''approved_pending_confirmation'' then Some Approved_pending_confirmation
      else if v = VStr ''active'' then Some Active
      else if v = VStr ''revoked'' then Some Revoked else None)"

text \<open>
  Unicode NFC. Every string of characters below 256, which is what the model's
  strings hold, is already in normal form.
\<close>

definition nfc :: "string \<Rightarrow> string" where
  "nfc s = s"

definition text_ok :: "nat \<Rightarrow> string \<Rightarrow> bool" where
  "text_ok max_length s \<longleftrightarrow>
     s \<noteq> [] \<and> length s \<le> max_length \<and> \<not> list_ex is_control s \<and> nfc s = s"

fun assertString :: "nat \<Rightarrow> jsval \<Rightarrow> bool" where
  "assertString max_length (VStr s) = text_ok max_length s"
| "assertString max_length _ = False"

definition assertTimestamp :: "jsval \<Rightarrow> bool" where
  "assertTimestamp v \<longleftrightarrow> is_safe_num v \<and> 0 \<le> num_of v"

definition optional :: "(jsval \<Rightarrow> 'a) \<Rightarrow> jsval \<Rightarrow> 'a option" where
  "optional f v = (if v = VUndefined then None else Some (f v))"

definition createDeviceEntry :: "jsval \<Rightarrow> device_entry outcome" where
  "createDeviceEntry v =
     (if \<not> is_plain_object v then Inl ''Invalid device identity record.''
      else if list_ex (\<lambda>k. k \<notin> {''algorithm'', ''createdAt'', ''deviceId'', ''label'',
          ''publicIdentityReference'', ''revokedAt'', ''state''}) (object_keys v)
        then Inl ''Invalid device identity record.''
      else if \<not> assertString 256 (get_prop v ''deviceId'')
        then Inl ''Invalid device identity deviceId.''
      else if \<not> assertString 256 (get_prop v ''publicIdentityReference'')
        then Inl ''Invalid device identity publicIdentityReference.''
      else if \<not> assertString 128 (get_prop v ''algorithm'')
        then Inl ''Invalid device identity algorithm.''
      else if parse_state (get_prop v ''state'') = None
        then Inl ''Invalid device lifecycle state.''
      else if \<not> assertTimestamp (get_prop v ''createdAt'')
        then Inl ''Invalid device identity createdAt.''
      else if get_prop v ''revokedAt'' \<noteq> VUndefined \<and> \<not> assertTimestamp (get_prop v ''revokedAt'')
        then Inl ''Invalid device identity revokedAt.''
      else if get_prop v ''label'' \<noteq> VUndefined \<and> \<not> assertString 128 (get_prop v ''label'')
        then Inl ''Invalid device identity label.''
      else if parse_state (get_prop v ''state'') = Some Revoked \<and> get_prop v ''revokedAt'' = VUndefined
        then Inl ''Revoked devices require revokedAt.''
      else if parse_state (get_prop v ''state'') \<noteq> Some Revoked \<and> get_prop v ''revokedAt'' \<noteq> VUndefined
        then Inl ''Only revoked devices may have revokedAt.''
      else if get_prop v ''revokedAt'' \<noteq> VUndefined
          \<and> num_of (get_prop v ''revokedAt'') < num_of (get_prop v ''createdAt'')
        then Inl ''Device revocation precedes creation.''
      else Inr \<lparr>deviceId = str_of (get_prop v ''deviceId''),
        publicIdentityReference = str_of (get_prop v ''publicIdentityReference''),
        algorithm = str_of (get_prop v ''algorithm''),
        state = the (parse_state (get_prop v ''state'')),
        createdAt = num_of (get_prop v ''createdAt''),
        revokedAt = optional num_of (get_prop v ''revokedAt''),
        label = optional str_of (get_prop v ''label'')\<rparr>)"

text \<open>The lifecycle transitions the model permits, and what they may not change.\<close>

definition isValidDeviceLifecycleTransition :: "lifecycle_state \<Rightarrow> lifecycle_state \<Rightarrow> bool" where
  "isValidDeviceLifecycleTransition from to \<longleftrightarrow>
     from = to
     \<or> from = Pending_enrollment \<and> (to = Approved_pending_confirmation \<or> to = Revoked)
     \<or> from = Approved_pending_confirmation \<and> (to = Active \<or> to = Revoked)
     \<or> from = Active \<and> to = Revoked"

definition assertDeviceCanAuthorize :: "device_entry \<Rightarrow> unit outcome" where
  "assertDeviceCanAuthorize e =
     (if state e \<noteq> Active then Inl ''Only active devices may authorize operations.'' else Inr ())"

text \<open>The plain objects of a record, in the property order of the canonical encoding.\<close>

definition opt_prop :: "string \<Rightarrow> ('a \<Rightarrow> jsval) \<Rightarrow> 'a option \<Rightarrow> (string \<times> jsval) list" where
  "opt_prop k f x = (case x of None \<Rightarrow> [] | Some a \<Rightarrow> [(k, f a)])"

abbreviation VInt :: "int \<Rightarrow> jsval" where
  "VInt n \<equiv> VNum (Whole n)"

definition canonicalEntry :: "device_entry \<Rightarrow> jsval" where
  "canonicalEntry e = VObj
     ([(''deviceId'', VStr (deviceId e)),
       (''publicIdentityReference'', VStr (publicIdentityReference e)),
       (''algorithm'', VStr (algorithm e)),
       (''state'', VStr (state_name (state e))),
       (''createdAt'', VInt (createdAt e))]
      @ opt_prop ''revokedAt'' VInt (revokedAt e) @ opt_prop ''label'' VStr (label e))"

definition assertDeviceEntryTransition :: "device_entry \<Rightarrow> device_entry \<Rightarrow> unit outcome" where
  "assertDeviceEntryTransition from to =
     (if deviceId from \<noteq> deviceId to \<or> publicIdentityReference from \<noteq> publicIdentityReference to
      then Inl ''Device identity cannot change through a lifecycle transition.''
      else if \<not> isValidDeviceLifecycleTransition (state from) (state to)
      then Inl ''Invalid device lifecycle transition.''
      else map_sum id (\<lambda>_. ()) (createDeviceEntry (canonicalEntry to)))"

definition isCommitment :: "jsval \<Rightarrow> bool" where
  "isCommitment v = (case v of VStr s \<Rightarrow> hex64 s | _ \<Rightarrow> False)"

fun create_entries :: "jsval list \<Rightarrow> device_entry list outcome" where
  "create_entries [] = Inr []"
| "create_entries (v # vs) =
     (case createDeviceEntry v of
        Inl e \<Rightarrow> Inl e
      | Inr x \<Rightarrow> (case create_entries vs of Inl e \<Rightarrow> Inl e | Inr xs \<Rightarrow> Inr (x # xs)))"

fun check_unique :: "string set \<Rightarrow> string set \<Rightarrow> device_entry list \<Rightarrow> unit outcome" where
  "check_unique ids identities [] = Inr ()"
| "check_unique ids identities (e # es) =
     (if deviceId e \<in> ids then Inl ''Duplicate device identifier.''
      else if publicIdentityReference e \<in> identities then Inl ''Duplicate device public identity.''
      else check_unique (insert (deviceId e) ids) (insert (publicIdentityReference e) identities) es)"

definition createDeviceList :: "jsval \<Rightarrow> device_list outcome" where
  "createDeviceList v =
     (if \<not> is_plain_object v then Inl ''Invalid device list.''
      else if list_ex (\<lambda>k. k \<notin> {''devices'', ''epoch'', ''identityReference'',
          ''previousCommitment'', ''version''}) (object_keys v) then Inl ''Invalid device list.''
      else if get_prop v ''version'' \<noteq> VInt 1 then Inl ''Unsupported device-list version.''
      else if \<not> assertString 256 (get_prop v ''identityReference'') then Inl ''Invalid device list.''
      else if \<not> is_safe_num (get_prop v ''epoch'') \<or> num_of (get_prop v ''epoch'') < 0
        then Inl ''Invalid device list.''
      else if get_prop v ''previousCommitment'' \<noteq> VNull \<and> \<not> isCommitment (get_prop v ''previousCommitment'')
        then Inl ''Invalid device list.''
      else case get_prop v ''devices'' of
        VArr vs \<Rightarrow>
          (case create_entries vs of
             Inl e \<Rightarrow> Inl e
           | Inr es \<Rightarrow>
             (case check_unique {} {} es of
                Inl e \<Rightarrow> Inl e
              | Inr _ \<Rightarrow> Inr \<lparr>identityReference = str_of (get_prop v ''identityReference''),
                  epoch = num_of (get_prop v ''epoch''),
                  previousCommitment = (if get_prop v ''previousCommitment'' = VNull then None
                    else Some (str_of (get_prop v ''previousCommitment''))),
                  devices = es\<rparr>))
      | _ \<Rightarrow> Inl ''Invalid device list.'')"

definition deviceEntryById :: "device_list \<Rightarrow> string \<Rightarrow> device_entry option" where
  "deviceEntryById l i = find (\<lambda>e. deviceId e = i) (devices l)"

section \<open>Canonical encoding and commitment\<close>

definition list_value :: "device_list \<Rightarrow> jsval" where
  "list_value l = VObj
     [(''version'', VInt 1), (''identityReference'', VStr (identityReference l)),
      (''epoch'', VInt (epoch l)),
      (''previousCommitment'', case previousCommitment l of None \<Rightarrow> VNull | Some c \<Rightarrow> VStr c),
      (''devices'', VArr (map canonicalEntry (devices l)))]"

definition canonicalDeviceListJson :: "jsval \<Rightarrow> string outcome" where
  "canonicalDeviceListJson v =
     (case createDeviceList v of
        Inl e \<Rightarrow> Inl e
      | Inr l \<Rightarrow> Inr (stringify (list_value (l\<lparr>devices := sort_key deviceId (devices l)\<rparr>))))"

definition deviceListCommitment :: "(u8 list \<Rightarrow> u8 list) \<Rightarrow> jsval \<Rightarrow> string outcome" where
  "deviceListCommitment sha256 v = map_sum id (digest_hex sha256) (canonicalDeviceListJson v)"

definition verifyDeviceListCommitment :: "(u8 list \<Rightarrow> u8 list) \<Rightarrow> jsval \<Rightarrow> string \<Rightarrow> bool outcome" where
  "verifyDeviceListCommitment sha256 v expected =
     (if \<not> hex64 expected then Inr False
      else map_sum id (\<lambda>c. c = expected) (deviceListCommitment sha256 v))"

section \<open>Epochs\<close>

datatype epoch_validation = Current | Stale | Future

definition compareEpoch :: "jsnum \<Rightarrow> jsnum \<Rightarrow> epoch_validation outcome" where
  "compareEpoch current candidate =
     (if \<not> isSafeInteger current \<or> whole current < 0 \<or> \<not> isSafeInteger candidate \<or> whole candidate < 0
      then Inl ''Invalid device-list epoch.''
      else Inr (if whole candidate = whole current then Current
        else if whole candidate < whole current then Stale else Future))"

definition assertNextEpoch :: "jsval \<Rightarrow> jsval \<Rightarrow> unit outcome" where
  "assertNextEpoch previous next_list =
     (case createDeviceList previous of
        Inl e \<Rightarrow> Inl e
      | Inr prior \<Rightarrow>
        (case createDeviceList next_list of
           Inl e \<Rightarrow> Inl e
         | Inr candidate \<Rightarrow>
           if identityReference candidate \<noteq> identityReference prior
             then Inl ''Device-list identity scope changed.''
           else if epoch candidate \<noteq> epoch prior + 1
             then Inl ''Device-list epoch must increase by one.''
           else if previousCommitment candidate = None
             then Inl ''Next device list requires a previous commitment.''
           else Inr ()))"

definition assertNotRollback :: "jsval \<Rightarrow> jsval \<Rightarrow> unit outcome" where
  "assertNotRollback current candidate =
     (case createDeviceList current of
        Inl e \<Rightarrow> Inl e
      | Inr cur \<Rightarrow>
        (case createDeviceList candidate of
           Inl e \<Rightarrow> Inl e
         | Inr cand \<Rightarrow>
           if identityReference cand \<noteq> identityReference cur
             then Inl ''Device-list identity scope changed.''
           else if epoch cand < epoch cur then Inl ''Device-list rollback rejected.''
           else if epoch cand = epoch cur
             \<and> canonicalDeviceListJson (list_value cand) \<noteq> canonicalDeviceListJson (list_value cur)
             then Inl ''Same-epoch device-list fork rejected.''
           else Inr ()))"

definition assertCurrentEpoch :: "jsval \<Rightarrow> jsnum \<Rightarrow> unit outcome" where
  "assertCurrentEpoch current candidateEpoch =
     (case createDeviceList current of
        Inl e \<Rightarrow> Inl e
      | Inr l \<Rightarrow>
        (case compareEpoch (Whole (epoch l)) candidateEpoch of
           Inl e \<Rightarrow> Inl e
         | Inr c \<Rightarrow> if c \<noteq> Current then Inl ''Stale device-list epoch.'' else Inr ()))"

section \<open>Well-formed records\<close>

definition time_ok :: "int \<Rightarrow> bool" where
  "time_ok t \<longleftrightarrow> safe_int t \<and> 0 \<le> t"

definition entry_ok :: "device_entry \<Rightarrow> bool" where
  "entry_ok e \<longleftrightarrow> text_ok 256 (deviceId e) \<and> text_ok 256 (publicIdentityReference e) \<and>
     text_ok 128 (algorithm e) \<and> time_ok (createdAt e) \<and>
     (case revokedAt e of None \<Rightarrow> state e \<noteq> Revoked
      | Some t \<Rightarrow> state e = Revoked \<and> time_ok t \<and> createdAt e \<le> t) \<and>
     (case label e of None \<Rightarrow> True | Some s \<Rightarrow> text_ok 128 s)"

definition list_ok :: "device_list \<Rightarrow> bool" where
  "list_ok l \<longleftrightarrow> text_ok 256 (identityReference l) \<and> time_ok (epoch l) \<and>
     (case previousCommitment l of None \<Rightarrow> True | Some c \<Rightarrow> hex64 c) \<and>
     list_all entry_ok (devices l) \<and> distinct (map deviceId (devices l)) \<and>
     distinct (map publicIdentityReference (devices l))"

section \<open>Lemmas\<close>

lemma assertString_iff: "assertString n v \<longleftrightarrow> (\<exists>s. v = VStr s \<and> text_ok n s)"
  by (cases v) simp_all

lemma assertTimestamp_iff: "assertTimestamp v \<longleftrightarrow> (\<exists>t. v = VInt t \<and> time_ok t)"
proof (cases v)
  case (VNum n)
  then show ?thesis by (cases n) (auto simp: assertTimestamp_def time_ok_def)
qed (simp_all add: assertTimestamp_def)

lemma is_safe_num_iff: "is_safe_num v \<longleftrightarrow> (\<exists>n. v = VInt n \<and> safe_int n)"
proof (cases v)
  case (VNum n)
  then show ?thesis by (cases n) simp_all
qed simp_all

lemma parse_state_name [simp]:
  "parse_state (VStr (state_name s)) = Some s" "parse_state (VStr ''revoked'') = Some Revoked"
  by (cases s) (simp_all add: parse_state_def)

lemma createDeviceEntry_ok:
  assumes "createDeviceEntry v = Inr e"
  shows "entry_ok e"
proof (cases "get_prop v ''revokedAt'' = VUndefined"; cases "get_prop v ''label'' = VUndefined")
qed (use assms in \<open>auto simp: createDeviceEntry_def entry_ok_def optional_def assertString_iff
  assertTimestamp_iff time_ok_def split: if_splits\<close>)

lemma createDeviceEntry_canonical:
  assumes "entry_ok e"
  shows "createDeviceEntry (canonicalEntry e) = Inr e"
proof (cases "revokedAt e"; cases "label e")
qed (use assms in \<open>auto simp: createDeviceEntry_def canonicalEntry_def opt_prop_def entry_ok_def
  assertTimestamp_iff optional_def\<close>)

lemma create_entries_ok: "create_entries vs = Inr es \<Longrightarrow> list_all entry_ok es"
  by (induction vs arbitrary: es) (auto split: sum.splits dest: createDeviceEntry_ok)

lemma create_entries_canonical:
  "list_all entry_ok es \<Longrightarrow> create_entries (map canonicalEntry es) = Inr es"
  by (induction es) (simp_all add: createDeviceEntry_canonical)

lemma check_unique_iff:
  "check_unique ids idents es = Inr u \<longleftrightarrow>
     distinct (map deviceId es) \<and> distinct (map publicIdentityReference es) \<and>
     deviceId ` set es \<inter> ids = {} \<and> publicIdentityReference ` set es \<inter> idents = {}"
  by (induction ids idents es rule: check_unique.induct) auto

lemma createDeviceList_ok:
  assumes "createDeviceList v = Inr l"
  shows "list_ok l"
proof -
  from assms obtain vs es where "get_prop v ''devices'' = VArr vs" and "create_entries vs = Inr es"
    and "check_unique {} {} es = Inr ()"
    by (auto simp: createDeviceList_def split: if_splits jsval.splits sum.splits)
  with assms create_entries_ok [of vs es] check_unique_iff [of "{}" "{}" es "()"] show ?thesis
    by (auto simp: createDeviceList_def list_ok_def isCommitment_def assertString_iff time_ok_def is_safe_num_iff
        split: if_splits jsval.splits)
qed

lemma createDeviceList_value:
  assumes "list_ok l"
  shows "createDeviceList (list_value l) = Inr l"
proof -
  have "create_entries (map canonicalEntry (devices l)) = Inr (devices l)"
    using assms by (simp add: list_ok_def create_entries_canonical)
  moreover have "check_unique {} {} (devices l) = Inr ()"
    using assms by (simp add: check_unique_iff list_ok_def)
  ultimately show ?thesis
    using assms
    by (auto simp: createDeviceList_def list_value_def list_ok_def isCommitment_def time_ok_def
        split: option.splits)
qed

lemma createDeviceList_value_iff: "createDeviceList (list_value l) = Inr l \<longleftrightarrow> list_ok l"
  using createDeviceList_ok createDeviceList_value by blast

text \<open>The canonical order of the devices, and the value that is printed and hashed.\<close>

definition canonical :: "device_list \<Rightarrow> device_list" where
  "canonical l = l\<lparr>devices := sort_key deviceId (devices l)\<rparr>"

lemma distinct_map_sort_key:
  "distinct (map f (sort_key g xs)) \<longleftrightarrow> distinct (map f xs)"
  by (metis distinct_map distinct_sort set_sort)

lemma canonical_ok: "list_ok l \<Longrightarrow> list_ok (canonical l)"
  by (simp add: list_ok_def canonical_def distinct_map_sort_key list_all_iff)

lemma json_ok_list_value: "json_ok (list_value l)"
  by (auto simp: list_value_def canonicalEntry_def opt_prop_def list_all_iff split: option.splits)

lemma list_value_inj: "list_value l = list_value l' \<Longrightarrow> list_ok l \<Longrightarrow> list_ok l' \<Longrightarrow> l = l'"
  by (metis createDeviceList_value sum.inject(2))

lemma canonical_json:
  "canonicalDeviceListJson v = Inr t \<longleftrightarrow>
     (\<exists>l. createDeviceList v = Inr l \<and> t = stringify (list_value (canonical l)))"
  by (auto simp: canonicalDeviceListJson_def canonical_def split: sum.splits)

lemma canonicalDeviceListJson_value:
  "list_ok l \<Longrightarrow> canonicalDeviceListJson (list_value l) = Inr (stringify (list_value (canonical l)))"
  by (simp add: canonicalDeviceListJson_def canonical_def createDeviceList_value)

lemma json_of_canonical_inj:
  assumes "stringify (list_value (canonical l)) = stringify (list_value (canonical l'))"
    and "list_ok l" and "list_ok l'"
  shows "canonical l = canonical l'"
proof -
  from assms(1) have "list_value (canonical l) = list_value (canonical l')"
    by (intro stringify_inj) (simp_all add: json_ok_list_value)
  with assms show ?thesis by (intro list_value_inj) (auto intro: canonical_ok)
qed

lemma canonical_json_inj:
  assumes "canonicalDeviceListJson v = Inr t" and "canonicalDeviceListJson v' = Inr t"
  shows "\<exists>l l'. createDeviceList v = Inr l \<and> createDeviceList v' = Inr l' \<and> canonical l = canonical l'"
  using assms json_of_canonical_inj createDeviceList_ok by (fastforce simp: canonical_json)

lemma canonical_same:
  assumes "list_ok l" and "list_ok l'"
  shows "canonical l = canonical l' \<longleftrightarrow>
    identityReference l = identityReference l' \<and> epoch l = epoch l' \<and>
    previousCommitment l = previousCommitment l' \<and> set (devices l) = set (devices l')"
proof
  assume "canonical l = canonical l'"
  then show "identityReference l = identityReference l' \<and> epoch l = epoch l' \<and>
    previousCommitment l = previousCommitment l' \<and> set (devices l) = set (devices l')"
    unfolding canonical_def
    by (metis device_list.select_convs device_list.simps(5-8) device_list.surjective
        device_list.update_convs(4) set_sort)
next
  assume r: "identityReference l = identityReference l' \<and> epoch l = epoch l' \<and>
    previousCommitment l = previousCommitment l' \<and> set (devices l) = set (devices l')"
  with assms have "sort_key deviceId (devices l) = sort_key deviceId (devices l')"
    by (intro map_sorted_distinct_set_unique [of deviceId])
      (auto simp: list_ok_def distinct_map_sort_key distinct_map)
  with r show "canonical l = canonical l'" by (simp add: canonical_def)
qed

text \<open>A concrete scope for the witnesses.\<close>

definition sample_list :: "device_entry list \<Rightarrow> device_list" where
  "sample_list es = \<lparr>identityReference = ''acct'', epoch = 0, previousCommitment = None, devices = es\<rparr>"

definition sample_entry :: "string \<Rightarrow> device_entry" where
  "sample_entry d = \<lparr>deviceId = d, publicIdentityReference = d, algorithm = ''vodozemac'',
     state = Active, createdAt = 1, revokedAt = None, label = None\<rparr>"

lemma sample_ok [simp]:
  "list_ok (sample_list [])" "list_ok (sample_list [sample_entry ''a'', sample_entry ''b''])"
  "list_ok (sample_list [sample_entry ''b'', sample_entry ''a''])"
  by (simp_all add: sample_list_def sample_entry_def list_ok_def entry_ok_def text_ok_def nfc_def
      time_ok_def is_control_def code_def)

lemma sample_select [simp]:
  "identityReference (sample_list es) = ''acct''" "epoch (sample_list es) = 0"
  "previousCommitment (sample_list es) = None" "devices (sample_list es) = es"
  by (simp_all add: sample_list_def)

lemma sample_commitment:
  "list_ok (sample_list es) \<Longrightarrow> deviceListCommitment sha256 (list_value (sample_list es)) =
     Inr (digest_hex sha256 (stringify (list_value (canonical (sample_list es)))))"
  by (simp add: deviceListCommitment_def canonicalDeviceListJson_def canonical_def createDeviceList_value)

section \<open>Properties\<close>

text \<open>
  C35. A device list that was accepted is well formed (valid texts and times,
  distinct device identifiers, distinct public identities, a revocation time
  exactly on revoked devices) and is accepted again unchanged when it is stored
  and read back.
\<close>

theorem device_list_wellformed_roundtrip:
  assumes "createDeviceList v = Inr l"
  shows "list_ok l \<and> createDeviceList (list_value l) = Inr l"
  using createDeviceList_ok [OF assms] createDeviceList_value by blast

theorem device_list_wellformed_roundtrip_witness:
  "list_ok \<lparr>identityReference = ''acct'', epoch = 0, previousCommitment = None, devices = []\<rparr> \<and>
   createDeviceList (list_value \<lparr>identityReference = ''acct'', epoch = 0, previousCommitment = None,
     devices = []\<rparr>) =
     Inr \<lparr>identityReference = ''acct'', epoch = 0, previousCommitment = None, devices = []\<rparr>"
proof (rule device_list_wellformed_roundtrip)
  show "createDeviceList (VObj [(''devices'', VArr []), (''version'', VInt 1),
      (''epoch'', VInt 0), (''previousCommitment'', VNull), (''identityReference'', VStr ''acct'')]) =
    Inr \<lparr>identityReference = ''acct'', epoch = 0, previousCommitment = None, devices = []\<rparr>"
    by (simp add: createDeviceList_def text_ok_def nfc_def is_control_def code_def)
qed

text \<open>
  C14. The commitment binds the device list: two accepted lists with the same
  commitment have the same scope, epoch, predecessor and devices (in whatever
  order they were given), unless SHA-256 maps their two distinct canonical
  encodings to the same digest.
\<close>

theorem commitment_binds_device_list:
  assumes "deviceListCommitment sha256 v = Inr c" and "deviceListCommitment sha256 v' = Inr c"
  shows "\<exists>l l'. createDeviceList v = Inr l \<and> createDeviceList v' = Inr l' \<and>
    (identityReference l = identityReference l' \<and> epoch l = epoch l' \<and>
       previousCommitment l = previousCommitment l' \<and> set (devices l) = set (devices l')
     \<or> (let b = encode_utf8 (units_of (stringify (list_value (canonical l))));
            b' = encode_utf8 (units_of (stringify (list_value (canonical l'))))
        in b \<noteq> b' \<and> sha256 b = sha256 b'))"
proof -
  from assms obtain t t' where t: "canonicalDeviceListJson v = Inr t" "canonicalDeviceListJson v' = Inr t'"
    and d: "digest_hex sha256 t = digest_hex sha256 t'"
    by (cases "canonicalDeviceListJson v"; cases "canonicalDeviceListJson v'")
      (auto simp: deviceListCommitment_def)
  then obtain l l' where l: "createDeviceList v = Inr l" "createDeviceList v' = Inr l'"
    and tl: "t = stringify (list_value (canonical l))" "t' = stringify (list_value (canonical l'))"
    by (auto simp: canonical_json)
  show ?thesis
  proof (cases "t = t'")
    case True
    with canonical_json_inj [of v t v'] t l have "canonical l = canonical l'" by auto
    with l canonical_same [OF createDeviceList_ok [OF l(1)] createDeviceList_ok [OF l(2)]]
    show ?thesis by blast
  next
    case False
    with digest_hex_binds [OF d] l tl show ?thesis by (auto simp: Let_def)
  qed
qed

theorem commitment_binds_device_list_witness:
  "\<exists>l l'. createDeviceList (list_value (sample_list [])) = Inr l \<and>
    createDeviceList (list_value (sample_list [])) = Inr l' \<and>
    (identityReference l = identityReference l' \<and> epoch l = epoch l' \<and>
       previousCommitment l = previousCommitment l' \<and> set (devices l) = set (devices l')
     \<or> (let b = encode_utf8 (units_of (stringify (list_value (canonical l))));
            b' = encode_utf8 (units_of (stringify (list_value (canonical l'))))
        in b \<noteq> b' \<and> (\<lambda>x. x) b = (\<lambda>x. x) b'))"
  using commitment_binds_device_list [of "\<lambda>x. x", OF sample_commitment sample_commitment, of "[]"]
  by (simp only: sample_ok simp_thms)

text \<open>
  The order in which devices are listed does not matter: accepted lists
  that agree but for the order of their devices have the same commitment.
\<close>

theorem commitment_ignores_order:
  assumes "createDeviceList v = Inr l" and "createDeviceList v' = Inr l'"
    and "identityReference l = identityReference l'" and "epoch l = epoch l'"
    and "previousCommitment l = previousCommitment l'" and "set (devices l) = set (devices l')"
  shows "deviceListCommitment sha256 v = deviceListCommitment sha256 v'"
proof -
  have "canonical l = canonical l'"
    using assms canonical_same createDeviceList_ok by blast
  with assms(1,2) show ?thesis
    by (simp add: deviceListCommitment_def canonicalDeviceListJson_def canonical_def)
qed

theorem commitment_ignores_order_witness:
  "deviceListCommitment (\<lambda>b. b) (list_value (sample_list [sample_entry ''a'', sample_entry ''b''])) =
   deviceListCommitment (\<lambda>b. b) (list_value (sample_list [sample_entry ''b'', sample_entry ''a'']))"
  by (rule commitment_ignores_order [OF createDeviceList_value createDeviceList_value])
    (simp_all only: sample_ok sample_select insert_commute list.set)

text \<open>
  Rollback protection: a candidate list passes exactly when both lists are
  well formed, concern the same identity, and the candidate is either newer or
  the very same list up to the order of its devices. In particular an older
  list and a fork of the current epoch are refused.
\<close>

theorem rollback_and_fork_rejected:
  "assertNotRollback current candidate = Inr () \<longleftrightarrow>
     (\<exists>cur cand. createDeviceList current = Inr cur \<and> createDeviceList candidate = Inr cand \<and>
        identityReference cand = identityReference cur \<and>
        (epoch cur < epoch cand \<or>
         epoch cur = epoch cand \<and> previousCommitment cur = previousCommitment cand \<and>
         set (devices cur) = set (devices cand)))"
proof (cases "createDeviceList current"; cases "createDeviceList candidate")
  fix cur cand
  assume c: "createDeviceList current = Inr cur" "createDeviceList candidate = Inr cand"
  then have ok: "list_ok cur" "list_ok cand" by (simp_all add: createDeviceList_ok)
  have "canonicalDeviceListJson (list_value cand) = canonicalDeviceListJson (list_value cur) \<longleftrightarrow>
      canonical cand = canonical cur"
    using ok json_of_canonical_inj by (auto simp: canonicalDeviceListJson_value)
  with ok show ?thesis
    using c by (auto simp: assertNotRollback_def canonical_same)
qed (auto simp: assertNotRollback_def)

end
