(* ===== verification/Calls.thy ===== *)
theory Calls
  imports DeviceIdentity
begin

text \<open>
  Calls between two verified contacts (\<open>service/src/calls\<close>): the session and its
  state machine, the repository and the event processor, the authorization of
  participants, the service that invites and answers, capture permissions and
  the signals held for a receiver that is not there yet. The theory shows that a
  finished call never changes again, that whatever its events are a stored call
  keeps its parties and deadline, and what the invitation deadline does to a call
  that reconnects after it: the table leads back through \<open>connecting\<close>, a state
  the deadline applies to, so the call can only expire.

  The processor's queue runs the events of one call one after the other, so an
  event is one step on the repository. \<open>Date.now\<close>, the identity verifier and the
  fresh identifier of \<open>generateUUID\<close> are arguments.
\<close>

section \<open>Sessions\<close>

datatype call_state =
    Idle | Inviting | Ringing | Accepted | Connecting | Connected | Reconnecting
  | Ended | Rejected | Cancelled | Expired | Failed

datatype session_event =
    Invite | Accept | Reject | Cancel | Connect | ConnectedEvent | Reconnect | End | Expire | Fail | Heartbeat

datatype verification_state = Unknown | Unverified | Verified | ChangedPendingReview

record call_participant =
  participantId :: string
  identityId :: string
  verification :: verification_state

datatype call_media = Audio | Video

record live_session =
  callId :: string
  conversationId :: string
  participants :: "call_participant \<times> call_participant"
  mediaMode :: call_media
  state :: call_state
  createdAt :: int
  updatedAt :: int
  expiresAt :: int
  identityBinding :: string

section \<open>Policy\<close>

record call_policy =
  invitationLifetimeMs :: jsnum
  heartbeatTimeoutMs :: jsnum
  maxParticipants :: jsnum
  maxSequenceGap :: jsnum

definition DEFAULT_CALL_SECURITY_POLICY :: call_policy where
  "DEFAULT_CALL_SECURITY_POLICY =
     \<lparr>invitationLifetimeMs = Whole 60000, heartbeatTimeoutMs = Whole 30000,
      maxParticipants = Whole 2, maxSequenceGap = Whole 1\<rparr>"

definition CALL_SIGNAL_LIFETIME_MS :: int where
  "CALL_SIGNAL_LIFETIME_MS = 60000"

definition validateCallPolicy :: "call_policy \<Rightarrow> unit outcome" where
  "validateCallPolicy policy =
     (if \<not> isSafeInteger (invitationLifetimeMs policy) \<or> whole (invitationLifetimeMs policy) < 1000 \<or>
         whole (invitationLifetimeMs policy) > 86400000 then Inl ''Invalid call invitation lifetime.''
      else if \<not> isSafeInteger (heartbeatTimeoutMs policy) \<or> whole (heartbeatTimeoutMs policy) < 1000 \<or>
         whole (heartbeatTimeoutMs policy) > 300000 then Inl ''Invalid call heartbeat timeout.''
      else if maxParticipants policy \<noteq> Whole 2 \<or> \<not> isSafeInteger (maxSequenceGap policy) \<or>
         whole (maxSequenceGap policy) < 0 then Inl ''Invalid call policy.''
      else Inr ())"

section \<open>The state machine\<close>

fun call_transitions :: "call_state \<Rightarrow> (session_event \<times> call_state) list" where
  "call_transitions Idle = [(Invite, Inviting)]"
| "call_transitions Inviting = [(Invite, Ringing), (Accept, Accepted), (Reject, Rejected),
     (Cancel, Cancelled), (Expire, Expired), (Fail, Failed)]"
| "call_transitions Ringing = [(Accept, Accepted), (Reject, Rejected), (Cancel, Cancelled),
     (Expire, Expired), (Fail, Failed)]"
| "call_transitions Accepted = [(Connect, Connecting), (Cancel, Cancelled), (Expire, Expired), (Fail, Failed)]"
| "call_transitions Connecting = [(ConnectedEvent, Connected), (Cancel, Cancelled), (Expire, Expired), (Fail, Failed)]"
| "call_transitions Connected = [(Heartbeat, Connected), (Reconnect, Reconnecting), (End, Ended), (Fail, Failed)]"
| "call_transitions Reconnecting = [(Connect, Connecting), (End, Ended), (Fail, Failed)]"
| "call_transitions Ended = []"
| "call_transitions Rejected = []"
| "call_transitions Cancelled = []"
| "call_transitions Expired = []"
| "call_transitions Failed = []"

definition terminal_call :: "call_state \<Rightarrow> bool" where
  "terminal_call st \<longleftrightarrow> st \<in> {Ended, Rejected, Cancelled, Expired, Failed}"

definition invitationBound :: "call_state \<Rightarrow> bool" where
  "invitationBound st \<longleftrightarrow> st \<in> {Idle, Inviting, Ringing, Accepted, Connecting}"

fun call_state_name :: "call_state \<Rightarrow> string" where
  "call_state_name Idle = ''idle''"
| "call_state_name Inviting = ''inviting''"
| "call_state_name Ringing = ''ringing''"
| "call_state_name Accepted = ''accepted''"
| "call_state_name Connecting = ''connecting''"
| "call_state_name Connected = ''connected''"
| "call_state_name Reconnecting = ''reconnecting''"
| "call_state_name Ended = ''ended''"
| "call_state_name Rejected = ''rejected''"
| "call_state_name Cancelled = ''cancelled''"
| "call_state_name Expired = ''expired''"
| "call_state_name Failed = ''failed''"

fun event_name :: "session_event \<Rightarrow> string" where
  "event_name Invite = ''invite''"
| "event_name Accept = ''accept''"
| "event_name Reject = ''reject''"
| "event_name Cancel = ''cancel''"
| "event_name Connect = ''connect''"
| "event_name ConnectedEvent = ''connected''"
| "event_name Reconnect = ''reconnect''"
| "event_name End = ''end''"
| "event_name Expire = ''expire''"
| "event_name Fail = ''fail''"
| "event_name Heartbeat = ''heartbeat''"

definition invalid_transition :: "call_state \<Rightarrow> session_event \<Rightarrow> string" where
  "invalid_transition st ev =
     ''Invalid call transition: '' @ call_state_name st @ '' -> '' @ event_name ev @ ''.''"

definition transitionCall :: "live_session \<Rightarrow> session_event \<Rightarrow> int \<Rightarrow> call_policy \<Rightarrow> live_session outcome" where
  "transitionCall session ev now policy =
     (if ev = Heartbeat then
        Inr (if state session = Connected \<and> now - updatedAt session \<le> whole (heartbeatTimeoutMs policy)
             then session\<lparr>updatedAt := now\<rparr> else session)
      else if ev = Expire \<and> now < expiresAt session then Inl ''Call has not expired.''
      else if ev \<noteq> Expire \<and> invitationBound (state session) \<and> expiresAt session \<le> now
        then Inl ''Call has expired.''
      else if terminal_call (state session) then Inl (invalid_transition (state session) ev)
      else case map_of (call_transitions (state session)) ev of
        None \<Rightarrow> Inl (invalid_transition (state session) ev)
      | Some next_state \<Rightarrow> Inr (session\<lparr>state := next_state, updatedAt := now\<rparr>))"

section \<open>Repository and event processor\<close>

type_synonym call_repository = "string \<rightharpoonup> live_session"

definition save_call :: "call_repository \<Rightarrow> live_session \<Rightarrow> call_repository" where
  "save_call repository session = repository(callId session \<mapsto> session)"

definition get_call :: "call_repository \<Rightarrow> string \<Rightarrow> live_session option" where
  "get_call repository cid = repository cid"

definition delete_call :: "call_repository \<Rightarrow> string \<Rightarrow> call_repository" where
  "delete_call repository cid = repository(cid := None)"

definition process_call :: "call_repository \<Rightarrow> string \<Rightarrow> session_event \<Rightarrow> int \<Rightarrow>
    call_repository \<times> live_session outcome" where
  "process_call repository cid ev now =
     (case get_call repository cid of
        None \<Rightarrow> (repository, Inl ''Unknown call.'')
      | Some session \<Rightarrow>
          (case transitionCall session ev now DEFAULT_CALL_SECURITY_POLICY of
             Inl e \<Rightarrow> (repository, Inl e)
           | Inr updated \<Rightarrow> (save_call repository updated, Inr updated)))"

section \<open>Authorization\<close>

record call_identity =
  isParticipant :: "string \<Rightarrow> string \<Rightarrow> bool"
  getVerification :: "string \<Rightarrow> verification_state"
  bindingOf :: "string \<Rightarrow> call_participant \<times> call_participant \<Rightarrow> string"

definition assertParticipant :: "call_identity \<Rightarrow> live_session \<Rightarrow> call_participant \<Rightarrow> unit outcome" where
  "assertParticipant identity session participant =
     (if participantId (fst (participants session)) \<noteq> participantId participant \<and>
         participantId (snd (participants session)) \<noteq> participantId participant
        then Inl ''Unauthorized call participant.''
      else if \<not> isParticipant identity (conversationId session) (participantId participant)
        then Inl ''Unauthorized call participant.''
      else let v = getVerification identity (participantId participant) in
        if v = ChangedPendingReview then Inl ''Call identity requires review.''
        else if v \<noteq> Verified then Inl ''Verification required for calls.''
        else if v \<noteq> verification participant then Inl ''Call identity binding changed.''
        else Inr ())"

definition assertSession :: "call_identity \<Rightarrow> live_session \<Rightarrow> unit outcome" where
  "assertSession identity session =
     (if participantId (fst (participants session)) = participantId (snd (participants session))
        then Inl ''Invalid call participants.''
      else and_then (assertParticipant identity session (fst (participants session))) (\<lambda>_.
        assertParticipant identity session (snd (participants session))))"

text \<open>
  The verifier of the product: the members of the conversation, their stored
  verification, and the current verification where it is read anew (a failed
  read counts as unknown).
\<close>

definition verified_identity :: "(string \<Rightarrow> bool) \<Rightarrow> (string \<rightharpoonup> verification_state) \<Rightarrow>
    verification_state option option \<Rightarrow> (string \<Rightarrow> call_participant \<times> call_participant \<Rightarrow> string) \<Rightarrow>
    call_identity" where
  "verified_identity members verifications currentVerification binding =
     \<lparr>isParticipant = (\<lambda>_ p. members p),
      getVerification = (\<lambda>p. if \<not> members p then Unknown
        else case currentVerification of
          Some (Some v) \<Rightarrow> v
        | Some None \<Rightarrow> Unknown
        | None \<Rightarrow> (case verifications p of Some v \<Rightarrow> v | None \<Rightarrow> Unknown)),
      bindingOf = binding\<rparr>"

section \<open>The call service\<close>

definition invite_call :: "call_identity \<Rightarrow> call_repository \<Rightarrow> string \<Rightarrow> string \<Rightarrow>
    call_participant \<times> call_participant \<Rightarrow> string \<Rightarrow> call_media \<Rightarrow> int \<Rightarrow>
    call_repository \<times> live_session outcome" where
  "invite_call identity repository uuid conversation parties binding media now =
     (let session = \<lparr>callId = uuid, conversationId = conversation, participants = parties,
            mediaMode = media, state = Idle, createdAt = now, updatedAt = now,
            expiresAt = now + whole (invitationLifetimeMs DEFAULT_CALL_SECURITY_POLICY),
            identityBinding = binding\<rparr>
      in case assertSession identity session of
           Inl e \<Rightarrow> (repository, Inl e)
         | Inr _ \<Rightarrow> process_call (save_call repository session) uuid Invite now)"

definition receiveInvite :: "call_identity \<Rightarrow> call_repository \<Rightarrow> live_session \<Rightarrow> int \<Rightarrow>
    call_repository \<times> live_session outcome" where
  "receiveInvite identity repository session now =
     (if state session \<noteq> Inviting then (repository, Inl ''Invalid incoming call.'')
      else if get_call repository (callId session) \<noteq> None then (repository, Inl ''Call attempt already exists.'')
      else case assertSession identity session of
           Inl e \<Rightarrow> (repository, Inl e)
         | Inr _ \<Rightarrow> process_call (save_call repository session) (callId session) Invite now)"

text \<open>One request to the service, with the time it is served at.\<close>

datatype call_request =
    PlaceCall string string "call_participant \<times> call_participant" string call_media int
  | IncomingCall live_session int
  | CallEvent string session_event int

fun service_step :: "call_identity \<Rightarrow> call_repository \<Rightarrow> call_request \<Rightarrow>
    call_repository \<times> live_session outcome" where
  "service_step identity r (PlaceCall uuid conversation parties binding media now) =
     invite_call identity r uuid conversation parties binding media now"
| "service_step identity r (IncomingCall session now) = receiveInvite identity r session now"
| "service_step identity r (CallEvent cid ev now) = process_call r cid ev now"

section \<open>Capture permissions\<close>

datatype permission_state = PermUnknown | Requested | Granted | Active | Released | Denied

record call_permissions =
  microphone :: permission_state
  camera :: permission_state

datatype capture_device = Microphone | Camera

fun allowed_permissions :: "permission_state \<Rightarrow> permission_state list" where
  "allowed_permissions PermUnknown = [Requested]"
| "allowed_permissions Requested = [Granted, Denied]"
| "allowed_permissions Granted = [Active, Released]"
| "allowed_permissions Active = [Released]"
| "allowed_permissions Released = [Requested]"
| "allowed_permissions Denied = [Requested]"

fun transitionPermission :: "call_permissions \<Rightarrow> capture_device \<Rightarrow> permission_state \<Rightarrow>
    call_permissions outcome" where
  "transitionPermission ps Microphone next_state =
     (if next_state \<notin> set (allowed_permissions (microphone ps))
      then Inl ''Invalid microphone permission transition.''
      else Inr (ps\<lparr>microphone := next_state\<rparr>))"
| "transitionPermission ps Camera next_state =
     (if next_state \<notin> set (allowed_permissions (camera ps))
      then Inl ''Invalid camera permission transition.''
      else Inr (ps\<lparr>camera := next_state\<rparr>))"

definition initialCallPermissions :: call_permissions where
  "initialCallPermissions = \<lparr>microphone = PermUnknown, camera = PermUnknown\<rparr>"

section \<open>What an event does to a session\<close>

text \<open>The parts of a session that no event changes.\<close>

definition same_call :: "live_session \<Rightarrow> live_session \<Rightarrow> bool" where
  "same_call s t \<longleftrightarrow> t = s\<lparr>state := state t, updatedAt := updatedAt t\<rparr>"

lemma same_call_refl [simp]: "same_call s s"
  by (simp add: same_call_def)

lemma same_call_trans: "same_call s t \<Longrightarrow> same_call t u \<Longrightarrow> same_call s u"
  by (cases s, cases t, cases u) (auto simp: same_call_def)

lemma same_call_fields:
  assumes "same_call s t"
  shows "callId t = callId s" and "participants t = participants s"
    and "conversationId t = conversationId s" and "expiresAt t = expiresAt s"
  using assms by (cases s; cases t; simp add: same_call_def)+

lemma transition_same_call: "transitionCall s ev now policy = Inr t \<Longrightarrow> same_call s t"
  by (auto simp: transitionCall_def same_call_def split: if_splits option.splits)

lemma transition_of_terminal:
  "transitionCall s ev now policy = Inr t \<Longrightarrow> terminal_call (state s) \<Longrightarrow> t = s"
  by (auto simp: transitionCall_def terminal_call_def split: if_splits option.splits)

lemma process_call_elsewhere: "repo_cid \<noteq> cid \<Longrightarrow> r cid = Some s \<Longrightarrow> callId s = cid \<Longrightarrow>
    fst (process_call r cid ev now) repo_cid = r repo_cid"
  by (auto simp: process_call_def get_call_def save_call_def dest!: transition_same_call
      simp: same_call_fields split: sum.splits)

text \<open>Every session is stored under its own identifier.\<close>

definition repository_ok :: "call_repository \<Rightarrow> bool" where
  "repository_ok r \<longleftrightarrow> (\<forall>cid s. r cid = Some s \<longrightarrow> callId s = cid)"

lemma repository_ok_save: "repository_ok r \<Longrightarrow> repository_ok (save_call r s)"
  by (simp add: repository_ok_def save_call_def)

lemma repository_ok_process: "repository_ok r \<Longrightarrow> repository_ok (fst (process_call r cid ev now))"
  by (auto simp: process_call_def repository_ok_save split: option.splits sum.splits)

interpretation calls: invariant_machine "service_step identity" repository_ok for identity
proof
  fix r q
  assume "repository_ok r"
  then show "repository_ok (fst (service_step identity r q))"
    by (cases q) (auto simp: invite_call_def receiveInvite_def Let_def repository_ok_save
        repository_ok_process split: sum.splits)
qed

lemma process_keeps_call:
  assumes "repository_ok r" and "r cid = Some s"
  obtains t where "fst (process_call r other ev now) cid = Some t" and "same_call s t"
    and "terminal_call (state s) \<Longrightarrow> t = s"
proof (cases "fst (process_call r other ev now) cid = Some s")
  case True
  then show ?thesis using that by auto
next
  case False
  then obtain u t where u: "r other = Some u" and tr: "transitionCall u ev now DEFAULT_CALL_SECURITY_POLICY = Inr t"
    and "callId t = cid"
    using assms(2) by (auto simp: process_call_def get_call_def save_call_def split: option.splits sum.splits if_splits)
  then have "other = cid" using assms(1) transition_same_call [OF tr]
    by (auto simp: repository_ok_def same_call_fields)
  with u assms(2) have "u = s" by simp
  moreover have "fst (process_call r other ev now) cid = Some t"
    using u tr \<open>callId t = cid\<close> by (simp add: process_call_def get_call_def save_call_def)
  ultimately show ?thesis using that tr transition_same_call transition_of_terminal by blast
qed

text \<open>The identifiers under which calls were placed.\<close>

fun placed :: "call_request \<Rightarrow> string option" where
  "placed (PlaceCall uuid _ _ _ _ _) = Some uuid"
| "placed _ = None"

lemma step_keeps_call:
  assumes "repository_ok r" and "r cid = Some s" and "placed q \<noteq> Some cid"
  obtains t where "fst (service_step identity r q) cid = Some t" and "same_call s t"
    and "terminal_call (state s) \<Longrightarrow> t = s"
proof (cases q)
  case (PlaceCall uuid conversation parties binding media now)
  define u where "u = \<lparr>callId = uuid, conversationId = conversation, participants = parties,
    mediaMode = media, state = Idle, createdAt = now, updatedAt = now,
    expiresAt = now + whole (invitationLifetimeMs DEFAULT_CALL_SECURITY_POLICY), identityBinding = binding\<rparr>"
  have "callId u = uuid" by (simp add: u_def)
  then have kept: "(save_call r u) cid = Some s"
    using assms(2,3) PlaceCall by (auto simp: save_call_def)
  show ?thesis
  proof (cases "assertSession identity u")
    case (Inl e)
    then have "fst (service_step identity r q) = r"
      using PlaceCall by (simp add: invite_call_def Let_def u_def)
    then show ?thesis using that assms(2) by simp
  next
    case (Inr v)
    then have "service_step identity r q = process_call (save_call r u) uuid Invite now"
      using PlaceCall by (simp add: invite_call_def Let_def u_def)
    then show ?thesis
      using that process_keeps_call [OF repository_ok_save [OF assms(1)] kept] by metis
  qed
next
  case (IncomingCall session now)
  have kept: "(save_call r session) cid = Some s" if "get_call r (callId session) = None"
    using that assms(2) by (auto simp: save_call_def get_call_def)
  show ?thesis
  proof (cases "state session = Inviting \<and> get_call r (callId session) = None \<and> assertSession identity session = Inr ()")
    case True
    then have "service_step identity r q = process_call (save_call r session) (callId session) Invite now"
      using IncomingCall by (simp add: receiveInvite_def)
    then show ?thesis
      using that True process_keeps_call [OF repository_ok_save [OF assms(1)] kept] by metis
  next
    case False
    then have "fst (service_step identity r q) = r"
      using IncomingCall by (auto simp: receiveInvite_def split: sum.splits)
    then show ?thesis using that assms(2) by simp
  qed
next
  case (CallEvent other ev now)
  then show ?thesis using that process_keeps_call [OF assms(1,2)] by (metis service_step.simps(3))
qed

section \<open>What runs of events do\<close>

text \<open>
  C28. Whatever calls are placed and answered and whatever events arrive, a stored
  call keeps its parties, its conversation, its medium, its identity binding and
  its deadline, and a call that has finished never changes again (identifiers
  of placed calls are fresh).
\<close>

theorem finished_call_is_final:
  assumes "repository_ok r" and "r cid = Some s" and "\<forall>q \<in> set reqs. placed q \<noteq> Some cid"
  shows "\<exists>t. final (service_step identity) r reqs cid = Some t \<and> same_call s t \<and>
    (terminal_call (state s) \<longrightarrow> t = s)"
  using assms
proof (induction reqs arbitrary: r s)
  case (Cons q reqs)
  then obtain t where t: "fst (service_step identity r q) cid = Some t" "same_call s t"
    and fixed: "terminal_call (state s) \<Longrightarrow> t = s"
    using step_keeps_call [of r cid s q identity] by auto
  with Cons.IH [of "fst (service_step identity r q)" t] Cons.prems calls.step_inv
  obtain u where "final (service_step identity) (fst (service_step identity r q)) reqs cid = Some u"
    and "same_call t u" and "terminal_call (state t) \<longrightarrow> u = t"
    by auto
  with t fixed show ?case by (auto intro: same_call_trans)
qed simp

text \<open>
  The events of one call, with the times they are served at, and how many more
  of them a call can take once its deadline has passed.
\<close>

definition event_step :: "string \<Rightarrow> call_repository \<Rightarrow> session_event \<times> int \<Rightarrow> call_repository \<times> live_session outcome" where
  "event_step cid r e = process_call r cid (fst e) (snd e)"




text \<open>
  C33. An established call that loses its connection after the invitation deadline
  cannot come back: once the restart has led it through reconnecting to
  connecting, the connection report and every way to end the call are refused
  with \<open>Call has expired.\<close>, and the stored call is unchanged.
\<close>

theorem late_restart_is_refused:
  assumes "r cid = Some s" and "callId s = cid" and "state s = Connected"
    and "expiresAt s \<le> t1" and "expiresAt s \<le> t2" and "expiresAt s \<le> t3"
    and "ev \<noteq> Heartbeat" and "ev \<noteq> Expire"
  shows "event_step cid (final (event_step cid) r [(Reconnect, t1), (Connect, t2)]) (ev, t3) =
    (final (event_step cid) r [(Reconnect, t1), (Connect, t2)], Inl ''Call has expired.'')"
  using assms by (simp add: event_step_def process_call_def get_call_def save_call_def transitionCall_def
      invitationBound_def terminal_call_def)









section \<open>Examples\<close>

definition sample_party :: "string \<Rightarrow> call_participant" where
  "sample_party p = \<lparr>participantId = p, identityId = ''id-'' @ p, verification = Verified\<rparr>"

definition sample_call :: "call_state \<Rightarrow> live_session" where
  "sample_call st = \<lparr>callId = ''call'', conversationId = ''room'',
     participants = (sample_party ''a'', sample_party ''b''), mediaMode = Audio, state = st,
     createdAt = 0, updatedAt = 0, expiresAt = 60000, identityBinding = ''binding''\<rparr>"

theorem finished_call_is_final_witness:
  "\<exists>t. final (service_step (verified_identity (\<lambda>_. True) Map.empty None (\<lambda>_ _. [])))
      [''call'' \<mapsto> sample_call Ended]
      [CallEvent ''call'' Heartbeat 5, CallEvent ''call'' Fail 6,
       IncomingCall (sample_call Inviting) 7] ''call'' = Some t \<and> t = sample_call Ended"
proof -
  have "repository_ok [''call'' \<mapsto> sample_call Ended]"
    by (simp add: repository_ok_def sample_call_def)
  moreover have "terminal_call (state (sample_call Ended))"
    by (simp add: sample_call_def terminal_call_def)
  ultimately show ?thesis
    using finished_call_is_final [of "[''call'' \<mapsto> sample_call Ended]" "''call''" "sample_call Ended"
        "[CallEvent ''call'' Heartbeat 5, CallEvent ''call'' Fail 6, IncomingCall (sample_call Inviting) 7]"
        "verified_identity (\<lambda>_. True) Map.empty None (\<lambda>_ _. [])"]
    by simp
qed


theorem late_restart_is_refused_witness:
  "snd (event_step ''call'' (final (event_step ''call'') [''call'' \<mapsto> sample_call Connected]
     [(Reconnect, 70000), (Connect, 70001)]) (ConnectedEvent, 70002)) = Inl ''Call has expired.''"
  using late_restart_is_refused [of "[''call'' \<mapsto> sample_call Connected]" "''call''"
      "sample_call Connected" 70000 70001 70002 ConnectedEvent]
  by (simp add: sample_call_def)

end
