(* ===== verification/CallSignals.thy ===== *)
theory CallSignals
  imports Calls
begin

text \<open>
  Call signals (\<open>service/src/calls\<close>): the canonical form and digest of a signal
  (\<open>signalBinding.ts\<close>), the claims that stop replays (\<open>replayProtection.ts\<close>),
  the checks before sending and after decryption (\<open>signaling.ts\<close>), signals held
  for a receiver that is not attached yet (\<open>pendingSignals.ts\<close>) and the
  authenticated transport with its decoder (\<open>authenticatedTransport.ts\<close>).
  The theory shows that the digest binds every field of a signal, that what the
  transport passes on is bound to this conversation and its verified peer, and
  that no signal is delivered twice.

  SHA-256 is a parameter, and so is \<open>localeCompare\<close>, whose order depends on the
  locale of the runtime. \<open>sequence\<close>, \<open>timestamp\<close> and \<open>expiresAt\<close> are integers:
  the decoder admits only safe integers and the senders compute them from such.
  The sender stays the JSON object it was received as, because its digest covers
  the text of that object.
\<close>

section \<open>Signals\<close>

record call_signal =
  sigCallId :: string
  sigConversationId :: string
  sender :: jsval
  receiverIdentityId :: string
  sigMediaMode :: string
  nonce :: string
  event :: string
  kind :: jsval
  payload :: jsval
  sequence :: int
  timestamp :: int
  sigExpiresAt :: int
  sigIdentityBinding :: string
  payloadDigest :: string
  protocolVersion :: "int option"

text \<open>\<open>signal.kind ?? 'control'\<close>, and the fields of the sender.\<close>

definition or_nullish :: "jsval \<Rightarrow> jsval \<Rightarrow> jsval" where
  "or_nullish v w = (if v = VUndefined \<or> v = VNull then w else v)"

definition kind_of :: "call_signal \<Rightarrow> jsval" where
  "kind_of sig = or_nullish (kind sig) (VStr ''control'')"

definition sender_field :: "call_signal \<Rightarrow> string \<Rightarrow> string" where
  "sender_field sig k = str_of (get_prop (sender sig) k)"

fun verification_name :: "verification_state \<Rightarrow> string" where
  "verification_name Unknown = ''unknown''"
| "verification_name Unverified = ''unverified''"
| "verification_name Verified = ''verified''"
| "verification_name ChangedPendingReview = ''changed-pending-review''"

definition participant_value :: "call_participant \<Rightarrow> jsval" where
  "participant_value p =
     VObj [(''participantId'', VStr (participantId p)), (''identityId'', VStr (identityId p)),
       (''verification'', VStr (verification_name (verification p)))]"

section \<open>Canonical form and digest\<close>

datatype string_quoter = JavascriptQuote | AndroidJsonQuote

fun quote_with :: "string_quoter \<Rightarrow> string \<Rightarrow> string" where
  "quote_with JavascriptQuote s = quote s"
| "quote_with AndroidJsonQuote s = concat (map (\<lambda>c. if c = CHR ''/'' then [CHR 0x5C, CHR ''/''] else [c]) (quote s))"

definition join_with :: "string \<Rightarrow> string list \<Rightarrow> string" where
  "join_with sep ss = (case ss of [] \<Rightarrow> [] | s # r \<Rightarrow> s @ concat (map (\<lambda>t. sep @ t) r))"

text \<open>
  The keys are sorted by code units. A property that is \<open>undefined\<close> prints as
  that word, an \<open>undefined\<close> array element as nothing.
\<close>

fun stableJson :: "string \<Rightarrow> bool \<Rightarrow> string_quoter \<Rightarrow> jsval \<Rightarrow> string" where
  "stableJson sep sortKeys q (VStr s) = quote_with q s"
| "stableJson sep sortKeys q (VArr vs) =
     ''['' @ join_with sep (map (\<lambda>v. if v = VUndefined then [] else stableJson sep sortKeys q v) vs) @ '']''"
| "stableJson sep sortKeys q (VObj ps) =
     ''{'' @ join_with sep (map snd ((if sortKeys then sort_key fst else (\<lambda>x. x))
        (map (\<lambda>p. (fst p, quote_with q (fst p) @ '':'' @ stableJson sep sortKeys q (snd p))) ps))) @ ''}''"
| "stableJson sep sortKeys q VUndefined = ''undefined''"
| "stableJson sep sortKeys q v = stringify v"

definition canonical_signal :: "string \<Rightarrow> bool \<Rightarrow> string_quoter \<Rightarrow> call_signal \<Rightarrow> string" where
  "canonical_signal sep sortKeys q sig =
     (let sender_text = (if q = JavascriptQuote then stringify (sender sig)
            else stableJson '','' False q (sender sig));
          kind_text = (case kind_of sig of VStr s \<Rightarrow> quote_with q s | v \<Rightarrow> stringify v)
      in ''{'' @ quote ''callId'' @ '':'' @ quote_with q (sigCallId sig)
       @ '','' @ quote ''conversationId'' @ '':'' @ quote_with q (sigConversationId sig)
       @ '','' @ quote ''sender'' @ '':'' @ sender_text
       @ '','' @ quote ''receiverIdentityId'' @ '':'' @ quote_with q (receiverIdentityId sig)
       @ '','' @ quote ''mediaMode'' @ '':'' @ quote_with q (sigMediaMode sig)
       @ '','' @ quote ''nonce'' @ '':'' @ quote_with q (nonce sig)
       @ '','' @ quote ''event'' @ '':'' @ quote_with q (event sig)
       @ '','' @ quote ''kind'' @ '':'' @ kind_text
       @ '','' @ quote ''payload'' @ '':'' @ stableJson sep sortKeys q (or_nullish (payload sig) VNull)
       @ '','' @ quote ''sequence'' @ '':'' @ show_int (sequence sig)
       @ '','' @ quote ''timestamp'' @ '':'' @ show_int (timestamp sig)
       @ '','' @ quote ''expiresAt'' @ '':'' @ show_int (sigExpiresAt sig)
       @ '','' @ quote ''identityBinding'' @ '':'' @ quote_with q (sigIdentityBinding sig) @ ''}'')"

definition currentCanonical :: "string \<Rightarrow> bool \<Rightarrow> string_quoter \<Rightarrow> call_signal \<Rightarrow> string" where
  "currentCanonical sep sortKeys q sig =
     ''k3ncrypt:call-signal-digest:v2'' @ [CHR 0x00] @ ''{'' @ quote ''protocolVersion'' @ '':2,'' @
       tl (canonical_signal sep sortKeys q sig)"

definition digestInput :: "string \<Rightarrow> bool \<Rightarrow> string_quoter \<Rightarrow> call_signal \<Rightarrow> string outcome" where
  "digestInput sep sortKeys q sig =
     (if protocolVersion sig = Some 2 then Inr (currentCanonical sep sortKeys q sig)
      else if protocolVersion sig = None \<or> protocolVersion sig = Some 1
        then Inr (canonical_signal sep sortKeys q sig)
      else Inl ''Unsupported call signaling protocol version.'')"

definition legacySignalDigest :: "(u8 list \<Rightarrow> u8 list) \<Rightarrow> call_signal \<Rightarrow> string" where
  "legacySignalDigest sha sig = digest_hex sha (canonical_signal '','' True JavascriptQuote sig)"

definition signalDigest :: "(u8 list \<Rightarrow> u8 list) \<Rightarrow> call_signal \<Rightarrow> string outcome" where
  "signalDigest sha sig = map_sum id (digest_hex sha) (digestInput '','' True JavascriptQuote sig)"

definition verifySignalDigest :: "(u8 list \<Rightarrow> u8 list) \<Rightarrow> call_signal \<Rightarrow> bool" where
  "verifySignalDigest sha sig =
     (if protocolVersion sig \<notin> {None, Some 1, Some 2} then False
      else signalDigest sha sig = Inr (payloadDigest sig))"

definition verifyLegacySignalDigest :: "(u8 list \<Rightarrow> u8 list) \<Rightarrow> call_signal \<Rightarrow> bool" where
  "verifyLegacySignalDigest sha sig \<longleftrightarrow>
     protocolVersion sig = None \<and> payloadDigest sig = legacySignalDigest sha sig"

definition verifyCurrentSignalDigest :: "(u8 list \<Rightarrow> u8 list) \<Rightarrow> call_signal \<Rightarrow> bool" where
  "verifyCurrentSignalDigest sha sig \<longleftrightarrow>
     protocolVersion sig = Some 2 \<and> signalDigest sha sig = Inr (payloadDigest sig)"

text \<open>The binding of a call to its conversation and the identities of its two parties.\<close>

definition identity_binding :: "(u8 list \<Rightarrow> u8 list) \<Rightarrow> (string \<Rightarrow> string \<Rightarrow> int) \<Rightarrow> string \<Rightarrow>
    call_participant \<times> call_participant \<Rightarrow> string" where
  "identity_binding sha localeCompare conversation parties =
     (let (a, b) = parties;
          ordered = (if localeCompare (identityId a) (identityId b) > 0 then [b, a] else [a, b]);
          parts = map (\<lambda>p. participantId p @ '':'' @ identityId p) ordered
      in digest_hex sha (''k3ncrypt:call-binding:v1'' @ [CHR 0x00] @ conversation @ [CHR 0x00] @
           join_with ''|'' parts))"

section \<open>Replay claims\<close>

datatype replay_claim_result = ClaimAccepted | Duplicate | ClaimExpired | CapacityExceeded

definition REPLAY_ENTRIES :: nat where
  "REPLAY_ENTRIES = 4096"

type_synonym replay_entries = "(string \<times> int) list"

definition cleanup_claims :: "int \<Rightarrow> replay_entries \<Rightarrow> replay_entries" where
  "cleanup_claims now entries = filter (\<lambda>e. \<not> snd e \<le> now) entries"

definition claim_signal :: "nat \<Rightarrow> replay_entries \<Rightarrow> string \<Rightarrow> int \<Rightarrow> int \<Rightarrow>
    replay_entries \<times> replay_claim_result" where
  "claim_signal maxEntries entries key expires now =
     (let live = cleanup_claims now entries in
      if expires \<le> now then (live, ClaimExpired)
      else if map_of live key \<noteq> None then (live, Duplicate)
      else if maxEntries \<le> length live then (live, CapacityExceeded)
      else (live @ [(key, expires)], ClaimAccepted))"

text \<open>The deployment adapter's boundary: what it refuses before the atomic claim.\<close>

definition durable_claim :: "(string \<Rightarrow> int \<Rightarrow> int \<Rightarrow> replay_claim_result) \<Rightarrow> string \<Rightarrow> int \<Rightarrow> int \<Rightarrow>
    replay_claim_result" where
  "durable_claim atomicClaim key expires now = (if key = [] then ClaimExpired else atomicClaim key expires now)"

fun claim_name :: "replay_claim_result \<Rightarrow> string" where
  "claim_name ClaimAccepted = ''accepted''"
| "claim_name Duplicate = ''duplicate''"
| "claim_name ClaimExpired = ''expired''"
| "claim_name CapacityExceeded = ''capacity-exceeded''"

section \<open>Checks of a signal\<close>

text \<open>A string property with at least one character.\<close>

fun nonempty_text :: "jsval \<Rightarrow> bool" where
  "nonempty_text (VStr s) = (s \<noteq> [])"
| "nonempty_text _ = False"

definition control_events :: "string list" where
  "control_events = [''invite'', ''accept'', ''reject'', ''cancel'', ''end'', ''expire'', ''fail'']"

definition validSignalSemantics :: "call_signal \<Rightarrow> bool" where
  "validSignalSemantics sig =
     (let k = kind_of sig; v = payload sig; obj = is_plain_object v in
      if event sig \<in> set control_events then k = VStr ''control'' \<and> v = VUndefined
      else if event sig = ''connect'' \<or> event sig = ''reconnect'' then
        k = VStr ''offer'' \<and> obj \<and> get_prop v ''type'' = VStr ''offer'' \<and> nonempty_text (get_prop v ''sdp'')
      else if event sig = ''connected'' then
        (if k = VStr ''answer'' then
           obj \<and> get_prop v ''type'' = VStr ''answer'' \<and> nonempty_text (get_prop v ''sdp'')
         else k = VStr ''ice-candidate'' \<and> obj \<and> nonempty_text (get_prop v ''candidate''))
      else False)"

definition replayKey :: "call_signal \<Rightarrow> string" where
  "replayKey sig = stringify (VArr [VStr (sigConversationId sig), VStr (sigCallId sig),
     VStr (sender_field sig ''participantId''), VNum (Whole (sequence sig))])"

text \<open>The freshness of a signal: its life is at most a minute and it is not from the future.\<close>

definition fresh_signal :: "(u8 list \<Rightarrow> u8 list) \<Rightarrow> int \<Rightarrow> call_signal \<Rightarrow> bool" where
  "fresh_signal sha now sig \<longleftrightarrow>
     safe_int (timestamp sig) \<and> safe_int (sigExpiresAt sig) \<and> \<not> timestamp sig < 0 \<and>
     \<not> sigExpiresAt sig \<le> now \<and> \<not> sigExpiresAt sig \<le> timestamp sig \<and>
     \<not> sigExpiresAt sig - timestamp sig > CALL_SIGNAL_LIFETIME_MS \<and>
     \<not> timestamp sig > now + 30000 \<and> verifySignalDigest sha sig"

fun media_name :: "call_media \<Rightarrow> string" where
  "media_name Audio = ''audio''"
| "media_name Video = ''video''"

text \<open>
  \<open>send\<close> up to the transport and \<open>receive\<close> up to the listener: the claims
  afterwards, and the error or the signal that is passed on.
\<close>

definition claim_or_reject :: "replay_entries \<Rightarrow> call_signal \<Rightarrow> int \<Rightarrow> replay_entries \<times> call_signal outcome" where
  "claim_or_reject entries sig now =
     (let (entries', result) = claim_signal REPLAY_ENTRIES entries (replayKey sig) (sigExpiresAt sig) now in
      if result \<noteq> ClaimAccepted then (entries', Inl (''Call signal rejected: '' @ claim_name result @ ''.''))
      else (entries', Inr sig))"

definition signaling_send :: "(u8 list \<Rightarrow> u8 list) \<Rightarrow> call_identity \<Rightarrow> replay_entries \<Rightarrow> live_session \<Rightarrow>
    call_signal \<Rightarrow> int \<Rightarrow> replay_entries \<times> call_signal outcome" where
  "signaling_send sha identity entries session sig now =
     (if protocolVersion sig \<noteq> Some 2 \<or> \<not> validSignalSemantics sig \<or> sigCallId sig \<noteq> callId session \<or>
         sigConversationId sig \<noteq> conversationId session \<or> sigIdentityBinding sig \<noteq> identityBinding session \<or>
         sigMediaMode sig \<noteq> media_name (mediaMode session) \<or> nonce sig = [] \<or> receiverIdentityId sig = [] \<or>
         \<not> fresh_signal sha now sig
        then (entries, Inl ''Invalid call signal.'')
      else if \<not> isParticipant identity (conversationId session) (sender_field sig ''participantId'')
        then (entries, Inl ''Unauthorized call participant.'')
      else if getVerification identity (sender_field sig ''participantId'') \<noteq> Verified
        then (entries, Inl ''Verification required for calls.'')
      else if sender_field sig ''verification'' = ''changed-pending-review''
        then (entries, Inl ''Call identity requires review.'')
      else claim_or_reject entries sig now)"

definition signaling_receive :: "(u8 list \<Rightarrow> u8 list) \<Rightarrow> call_identity \<Rightarrow> replay_entries \<Rightarrow>
    call_signal \<Rightarrow> int \<Rightarrow> replay_entries \<times> call_signal outcome" where
  "signaling_receive sha identity entries sig now =
     (if protocolVersion sig \<noteq> Some 2 \<or> \<not> validSignalSemantics sig \<or> sigCallId sig = [] \<or>
         sigConversationId sig = [] \<or> nonce sig = [] \<or> receiverIdentityId sig = [] \<or>
         sigMediaMode sig \<notin> {''audio'', ''video''} \<or> \<not> fresh_signal sha now sig
        then (entries, Inl ''Invalid call signal.'')
      else if \<not> isParticipant identity (sigConversationId sig) (sender_field sig ''participantId'') \<or>
         getVerification identity (sender_field sig ''participantId'') \<noteq> Verified \<or>
         sender_field sig ''verification'' \<noteq> ''verified''
        then (entries, Inl ''Unauthorized call participant.'')
      else claim_or_reject entries sig now)"

section \<open>Signals held for a receiver\<close>

type_synonym held_signals = "(call_signal \<times> int) list"

definition PENDING_CALL_SIGNAL_WINDOW_MS :: int where
  "PENDING_CALL_SIGNAL_WINDOW_MS = 30000"

definition PENDING_SIGNALS_CAP :: nat where
  "PENDING_SIGNALS_CAP = 32"

definition hold_signal :: "held_signals \<Rightarrow> call_signal \<Rightarrow> int \<Rightarrow> held_signals" where
  "hold_signal items sig now =
     (let items1 = items @ [(sig, now)] in
      if PENDING_SIGNALS_CAP < length items1 then drop (length items1 - PENDING_SIGNALS_CAP) items1 else items1)"

text \<open>What is replayed to the receiver, in order; nothing stays held.\<close>

definition drain_signals :: "held_signals \<Rightarrow> int \<Rightarrow> held_signals \<times> call_signal list" where
  "drain_signals items now =
     ([], map fst (filter (\<lambda>item. now - PENDING_CALL_SIGNAL_WINDOW_MS \<le> snd item) items))"

definition clear_signals :: "held_signals \<Rightarrow> held_signals" where
  "clear_signals items = []"

section \<open>The authenticated transport\<close>

definition signal_fields :: "string list" where
  "signal_fields = [''protocolVersion'', ''callId'', ''conversationId'', ''sender'', ''receiverIdentityId'',
     ''mediaMode'', ''nonce'', ''event'', ''kind'', ''payload'', ''sequence'', ''timestamp'', ''expiresAt'',
     ''identityBinding'', ''payloadDigest'']"

definition signal_text_fields :: "string list" where
  "signal_text_fields = [''callId'', ''conversationId'', ''receiverIdentityId'', ''mediaMode'', ''nonce'',
     ''event'', ''identityBinding'', ''payloadDigest'']"

definition sender_fields :: "string list" where
  "sender_fields = [''participantId'', ''identityId'', ''verification'']"

fun is_text :: "jsval \<Rightarrow> bool" where
  "is_text (VStr s) = True"
| "is_text _ = False"

fun version_of :: "jsval \<Rightarrow> int option" where
  "version_of (VNum n) = Some (whole n)"
| "version_of _ = None"

definition signal_of :: "jsval \<Rightarrow> call_signal" where
  "signal_of v = \<lparr>sigCallId = str_of (get_prop v ''callId''),
     sigConversationId = str_of (get_prop v ''conversationId''), sender = get_prop v ''sender'',
     receiverIdentityId = str_of (get_prop v ''receiverIdentityId''),
     sigMediaMode = str_of (get_prop v ''mediaMode''), nonce = str_of (get_prop v ''nonce''),
     event = str_of (get_prop v ''event''), kind = get_prop v ''kind'', payload = get_prop v ''payload'',
     sequence = num_of (get_prop v ''sequence''), timestamp = num_of (get_prop v ''timestamp''),
     sigExpiresAt = num_of (get_prop v ''expiresAt''),
     sigIdentityBinding = str_of (get_prop v ''identityBinding''),
     payloadDigest = str_of (get_prop v ''payloadDigest''),
     protocolVersion = version_of (get_prop v ''protocolVersion'')\<rparr>"

text \<open>\<open>decode\<close>, on the value that \<open>JSON.parse\<close> returned.\<close>

definition decode_signal :: "jsval \<Rightarrow> call_signal outcome" where
  "decode_signal v =
     (let version = get_prop v ''protocolVersion'';
          unsupported = (version \<noteq> VUndefined \<and> version \<noteq> VNum (Whole 2));
          from = get_prop v ''sender'' in
      if \<not> is_plain_object v then Inl ''invalid_call_signal''
      else if version \<noteq> VUndefined \<and> \<not> is_safe_num version then Inl ''invalid_call_signal_version''
      else if \<not> unsupported \<and> \<not> list_all (\<lambda>k. k \<in> set signal_fields) (object_keys v)
        then Inl ''unknown_call_signal_field''
      else if \<not> list_all (\<lambda>k. is_text (get_prop v k)) signal_text_fields then Inl ''invalid_call_signal_field''
      else if \<not> list_all (\<lambda>k. is_safe_num (get_prop v k)) [''sequence'', ''timestamp'', ''expiresAt'']
        then Inl ''invalid_call_signal_field''
      else if \<not> is_plain_object from then Inl ''invalid_call_signal_sender''
      else if \<not> unsupported \<and> \<not> list_all (\<lambda>k. k \<in> set sender_fields) (object_keys from)
        then Inl ''unknown_call_signal_sender_field''
      else if \<not> list_all (\<lambda>k. is_text (get_prop from k)) sender_fields then Inl ''invalid_call_signal_sender''
      else Inr (signal_of v))"

record call_endpoint =
  roomId :: string
  localIdentityId :: string
  remoteParticipant :: call_participant
  localParticipantId :: string

text \<open>The attached listener (whether it accepts a signal) and the signals held for one.\<close>

record call_transport =
  listener :: "(call_signal \<Rightarrow> bool) option"
  pending :: held_signals

datatype transport_result = ProtocolIssue string int | Held call_signal | Delivered call_signal

definition ORIGIN_REJECTED :: string where
  "ORIGIN_REJECTED = ''Call signal origin rejected.''"

definition transport_send :: "(u8 list \<Rightarrow> u8 list) \<Rightarrow> call_identity \<Rightarrow> call_endpoint \<Rightarrow> call_signal \<Rightarrow>
    call_signal outcome" where
  "transport_send sha identity ep sig =
     (if sigConversationId sig \<noteq> roomId ep \<or> sender_field sig ''identityId'' \<noteq> localIdentityId ep \<or>
         receiverIdentityId sig = [] \<or> nonce sig = [] then Inl ORIGIN_REJECTED
      else if protocolVersion sig \<noteq> Some 2 then Inl ''Call protocol version rejected.''
      else if \<not> isParticipant identity (roomId ep) (sender_field sig ''participantId'') \<or>
         sender_field sig ''verification'' \<noteq> ''verified'' then Inl ORIGIN_REJECTED
      else if \<not> verifyCurrentSignalDigest sha sig then Inl ''Call signal integrity rejected.''
      else Inr sig)"

definition expected_binding :: "call_identity \<Rightarrow> call_endpoint \<Rightarrow> string" where
  "expected_binding identity ep = bindingOf identity (roomId ep)
     (\<lparr>participantId = localParticipantId ep, identityId = localIdentityId ep, verification = Verified\<rparr>,
      \<lparr>participantId = participantId (remoteParticipant ep), identityId = identityId (remoteParticipant ep),
       verification = Verified\<rparr>)"

text \<open>Lines 76 to 90: where the signal comes from and whom it is for.\<close>

definition check_origin :: "call_identity \<Rightarrow> call_endpoint \<Rightarrow> call_signal \<Rightarrow> int \<Rightarrow> unit outcome" where
  "check_origin identity ep sig now =
     (if sigConversationId sig \<noteq> roomId ep \<or>
         sender_field sig ''identityId'' \<noteq> identityId (remoteParticipant ep) \<or>
         receiverIdentityId sig \<noteq> localIdentityId ep \<or> nonce sig = [] \<or>
         sender_field sig ''verification'' \<noteq> ''verified'' \<or>
         sender_field sig ''participantId'' \<noteq> participantId (remoteParticipant ep) \<or>
         \<not> isParticipant identity (roomId ep) (sender_field sig ''participantId'')
        then Inl ORIGIN_REJECTED
      else if getVerification identity (sender_field sig ''participantId'') \<noteq> Verified
        then Inl ''Verification required for calls.''
      else if sigIdentityBinding sig \<noteq> expected_binding identity ep
        then Inl ''Call signal identity binding rejected.''
      else if \<not> safe_int (timestamp sig) \<or> timestamp sig < 0 \<or> timestamp sig > now + 30000 \<or>
         \<not> safe_int (sigExpiresAt sig) \<or> \<not> safe_int (sequence sig) \<or> sequence sig < 1
        then Inl ORIGIN_REJECTED
      else Inr ())"

text \<open>Lines 91 to 101: a signal of another protocol version gives at most a notice.\<close>

definition other_version :: "(u8 list \<Rightarrow> u8 list) \<Rightarrow> call_signal \<Rightarrow> int \<Rightarrow> transport_result outcome" where
  "other_version sha sig now =
     (let notice = Inr (ProtocolIssue (sigCallId sig) (case protocolVersion sig of Some n \<Rightarrow> n | None \<Rightarrow> 1)) in
      case protocolVersion sig of
        None \<Rightarrow>
          if sigExpiresAt sig \<le> now \<or> sigExpiresAt sig \<le> timestamp sig \<or> \<not> verifyLegacySignalDigest sha sig
          then Inl ''Call signal integrity rejected.'' else notice
      | Some _ \<Rightarrow>
          if timestamp sig < now - CALL_SIGNAL_LIFETIME_MS then Inl ''Call signal is stale.''
          else if verifyCurrentSignalDigest sha (sig\<lparr>protocolVersion := Some 2\<rparr>)
            then Inl ''Call signal protocol version was altered.''
          else notice)"

definition receivePlaintext :: "(u8 list \<Rightarrow> u8 list) \<Rightarrow> call_identity \<Rightarrow> call_endpoint \<Rightarrow> call_transport \<Rightarrow>
    jsval \<Rightarrow> int \<Rightarrow> call_transport \<times> transport_result outcome" where
  "receivePlaintext sha identity ep tr v now =
     (case decode_signal v of
        Inl _ \<Rightarrow> (tr, Inl ORIGIN_REJECTED)
      | Inr sig \<Rightarrow>
         (case check_origin identity ep sig now of
            Inl e \<Rightarrow> (tr, Inl e)
          | Inr _ \<Rightarrow>
              if protocolVersion sig \<noteq> Some 2 then (tr, other_version sha sig now)
              else if \<not> verifyCurrentSignalDigest sha sig then (tr, Inl ORIGIN_REJECTED)
              else case listener tr of
                None \<Rightarrow> (tr\<lparr>pending := hold_signal (pending tr) sig now\<rparr>, Inr (Held sig))
              | Some accepts \<Rightarrow>
                  (tr, if accepts sig then Inr (Delivered sig) else Inl ''Call signal handler rejected.'')))"

definition onSignal :: "call_transport \<Rightarrow> (call_signal \<Rightarrow> bool) \<Rightarrow> int \<Rightarrow> call_transport \<times> call_signal list" where
  "onSignal tr accepts now =
     (let (rest, replayed) = drain_signals (pending tr) now in
      (tr\<lparr>listener := Some accepts, pending := rest\<rparr>, replayed))"

definition detach :: "call_transport \<Rightarrow> call_transport" where
  "detach tr = tr\<lparr>listener := None\<rparr>"

section \<open>The digest binds the signal\<close>

text \<open>A value with the properties of every object in key order, and the text of a signal as one value.\<close>

fun canonical_value :: "jsval \<Rightarrow> jsval" where
  "canonical_value (VArr vs) = VArr (map canonical_value vs)"
| "canonical_value (VObj ps) = VObj (sort_key fst (map (\<lambda>p. (fst p, canonical_value (snd p))) ps))"
| "canonical_value v = v"

definition signal_value :: "call_signal \<Rightarrow> jsval" where
  "signal_value sig = VObj [(''callId'', VStr (sigCallId sig)),
     (''conversationId'', VStr (sigConversationId sig)), (''sender'', sender sig),
     (''receiverIdentityId'', VStr (receiverIdentityId sig)), (''mediaMode'', VStr (sigMediaMode sig)),
     (''nonce'', VStr (nonce sig)), (''event'', VStr (event sig)), (''kind'', kind_of sig),
     (''payload'', canonical_value (or_nullish (payload sig) VNull)), (''sequence'', VNum (Whole (sequence sig))),
     (''timestamp'', VNum (Whole (timestamp sig))), (''expiresAt'', VNum (Whole (sigExpiresAt sig))),
     (''identityBinding'', VStr (sigIdentityBinding sig))]"

definition signal_json :: "call_signal \<Rightarrow> bool" where
  "signal_json sig \<longleftrightarrow> json_ok (sender sig) \<and> json_ok (kind_of sig) \<and> json_ok (or_nullish (payload sig) VNull)"

lemma join_with_comma: "join_with '','' ss = join ss"
proof -
  have comma: "(\<lambda>t. '','' @ t) = (\<lambda>t. CHR '','' # t)" by simp
  show ?thesis by (simp only: join_with_def join_def comma)
qed

lemma insort_key_map: "insort_key f (h x) (map h xs) = map h (insort_key (f \<circ> h) x xs)"
  by (induction xs) simp_all

lemma sort_key_map: "sort_key f (map h xs) = map h (sort_key (f \<circ> h) xs)"
  by (induction xs) (simp_all add: insort_key_map [unfolded comp_def] comp_def)

lemma json_ok_defined: "json_ok v \<Longrightarrow> v \<noteq> VUndefined"
  by auto

lemma canonical_value_ok: "json_ok v \<Longrightarrow> json_ok (canonical_value v)"
  by (induction v rule: canonical_value.induct) (auto simp: list_all_iff)

lemma stableJson_canonical:
  "json_ok v \<Longrightarrow> stableJson '','' True JavascriptQuote v = stringify (canonical_value v)"
proof (induction v rule: canonical_value.induct)
  case (1 vs)
  then have "map (\<lambda>v. if v = VUndefined then [] else stableJson '','' True JavascriptQuote v) vs
      = map (stringify \<circ> canonical_value) vs"
    by (auto simp: list_all_iff dest: json_ok_defined)
  then show ?case by (simp only: stableJson.simps canonical_value.simps stringify.simps join_with_comma map_map) simp
next
  case (2 ps)
  let ?c = "\<lambda>p. (fst p, canonical_value (snd p))"
  let ?t = "\<lambda>p. (fst p, quote (fst p) @ '':'' @ stringify (canonical_value (snd p)))"
  have "json_ok (VObj (sort_key fst (map ?c ps)))"
    using canonical_value_ok [OF 2(2)] by simp
  moreover have "map (\<lambda>p. (fst p, quote_with JavascriptQuote (fst p) @ '':'' @ stableJson '','' True JavascriptQuote (snd p))) ps
      = map ?t ps"
    using 2 by (auto simp: list_all_iff)
  ultimately show ?case
    by (simp only: stableJson.simps canonical_value.simps stringify_obj join_with_comma if_True)
      (simp add: sort_key_map comp_def)
qed simp_all

lemma canonical_signal_value:
  assumes "signal_json sig"
  shows "canonical_signal '','' True JavascriptQuote sig = stringify (signal_value sig)"
proof -
  have ok: "json_ok (signal_value sig)"
    using assms canonical_value_ok by (simp add: signal_json_def signal_value_def)
  have kind: "(case kind_of sig of VStr s \<Rightarrow> quote_with JavascriptQuote s | v \<Rightarrow> stringify v) = stringify (kind_of sig)"
    by (cases "kind_of sig") simp_all
  show ?thesis
    using ok unfolding signal_value_def
    by (subst stringify_obj)
      (simp_all add: canonical_signal_def Let_def kind [simplified] stableJson_canonical assms [unfolded signal_json_def] join_def
        del: stringify.simps(8))
qed

lemma signal_value_ok: "signal_json sig \<Longrightarrow> json_ok (signal_value sig)"
  using canonical_value_ok by (simp add: signal_json_def signal_value_def)

lemma currentCanonical_inj:
  assumes "currentCanonical '','' True JavascriptQuote a = currentCanonical '','' True JavascriptQuote b"
    and "signal_json a" and "signal_json b"
  shows "signal_value a = signal_value b"
proof -
  have "tl (stringify (signal_value a)) = tl (stringify (signal_value b))"
    using assms by (simp add: currentCanonical_def canonical_signal_value)
  then have "stringify (signal_value a) = stringify (signal_value b)"
    by (simp add: signal_value_def)
  then show ?thesis
    using stringify_inj signal_value_ok assms(2,3) by blast
qed

text \<open>
  C12. Two signals of the current version that verify under the same digest agree
  in every field (call, conversation, sender, receiver, medium, nonce, event,
  kind, payload up to the order of its properties, sequence, times and
  binding), or two different texts with the same SHA-256 value are known.
\<close>

theorem signal_digest_binds:
  assumes "verifyCurrentSignalDigest sha a" and "verifyCurrentSignalDigest sha b"
    and "payloadDigest a = payloadDigest b" and "signal_json a" and "signal_json b"
  shows "signal_value a = signal_value b \<or> (\<exists>x y. x \<noteq> y \<and> sha x = sha y)"
proof (cases "currentCanonical '','' True JavascriptQuote a = currentCanonical '','' True JavascriptQuote b")
  case True
  then show ?thesis using currentCanonical_inj assms(4,5) by blast
next
  case False
  have "digest_hex sha (currentCanonical '','' True JavascriptQuote a)
      = digest_hex sha (currentCanonical '','' True JavascriptQuote b)"
    using assms(1-3) by (auto simp: verifyCurrentSignalDigest_def signalDigest_def digestInput_def)
  then show ?thesis using digest_hex_binds False by metis
qed

section \<open>What the transport passes on\<close>

text \<open>
  A current signal from the verified peer of this conversation, addressed to
  this device, with the binding of the two identities and an intact digest.
\<close>

definition bound_signal :: "(u8 list \<Rightarrow> u8 list) \<Rightarrow> call_identity \<Rightarrow> call_endpoint \<Rightarrow> int \<Rightarrow> call_signal \<Rightarrow> bool" where
  "bound_signal sha identity ep now sig \<longleftrightarrow>
     protocolVersion sig = Some 2 \<and> sigConversationId sig = roomId ep \<and>
     sender_field sig ''identityId'' = identityId (remoteParticipant ep) \<and>
     sender_field sig ''participantId'' = participantId (remoteParticipant ep) \<and>
     receiverIdentityId sig = localIdentityId ep \<and>
     isParticipant identity (roomId ep) (participantId (remoteParticipant ep)) \<and>
     getVerification identity (participantId (remoteParticipant ep)) = Verified \<and>
     sigIdentityBinding sig = expected_binding identity ep \<and>
     verifyCurrentSignalDigest sha sig \<and> 1 \<le> sequence sig \<and> timestamp sig \<le> now + 30000"

lemma check_origin_bound:
  "check_origin identity ep sig now = Inr u \<Longrightarrow> protocolVersion sig = Some 2 \<Longrightarrow>
    verifyCurrentSignalDigest sha sig \<Longrightarrow> bound_signal sha identity ep now sig"
  by (auto simp: check_origin_def bound_signal_def split: if_splits)

text \<open>
  C9. What the call transport passes to its listener, or holds for one, is a
  current signal from the verified peer of this conversation to this device,
  bound to both identities and intact under its digest.
\<close>

theorem transport_passes_bound_signals:
  assumes "receivePlaintext sha identity ep tr v now = (tr', Inr passed)"
    and "passed = Delivered sig \<or> passed = Held sig"
  shows "bound_signal sha identity ep now sig"
proof -
  obtain s where s: "decode_signal v = Inr s"
    using assms(1) by (cases "decode_signal v") (auto simp: receivePlaintext_def)
  obtain u where u: "check_origin identity ep s now = Inr u"
    using assms(1) s by (cases "check_origin identity ep s now") (auto simp: receivePlaintext_def)
  have "protocolVersion s = Some 2"
    using assms s u by (auto simp: receivePlaintext_def other_version_def Let_def split: if_splits option.splits)
  moreover from this have "verifyCurrentSignalDigest sha s" and "s = sig"
    using assms s u by (auto simp: receivePlaintext_def split: if_splits option.splits)
  ultimately show ?thesis using check_origin_bound [OF u] by simp
qed

text \<open>
  Only a listener moves signals out of the transport, and at most the newest
  signals up to the cap wait for one.
\<close>

lemma hold_signal_bounded: "length (hold_signal items sig now) \<le> max (length items) PENDING_SIGNALS_CAP"
  by (auto simp: hold_signal_def Let_def PENDING_SIGNALS_CAP_def)

lemma hold_signal_newest: "last (hold_signal items sig now) = (sig, now)"
  by (simp add: hold_signal_def Let_def PENDING_SIGNALS_CAP_def)

datatype transport_event = Arrives jsval int | Attach "call_signal \<Rightarrow> bool" int | Detach

fun transport_step :: "(u8 list \<Rightarrow> u8 list) \<Rightarrow> call_identity \<Rightarrow> call_endpoint \<Rightarrow> call_transport \<Rightarrow>
    transport_event \<Rightarrow> call_transport \<times> call_signal list" where
  "transport_step sha identity ep tr (Arrives v now) =
     (case receivePlaintext sha identity ep tr v now of
        (tr', Inr (Delivered sig)) \<Rightarrow> (tr', [sig])
      | (tr', _) \<Rightarrow> (tr', []))"
| "transport_step sha identity ep tr (Attach accepts now) = onSignal tr accepts now"
| "transport_step sha identity ep tr Detach = (detach tr, [])"

text \<open>Every signal that waits is bound, at the time it arrived, and they are at most 32.\<close>

definition transport_ok :: "(u8 list \<Rightarrow> u8 list) \<Rightarrow> call_identity \<Rightarrow> call_endpoint \<Rightarrow> call_transport \<Rightarrow> bool" where
  "transport_ok sha identity ep tr \<longleftrightarrow> length (pending tr) \<le> PENDING_SIGNALS_CAP \<and>
     list_all (\<lambda>(sig, at). bound_signal sha identity ep at sig) (pending tr)"

lemma hold_signal_all:
  "list_all P items \<Longrightarrow> P (sig, now) \<Longrightarrow> list_all P (hold_signal items sig now)"
  by (auto simp: hold_signal_def Let_def list_all_iff dest!: in_set_dropD)

lemma receivePlaintext_pending:
  assumes "receivePlaintext sha identity ep tr v now = (tr', out)"
  obtains "pending tr' = pending tr"
  | sig where "out = Inr (Held sig)" and "pending tr' = hold_signal (pending tr) sig now"
  using assms by (fastforce simp: receivePlaintext_def split: sum.splits if_splits option.splits)

lemma receivePlaintext_ok:
  assumes "transport_ok sha identity ep tr" and "receivePlaintext sha identity ep tr v now = (tr', out)"
  shows "transport_ok sha identity ep tr'"
  using assms(2)
proof (cases rule: receivePlaintext_pending)
  case 1
  with assms(1) show ?thesis by (simp add: transport_ok_def)
next
  case (2 sig)
  have held: "receivePlaintext sha identity ep tr v now = (tr', Inr (Held sig))"
    using assms(2) 2(1) by simp
  have "\<exists>s. bound_signal sha identity ep now s \<and> s = sig"
    using check_origin_bound held
    by (auto simp: receivePlaintext_def other_version_def Let_def split: sum.splits if_splits option.splits)
  then show ?thesis
    using assms(1) 2(2) hold_signal_bounded [of "pending tr" sig now]
    by (auto simp: transport_ok_def intro!: hold_signal_all)
qed

interpretation signals: invariant_machine "transport_step sha identity ep" "transport_ok sha identity ep"
  for sha identity ep
proof
  fix tr e
  assume ok: "transport_ok sha identity ep tr"
  show "transport_ok sha identity ep (fst (transport_step sha identity ep tr e))"
  proof (cases e)
    case (Arrives v now)
    obtain tr' out where "receivePlaintext sha identity ep tr v now = (tr', out)" by (rule prod.exhaust)
    with Arrives receivePlaintext_ok [OF ok this] show ?thesis
      by (simp split: sum.split transport_result.split)
  next
    case (Attach accepts now)
    then show ?thesis by (simp add: onSignal_def drain_signals_def transport_ok_def)
  next
    case Detach
    then show ?thesis using ok by (simp add: detach_def transport_ok_def)
  qed
qed

section \<open>No signal is delivered twice\<close>

definition receive_step :: "(u8 list \<Rightarrow> u8 list) \<Rightarrow> call_identity \<Rightarrow> replay_entries \<Rightarrow> call_signal \<times> int \<Rightarrow>
    replay_entries \<times> call_signal outcome" where
  "receive_step sha identity entries e = signaling_receive sha identity entries (fst e) (snd e)"

lemma accepted_claim:
  assumes "claim_or_reject entries sig now = (entries', Inr sig')"
  shows "now < sigExpiresAt sig" and "(replayKey sig, sigExpiresAt sig) \<in> set entries'"
    and "\<forall>e. (replayKey sig, e) \<in> set entries \<longrightarrow> e \<le> now"
  using assms
  by (force simp: claim_or_reject_def claim_signal_def cleanup_claims_def Let_def map_of_eq_None_iff split: if_splits)+

lemma claim_kept: "(key, e) \<in> set entries \<Longrightarrow> now < e \<Longrightarrow>
    (key, e) \<in> set (fst (claim_or_reject entries sig now))"
  by (auto simp: claim_or_reject_def claim_signal_def cleanup_claims_def Let_def)

lemma receive_step_accepted:
  "snd (receive_step sha identity entries e) = Inr sig \<Longrightarrow>
    claim_or_reject entries (fst e) (snd e) = (fst (receive_step sha identity entries e), Inr sig)"
  by (auto simp: receive_step_def signaling_receive_def prod_eq_iff split: if_splits)

lemma receive_step_kept: "(key, e) \<in> set entries \<Longrightarrow> snd ev < e \<Longrightarrow>
    (key, e) \<in> set (fst (receive_step sha identity entries ev))"
  by (simp add: receive_step_def signaling_receive_def claim_kept)

lemma claimed_key_is_rejected:
  assumes "(key, e) \<in> set entries" and "sorted (map snd es)" and "j < length es"
    and "snd (es ! j) < e" and "replayKey (fst (es ! j)) = key"
  shows "isl (outputs (receive_step sha identity) entries es ! j)"
  using assms
proof (induction es arbitrary: entries j)
  case (Cons x es)
  show ?case
  proof (cases j)
    case 0
    have "isl (snd (receive_step sha identity entries x))"
    proof (cases "snd (receive_step sha identity entries x)")
      case (Inr sig)
      from accepted_claim(3) [OF receive_step_accepted [OF Inr]] Cons.prems 0 show ?thesis by auto
    qed simp
    then show ?thesis using 0 by simp
  next
    case (Suc k)
    then have "snd x \<le> snd (es ! k)" using Cons.prems by simp
    moreover have "snd (es ! k) < e" using Cons.prems(4) Suc by simp
    ultimately have "snd x < e" by (rule order.strict_trans1)
    with Cons.prems(1) have "(key, e) \<in> set (fst (receive_step sha identity entries x))"
      by (rule receive_step_kept)
    then have "isl (outputs (receive_step sha identity) (fst (receive_step sha identity entries x)) es ! k)"
      using Cons.prems Suc by (intro Cons.IH) auto
    then show ?thesis using Suc by simp
  qed
qed simp

lemma accepted_is_live:
  assumes "j < length es" and "\<not> isl (outputs (receive_step sha identity) entries es ! j)"
  shows "snd (es ! j) < sigExpiresAt (fst (es ! j))"
  using assms
proof (induction es arbitrary: entries j)
  case (Cons x es)
  show ?case
  proof (cases j)
    case 0
    then obtain sig where "snd (receive_step sha identity entries x) = Inr sig"
      using Cons.prems by (cases "snd (receive_step sha identity entries x)") auto
    then have "claim_or_reject entries (fst x) (snd x) = (fst (receive_step sha identity entries x), Inr sig)"
      by (rule receive_step_accepted)
    then show ?thesis using accepted_claim(1) 0 by simp
  next
    case (Suc k)
    then show ?thesis using Cons.IH [of k] Cons.prems by simp
  qed
qed simp

text \<open>
  C6. While the clock does not go back, no call signal passes the receiver
  twice, however often and in whatever order signals arrive: of two accepted
  arrivals the signals differ.
\<close>

theorem signal_is_received_once:
  assumes "sorted (map snd es)" and "i < j" and "j < length es"
    and "\<not> isl (outputs (receive_step sha identity) entries es ! i)"
    and "\<not> isl (outputs (receive_step sha identity) entries es ! j)"
  shows "fst (es ! i) \<noteq> fst (es ! j)"
  using assms
proof (induction es arbitrary: entries i j)
  case (Cons x es)
  from Cons.prems obtain k where j: "j = Suc k" by (cases j) auto
  show ?case
  proof (cases i)
    case 0
    obtain sig where "snd (receive_step sha identity entries x) = Inr sig"
      using Cons.prems(4) 0 by (cases "snd (receive_step sha identity entries x)") auto
    then have claim: "claim_or_reject entries (fst x) (snd x) = (fst (receive_step sha identity entries x), Inr sig)"
      by (rule receive_step_accepted)
    have "snd (es ! k) < sigExpiresAt (fst (es ! k))"
      using Cons.prems j by (intro accepted_is_live [where sha = sha and identity = identity
            and entries = "fst (receive_step sha identity entries x)"]) auto
    then have "fst x \<noteq> fst (es ! k)"
      using claimed_key_is_rejected [OF accepted_claim(2) [OF claim], of es k sha identity] Cons.prems j
      by auto
    then show ?thesis using 0 j by simp
  next
    case (Suc m)
    then show ?thesis using Cons.IH [of m k "fst (receive_step sha identity entries x)"] Cons.prems j by simp
  qed
qed simp

section \<open>Examples\<close>

definition sample_members :: call_identity where
  "sample_members = verified_identity (\<lambda>p. p \<in> {''a'', ''b''}) [''a'' \<mapsto> Verified, ''b'' \<mapsto> Verified] None
     (\<lambda>_ _. ''binding'')"

definition sample_endpoint :: call_endpoint where
  "sample_endpoint = \<lparr>roomId = ''room'', localIdentityId = ''id-a'', remoteParticipant = sample_party ''b'',
     localParticipantId = ''a''\<rparr>"

definition sample_signal :: "string \<Rightarrow> jsval \<Rightarrow> int \<Rightarrow> call_signal" where
  "sample_signal digest body n = \<lparr>sigCallId = ''call'', sigConversationId = ''room'',
     sender = participant_value (sample_party ''b''), receiverIdentityId = ''id-a'', sigMediaMode = ''audio'',
     nonce = ''n'', event = (if body = VUndefined then ''end'' else ''connect''),
     kind = VStr (if body = VUndefined then ''control'' else ''offer''), payload = body, sequence = n,
     timestamp = 1000, sigExpiresAt = 61000, sigIdentityBinding = ''binding'', payloadDigest = digest,
     protocolVersion = Some 2\<rparr>"

definition sample_wire :: jsval where
  "sample_wire = VObj [(''protocolVersion'', VNum (Whole 2)), (''callId'', VStr ''call''),
     (''conversationId'', VStr ''room''), (''sender'', participant_value (sample_party ''b'')),
     (''receiverIdentityId'', VStr ''id-a''), (''mediaMode'', VStr ''audio''), (''nonce'', VStr ''n''),
     (''event'', VStr ''end''), (''kind'', VStr ''control''), (''sequence'', VNum (Whole 1)),
     (''timestamp'', VNum (Whole 1000)), (''expiresAt'', VNum (Whole 61000)),
     (''identityBinding'', VStr ''binding''), (''payloadDigest'', VStr [])]"

lemmas sample_simps = sample_members_def sample_endpoint_def sample_signal_def sample_wire_def
  verified_identity_def participant_value_def sample_party_def sender_field_def

lemma sample_digest: "verifyCurrentSignalDigest (\<lambda>_. []) sig \<longleftrightarrow> protocolVersion sig = Some 2 \<and> payloadDigest sig = []"
  by (auto simp: verifyCurrentSignalDigest_def signalDigest_def digestInput_def digest_hex_def)

lemma sample_decoded: "decode_signal sample_wire = Inr (sample_signal [] VUndefined 1)"
  by (simp add: decode_signal_def signal_of_def sample_simps signal_fields_def signal_text_fields_def
      sender_fields_def safe_int_def MAX_SAFE_INTEGER_def)

theorem transport_passes_bound_signals_witness:
  "bound_signal (\<lambda>_. []) sample_members sample_endpoint 2000 (sample_signal [] VUndefined 1)"
proof (rule transport_passes_bound_signals)
  show "receivePlaintext (\<lambda>_. []) sample_members sample_endpoint \<lparr>listener = Some (\<lambda>_. True), pending = []\<rparr>
      sample_wire 2000 = (\<lparr>listener = Some (\<lambda>_. True), pending = []\<rparr>, Inr (Delivered (sample_signal [] VUndefined 1)))"
    by (simp add: receivePlaintext_def sample_decoded sample_digest)
      (simp add: check_origin_def expected_binding_def sample_simps safe_int_def MAX_SAFE_INTEGER_def)
qed simp

definition sample_offer :: "(string \<times> jsval) list" where
  "sample_offer = [(''type'', VStr ''offer''), (''sdp'', VStr ''v=0'')]"

definition identity_digest :: string where
  "identity_digest = digest_hex (\<lambda>bs. bs)
     (currentCanonical '','' True JavascriptQuote (sample_signal [] (VObj sample_offer) 1))"

lemma offer_orders: "canonical_value (VObj sample_offer) = canonical_value (VObj (rev sample_offer))"
  by (simp add: sample_offer_def)

lemma sample_canonical:
  "currentCanonical '','' True JavascriptQuote (sample_signal d v n) =
   currentCanonical '','' True JavascriptQuote (sample_signal [] v n)"
  by (simp add: currentCanonical_def canonical_signal_def sample_signal_def kind_of_def)

lemma offer_json: "signal_json (sample_signal d (VObj sample_offer) n)"
  "signal_json (sample_signal d (VObj (rev sample_offer)) n)"
  by (simp_all add: signal_json_def sample_signal_def kind_of_def or_nullish_def participant_value_def sample_offer_def)

lemma offer_value: "signal_value (sample_signal d (VObj (rev sample_offer)) n)
    = signal_value (sample_signal d (VObj sample_offer) n)"
  using offer_orders
  by (simp add: signal_value_def sample_signal_def kind_of_def or_nullish_def del: canonical_value.simps)

lemma offer_canonical: "currentCanonical '','' True JavascriptQuote (sample_signal d (VObj (rev sample_offer)) n)
    = currentCanonical '','' True JavascriptQuote (sample_signal d (VObj sample_offer) n)"
  by (simp only: currentCanonical_def canonical_signal_value [OF offer_json(1)]
      canonical_signal_value [OF offer_json(2)] offer_value)

theorem signal_digest_binds_witness:
  "signal_value (sample_signal identity_digest (VObj sample_offer) 1)
     = signal_value (sample_signal identity_digest (VObj (rev sample_offer)) 1)
   \<and> VObj sample_offer \<noteq> VObj (rev sample_offer)"
proof -
  have "verifyCurrentSignalDigest (\<lambda>bs. bs) (sample_signal identity_digest v 1)"
    if "v = VObj sample_offer \<or> v = VObj (rev sample_offer)" for v
    using that sample_canonical [of identity_digest v 1] offer_canonical [of "[]" 1]
    by (auto simp: verifyCurrentSignalDigest_def signalDigest_def digestInput_def identity_digest_def sample_signal_def)
  then have ok: "verifyCurrentSignalDigest (\<lambda>bs. bs) (sample_signal identity_digest (VObj sample_offer) 1)"
    "verifyCurrentSignalDigest (\<lambda>bs. bs) (sample_signal identity_digest (VObj (rev sample_offer)) 1)"
    by blast+
  have "payloadDigest (sample_signal identity_digest v 1) = identity_digest" for v
    by (simp add: sample_signal_def)
  then have "signal_value (sample_signal identity_digest (VObj sample_offer) 1)
     = signal_value (sample_signal identity_digest (VObj (rev sample_offer)) 1)"
    using signal_digest_binds [OF ok] offer_json by metis
  then show ?thesis by (simp add: sample_offer_def)
qed

theorem signal_is_received_once_witness:
  "sample_signal [] VUndefined 1 \<noteq> sample_signal [] VUndefined 2"
proof -
  let ?es = "[(sample_signal [] VUndefined 1, 2000), (sample_signal [] VUndefined 2, 2000)]"
  have fresh: "fresh_signal (\<lambda>_. []) 2000 (sample_signal [] VUndefined n)" for n
    by (simp add: fresh_signal_def sample_signal_def verifySignalDigest_def signalDigest_def digestInput_def
        digest_hex_def safe_int_def MAX_SAFE_INTEGER_def CALL_SIGNAL_LIFETIME_MS_def)
  have "receive_step (\<lambda>_. []) sample_members r (sample_signal [] VUndefined n, 2000)
      = claim_or_reject r (sample_signal [] VUndefined n) 2000" for r n
    using fresh [of n] by (simp add: receive_step_def signaling_receive_def validSignalSemantics_def kind_of_def
        or_nullish_def control_events_def sample_simps)
  moreover have keys: "replayKey (sample_signal [] VUndefined 1) \<noteq> replayKey (sample_signal [] VUndefined 2)"
    by (simp add: replayKey_def sample_simps join_def show_int_def show_nat.simps)
  ultimately have "\<not> isl (outputs (receive_step (\<lambda>_. []) sample_members) [] ?es ! 0)"
    and "\<not> isl (outputs (receive_step (\<lambda>_. []) sample_members) [] ?es ! Suc 0)"
    by (simp_all add: claim_or_reject_def claim_signal_def cleanup_claims_def REPLAY_ENTRIES_def Let_def)
      (simp_all add: sample_signal_def)
  then show ?thesis
    using signal_is_received_once [of ?es 0 "Suc 0" "\<lambda>_. []" sample_members "[]"] by simp
qed

end
