(* ===== verification/CallComposition.thy ===== *)
theory CallComposition
  imports CallSignals
begin

text \<open>
  The composition of calls (\<open>service/src/calls/composition.ts\<close>): placing,
  answering, ending and expiring a call, the signals it sends, what an arriving
  signal does, simultaneous invitations, and the media signals that wait for the
  negotiator. Every operation is one step: its awaits are taken to complete
  before the next operation starts, and what the world contributes to it (the
  time, whether this device is trusted, whether the relay takes the signal,
  fresh identifiers) is the \<open>surroundings\<close> of the step. The \<open>journal\<close> records
  what listeners are told and what is sent. The timer that bounds the wait for a
  terminal signal and \<open>endings\<close>, which joins concurrent ends, have no effect on
  such steps and are left out.

  The theory shows that at most one stored call is unfinished, that it is the
  active one, and that a call stays active after it has finished only when the
  signal that rejects it could not be sent.
\<close>

section \<open>State\<close>

datatype call_effect =
    Notified live_session
  | Sent call_signal
  | MediaHandled live_session call_signal
  | Issue string int
  | ProofsWarm
  | ProofsCool

record composition =
  calls :: call_repository
  claims :: replay_entries
  sequences :: "string \<rightharpoonup> int"
  activeCallId :: "string option"
  expiryTimers :: "string set"
  mediaListeners :: "(live_session \<Rightarrow> call_signal \<Rightarrow> bool) list"
  pendingMedia :: held_signals
  compositionStartedAt :: int
  journal :: "call_effect list"

record call_config =
  sha256 :: "u8 list \<Rightarrow> u8 list"
  identity :: call_identity
  endpoint :: call_endpoint

record surroundings =
  now :: int
  trusted :: bool
  relayed :: bool
  freshId :: string
  freshNonce :: string

definition emit :: "call_effect \<Rightarrow> composition \<Rightarrow> composition" where
  "emit e st = st\<lparr>journal := journal st @ [e]\<rparr>"

definition new_composition :: "int \<Rightarrow> composition" where
  "new_composition started_at = \<lparr>calls = Map.empty, claims = [], sequences = Map.empty, activeCallId = None,
     expiryTimers = {}, mediaListeners = [], pendingMedia = [], compositionStartedAt = started_at, journal = []\<rparr>"

definition localParticipant :: "call_config \<Rightarrow> call_participant" where
  "localParticipant cfg = \<lparr>participantId = localParticipantId (endpoint cfg),
     identityId = localIdentityId (endpoint cfg), verification = Verified\<rparr>"

definition both_parties :: "call_config \<Rightarrow> call_participant \<times> call_participant" where
  "both_parties cfg = (localParticipant cfg, remoteParticipant (endpoint cfg))"

definition assertVerifiedContact :: "call_config \<Rightarrow> surroundings \<Rightarrow> unit outcome" where
  "assertVerifiedContact cfg env =
     (if \<not> trusted env then Inl ''Device trust required.''
      else if list_all (\<lambda>p. isParticipant (identity cfg) (roomId (endpoint cfg)) (participantId p) \<and>
          getVerification (identity cfg) (participantId p) = Verified)
        [localParticipant cfg, remoteParticipant (endpoint cfg)] then Inr ()
      else Inl ''Verification required for calls.'')"

section \<open>Sending\<close>

definition TERMINAL_EVENTS :: "session_event list" where
  "TERMINAL_EVENTS = [Reject, Cancel, End, Fail, Expire]"

definition receiver_of :: "call_config \<Rightarrow> live_session \<Rightarrow> string" where
  "receiver_of cfg session =
     (let (p, q) = participants session; mine = identityId (localParticipant cfg) in
      if identityId p \<noteq> mine then identityId p else if identityId q \<noteq> mine then identityId q else [])"

definition unsigned_signal :: "call_config \<Rightarrow> surroundings \<Rightarrow> live_session \<Rightarrow> session_event \<Rightarrow> int \<Rightarrow> string \<Rightarrow>
    jsval \<Rightarrow> call_signal" where
  "unsigned_signal cfg env session ev seq k body =
     \<lparr>sigCallId = callId session, sigConversationId = conversationId session,
      sender = participant_value (localParticipant cfg), receiverIdentityId = receiver_of cfg session,
      sigMediaMode = media_name (mediaMode session), nonce = freshNonce env, event = event_name ev,
      kind = VStr k, payload = body, sequence = seq, timestamp = now env,
      sigExpiresAt = (if ev = Invite then min (expiresAt session) (now env + CALL_SIGNAL_LIFETIME_MS)
        else now env + CALL_SIGNAL_LIFETIME_MS),
      sigIdentityBinding = identityBinding session, payloadDigest = [], protocolVersion = Some 2\<rparr>"

definition sendEvent :: "call_config \<Rightarrow> surroundings \<Rightarrow> composition \<Rightarrow> live_session \<Rightarrow> session_event \<Rightarrow> int \<Rightarrow>
    string \<Rightarrow> jsval \<Rightarrow> composition \<times> unit outcome" where
  "sendEvent cfg env st session ev seq k body =
     (case (if ev \<in> set TERMINAL_EVENTS then Inr () else assertVerifiedContact cfg env) of
        Inl e \<Rightarrow> (st, Inl e)
      | Inr _ \<Rightarrow>
          if ev = Heartbeat \<or> ev = Expire then (st, Inl ''Unsupported call signal event.'')
          else
            let u = unsigned_signal cfg env session ev seq k body;
                digest = (case signalDigest (sha256 cfg) u of Inr d \<Rightarrow> d | Inl _ \<Rightarrow> []);
                (claims', result) = signaling_send (sha256 cfg) (identity cfg) (claims st) session
                  (u\<lparr>payloadDigest := digest\<rparr>) (now env);
                st1 = st\<lparr>claims := claims'\<rparr>
            in case and_then result (transport_send (sha256 cfg) (identity cfg) (endpoint cfg)) of
                 Inl e \<Rightarrow> (st1, Inl e)
               | Inr sig \<Rightarrow> if relayed env then (emit (Sent sig) st1, Inr ()) else (st1, Inl ''Relay unavailable.''))"

definition notify :: "composition \<Rightarrow> live_session \<Rightarrow> composition" where
  "notify st session =
     (let st1 = (if state session \<in> {Inviting, Ringing, Accepted, Connecting} then st
            else st\<lparr>expiryTimers := expiryTimers st - {callId session}\<rparr>);
          st2 = (if terminal_call (state session) \<and> activeCallId st1 = Some (callId session)
            then st1\<lparr>activeCallId := None\<rparr> else st1)
      in emit (Notified session) (emit (if activeCallId st2 \<noteq> None then ProofsWarm else ProofsCool) st2))"

definition scheduleExpiry :: "composition \<Rightarrow> live_session \<Rightarrow> composition" where
  "scheduleExpiry st session = st\<lparr>expiryTimers := insert (callId session) (expiryTimers st)\<rparr>"

text \<open>One event of a call through the service, and the same with the notification after it.\<close>

definition service_event :: "composition \<Rightarrow> string \<Rightarrow> session_event \<Rightarrow> int \<Rightarrow> composition \<times> live_session outcome" where
  "service_event st cid ev t =
     (let (r, result) = process_call (calls st) cid ev t in (st\<lparr>calls := r\<rparr>, result))"

definition event_and_notify :: "composition \<Rightarrow> string \<Rightarrow> session_event \<Rightarrow> int \<Rightarrow> composition \<times> live_session outcome" where
  "event_and_notify st cid ev t =
     (case service_event st cid ev t of
        (st1, Inl e) \<Rightarrow> (st1, Inl e)
      | (st1, Inr s) \<Rightarrow> (notify st1 s, Inr s))"

text \<open>The timer of \<open>scheduleExpiry\<close>.\<close>

definition expiry_fires :: "surroundings \<Rightarrow> composition \<Rightarrow> string \<Rightarrow> composition" where
  "expiry_fires env st cid =
     (if cid \<notin> expiryTimers st then st
      else case get_call (calls st) cid of
        None \<Rightarrow> st
      | Some current \<Rightarrow>
          if state current \<notin> {Inviting, Ringing, Accepted, Connecting} then st
          else let st1 = fst (event_and_notify st cid Expire (now env))
               in st1\<lparr>expiryTimers := expiryTimers st1 - {cid}\<rparr>)"

section \<open>Placing, answering and ending a call\<close>

definition place_call :: "call_config \<Rightarrow> surroundings \<Rightarrow> composition \<Rightarrow> call_media \<Rightarrow>
    composition \<times> live_session outcome" where
  "place_call cfg env st media =
     (case assertVerifiedContact cfg env of
        Inl e \<Rightarrow> (st, Inl e)
      | Inr _ \<Rightarrow>
          if activeCallId st \<noteq> None then (st, Inl ''Call already active or ringing.'')
          else
            let binding = bindingOf (identity cfg) (roomId (endpoint cfg)) (both_parties cfg);
                (r, result) = invite_call (identity cfg) (calls st) (freshId env) (roomId (endpoint cfg))
                  (both_parties cfg) binding media (now env)
            in case result of
                 Inl e \<Rightarrow> (st\<lparr>calls := r\<rparr>, Inl e)
               | Inr session \<Rightarrow>
                   let st1 = notify (scheduleExpiry (st\<lparr>calls := r, activeCallId := Some (callId session),
                         sequences := (sequences st)(callId session \<mapsto> 1)\<rparr>) session) session
                   in case sendEvent cfg env st1 session Invite 1 ''control'' VUndefined of
                        (st2, Inr _) \<Rightarrow> (st2, Inr session)
                      | (st2, Inl e) \<Rightarrow>
                          (case get_call (calls st2) (callId session) of
                             Some current \<Rightarrow>
                               if state current \<in> {Inviting, Ringing}
                               then (fst (event_and_notify st2 (callId session) Fail (now env)), Inl e)
                               else (st2, Inl e)
                           | None \<Rightarrow> (st2, Inl e)))"

definition next_sequence :: "composition \<Rightarrow> string \<Rightarrow> int \<Rightarrow> int" where
  "next_sequence st cid fallback = (case sequences st cid of Some n \<Rightarrow> n | None \<Rightarrow> fallback) + 1"

definition respond :: "call_config \<Rightarrow> surroundings \<Rightarrow> composition \<Rightarrow> string \<Rightarrow> session_event \<Rightarrow>
    composition \<times> live_session outcome" where
  "respond cfg env st cid ev =
     (case assertVerifiedContact cfg env of
        Inl e \<Rightarrow> (st, Inl e)
      | Inr _ \<Rightarrow>
          (case service_event st cid ev (now env) of
             (st1, Inl e) \<Rightarrow> (st1, Inl e)
           | (st1, Inr session) \<Rightarrow>
               let seq = next_sequence st1 cid 0;
                   st2 = st1\<lparr>sequences := (sequences st1)(cid \<mapsto> seq)\<rparr>;
                   st3 = (if ev = Cancel then notify st2 session else st2)
               in case sendEvent cfg env st3 session ev seq ''control'' VUndefined of
                    (st4, Inr _) \<Rightarrow> (if ev \<noteq> Cancel then notify st4 session else st4, Inr session)
                  | (st4, Inl e) \<Rightarrow>
                      (if ev = Accept then fst (event_and_notify st4 cid Fail (now env)) else st4, Inl e)))"

definition closing_event :: "call_state \<Rightarrow> session_event" where
  "closing_event st = (if st \<in> {Connected, Reconnecting} then End else Cancel)"

definition end_call :: "call_config \<Rightarrow> surroundings \<Rightarrow> composition \<Rightarrow> string \<Rightarrow>
    composition \<times> live_session option outcome" where
  "end_call cfg env st cid =
     (case get_call (calls st) cid of
        None \<Rightarrow> (st, Inr None)
      | Some current \<Rightarrow>
          if terminal_call (state current) then (st, Inr (Some current))
          else
            let ev = closing_event (state current) in
            case service_event st cid ev (now env) of
              (st1, Inl e) \<Rightarrow> (st1, Inl e)
            | (st1, Inr updated) \<Rightarrow>
                let seq = next_sequence st1 cid 0;
                    st2 = notify (st1\<lparr>sequences := (sequences st1)(cid \<mapsto> seq)\<rparr>) updated
                in case sendEvent cfg env st2 current ev seq ''control'' VUndefined of
                     (st3, Inl e) \<Rightarrow> (st3, Inl e)
                   | (st3, Inr _) \<Rightarrow> (st3, Inr (Some updated)))"

definition terminateLocally :: "surroundings \<Rightarrow> composition \<Rightarrow> string \<Rightarrow> composition \<times> live_session option" where
  "terminateLocally env st cid =
     (case get_call (calls st) cid of
        None \<Rightarrow> (st, None)
      | Some current \<Rightarrow>
          if terminal_call (state current) then (st, Some current)
          else case event_and_notify st cid Fail (now env) of
            (st1, Inr failed) \<Rightarrow> (st1, Some failed)
          | (st1, Inl _) \<Rightarrow> (st1, get_call (calls st1) cid))"

section \<open>Arriving signals\<close>

text \<open>The states in which a call takes media signals, and a medium read from a signal.\<close>

definition takes_media :: "call_state \<Rightarrow> bool" where
  "takes_media st \<longleftrightarrow> st \<in> {Accepted, Connecting, Connected, Reconnecting}"

definition media_of :: "string \<Rightarrow> call_media option" where
  "media_of m = map_of [(''audio'', Audio), (''video'', Video)] m"

definition event_of :: "string \<Rightarrow> session_event option" where
  "event_of name = map_of (map (\<lambda>e. (event_name e, e))
     [Invite, Accept, Reject, Cancel, Connect, ConnectedEvent, Reconnect, End, Expire, Fail, Heartbeat]) name"

definition session_for :: "call_config \<Rightarrow> call_signal \<Rightarrow> call_media \<Rightarrow> call_state \<Rightarrow> int \<Rightarrow> live_session" where
  "session_for cfg sig media st updated =
     \<lparr>callId = sigCallId sig, conversationId = sigConversationId sig, participants = both_parties cfg,
      mediaMode = media, state = st, createdAt = timestamp sig, updatedAt = updated,
      expiresAt = sigExpiresAt sig, identityBinding = sigIdentityBinding sig\<rparr>"

definition sendCompetingResponse :: "call_config \<Rightarrow> surroundings \<Rightarrow> composition \<Rightarrow> call_signal \<Rightarrow> call_media \<Rightarrow>
    composition" where
  "sendCompetingResponse cfg env st sig media =
     fst (sendEvent cfg env st (session_for cfg sig media Ringing (now env)) Reject (sequence sig + 1)
       ''control'' VUndefined)"

text \<open>
  Lines 178 to 190: another call is active. Of two simultaneous invitations the
  one with the smaller identifier goes on; \<open>None\<close> means the arriving one ends here.
\<close>

definition resolve_collision :: "call_config \<Rightarrow> surroundings \<Rightarrow> composition \<Rightarrow> call_signal \<Rightarrow> call_media \<Rightarrow>
    composition \<times> bool outcome" where
  "resolve_collision cfg env st sig media =
     (case activeCallId st of
        None \<Rightarrow> (st, Inr True)
      | Some active_id \<Rightarrow>
          if active_id = sigCallId sig then (st, Inr True)
          else case get_call (calls st) active_id of
            Some active \<Rightarrow>
              if state active = Inviting \<and> callId active > sigCallId sig then
                (case event_and_notify st (callId active) Cancel (now env) of
                   (st1, Inl e) \<Rightarrow> (st1, Inl e)
                 | (st1, Inr _) \<Rightarrow>
                     let seq = next_sequence st1 (callId active) 1;
                         st2 = st1\<lparr>sequences := (sequences st1)(callId active \<mapsto> seq)\<rparr>
                     in (fst (sendEvent cfg env st2 active Cancel seq ''control'' VUndefined), Inr True))
              else (sendCompetingResponse cfg env st sig media, Inr False)
          | None \<Rightarrow> (sendCompetingResponse cfg env st sig media, Inr False))"

definition first_signal :: "call_config \<Rightarrow> surroundings \<Rightarrow> composition \<Rightarrow> call_signal \<Rightarrow>
    composition \<times> unit outcome" where
  "first_signal cfg env st sig =
     (case media_of (sigMediaMode sig) of
        None \<Rightarrow> (st, Inr ())
      | Some media \<Rightarrow>
          if event sig \<noteq> ''invite'' \<or> kind sig \<noteq> VStr ''control'' \<or>
             receiverIdentityId sig \<noteq> identityId (localParticipant cfg) \<or>
             sigIdentityBinding sig \<noteq> bindingOf (identity cfg) (roomId (endpoint cfg)) (both_parties cfg)
            then (st, Inr ())
          else if timestamp sig < compositionStartedAt st - PENDING_CALL_SIGNAL_WINDOW_MS \<or>
             sigExpiresAt sig \<le> now env then (st, Inr ())
          else case resolve_collision cfg env st sig media of
            (st1, Inl e) \<Rightarrow> (st1, Inl e)
          | (st1, Inr False) \<Rightarrow> (st1, Inr ())
          | (st1, Inr True) \<Rightarrow>
              let (r, result) = receiveInvite (identity cfg) (calls st1)
                    (session_for cfg sig media Inviting (timestamp sig)) (now env)
              in case result of
                   Inl e \<Rightarrow> (st1\<lparr>calls := r\<rparr>, Inl e)
                 | Inr received \<Rightarrow>
                     (notify (scheduleExpiry (st1\<lparr>calls := r, activeCallId := Some (sigCallId sig)\<rparr>) received)
                        received, Inr ()))"

fun is_truthy :: "jsval \<Rightarrow> bool" where
  "is_truthy VUndefined = False"
| "is_truthy VNull = False"
| "is_truthy (VBool b) = b"
| "is_truthy (VNum n) = (n \<noteq> Whole 0)"
| "is_truthy (VStr s) = (s \<noteq> [])"
| "is_truthy _ = True"

definition later_signal :: "call_config \<Rightarrow> surroundings \<Rightarrow> composition \<Rightarrow> live_session \<Rightarrow> call_signal \<Rightarrow>
    composition \<times> unit outcome" where
  "later_signal cfg env st existing sig =
     (if event sig = ''invite'' then
        (if activeCallId st \<noteq> Some (sigCallId sig) \<and> terminal_call (state existing)
         then case media_of (sigMediaMode sig) of
             Some media \<Rightarrow> (sendCompetingResponse cfg env st sig media, Inr ())
           | None \<Rightarrow> (st, Inr ())
         else (st, Inr ()))
      else if sigConversationId sig \<noteq> conversationId existing \<or> sigIdentityBinding sig \<noteq> identityBinding existing \<or>
         receiverIdentityId sig \<noteq> identityId (localParticipant cfg) \<or>
         sigMediaMode sig \<noteq> media_name (mediaMode existing)
        then (st, Inl ''Call signal binding rejected.'')
      else if is_truthy (kind sig) \<and> kind sig \<noteq> VStr ''control'' then
        (if \<not> takes_media (state existing) then (st, Inr ())
         else if mediaListeners st = [] then
           (st\<lparr>pendingMedia := hold_signal (pendingMedia st) sig (now env)\<rparr>, Inr ())
         else (emit (MediaHandled existing sig) st,
           if list_all (\<lambda>handle. handle existing sig) (mediaListeners st) then Inr ()
           else Inl ''Call media handler rejected.''))
      else case event_of (event sig) of
          None \<Rightarrow> (st, Inl ''Call state transition rejected.'')
        | Some ev \<Rightarrow>
            (case event_and_notify st (sigCallId sig) ev (now env) of
               (st1, Inl _) \<Rightarrow> (st1, Inl ''Call state transition rejected.'')
             | (st1, Inr _) \<Rightarrow> (st1, Inr ())))"

definition on_call_signal :: "call_config \<Rightarrow> surroundings \<Rightarrow> composition \<Rightarrow> call_signal \<Rightarrow>
    composition \<times> unit outcome" where
  "on_call_signal cfg env st sig =
     (if event sig \<notin> set (map event_name TERMINAL_EVENTS) \<and> isl (assertVerifiedContact cfg env)
        then (st, Inl ''Call device trust rejected.'')
      else case get_call (calls st) (sigCallId sig) of
          None \<Rightarrow> first_signal cfg env st sig
        | Some existing \<Rightarrow> later_signal cfg env st existing sig)"

text \<open>A decrypted message: the transport, the checks and claims of the signaling, and the handler.\<close>

definition signal_arrives :: "call_config \<Rightarrow> surroundings \<Rightarrow> composition \<Rightarrow> jsval \<Rightarrow> composition \<times> unit outcome" where
  "signal_arrives cfg env st v =
     (case snd (receivePlaintext (sha256 cfg) (identity cfg) (endpoint cfg)
          \<lparr>listener = Some (\<lambda>_. True), pending = []\<rparr> v (now env)) of
        Inl e \<Rightarrow> (st, Inl e)
      | Inr (ProtocolIssue cid received) \<Rightarrow> (emit (Issue cid received) st, Inr ())
      | Inr (Held sig) \<Rightarrow> (st, Inr ())
      | Inr (Delivered sig) \<Rightarrow>
          let (claims', result) = signaling_receive (sha256 cfg) (identity cfg) (claims st) sig (now env);
              st1 = st\<lparr>claims := claims'\<rparr>
          in case and_then result (\<lambda>_. Inr ()) of
               Inl _ \<Rightarrow> (st1, Inl ''Call signal handler rejected.'')
             | Inr _ \<Rightarrow> map_prod id (map_sum (\<lambda>_. ''Call signal handler rejected.'') id)
                 (on_call_signal cfg env st1 sig))"

section \<open>Media signals\<close>

definition sendMediaSignal :: "call_config \<Rightarrow> surroundings \<Rightarrow> composition \<Rightarrow> string \<Rightarrow> session_event \<Rightarrow> string \<Rightarrow>
    jsval \<Rightarrow> composition \<times> unit outcome" where
  "sendMediaSignal cfg env st cid ev k body =
     (case assertVerifiedContact cfg env of
        Inl e \<Rightarrow> (st, Inl e)
      | Inr _ \<Rightarrow>
          (case get_call (calls st) cid of
             Some session \<Rightarrow>
               if takes_media (state session) then
                 let seq = next_sequence st cid 1 in
                 sendEvent cfg env (st\<lparr>sequences := (sequences st)(cid \<mapsto> seq)\<rparr>) session ev seq k body
               else (st, Inl ''Call is not negotiating or established.'')
           | None \<Rightarrow> (st, Inl ''Call is not negotiating or established.'')))"

fun replay_media :: "composition \<Rightarrow> call_signal list \<Rightarrow> composition" where
  "replay_media st [] = st"
| "replay_media st (sig # sigs) =
     (case get_call (calls st) (sigCallId sig) of
        Some current \<Rightarrow>
          if takes_media (state current) then replay_media (emit (MediaHandled current sig) st) sigs
          else replay_media st sigs
      | None \<Rightarrow> replay_media st sigs)"

definition onMediaSignal :: "surroundings \<Rightarrow> composition \<Rightarrow> (live_session \<Rightarrow> call_signal \<Rightarrow> bool) \<Rightarrow> composition" where
  "onMediaSignal env st handle =
     (let (rest, ready) = drain_signals (pendingMedia st) (now env)
      in replay_media (st\<lparr>mediaListeners := mediaListeners st @ [handle], pendingMedia := rest\<rparr>) ready)"

section \<open>Operations as steps\<close>

datatype answer = AcceptCall | RejectCall | CancelCall

fun answer_event :: "answer \<Rightarrow> session_event" where
  "answer_event AcceptCall = Accept"
| "answer_event RejectCall = Reject"
| "answer_event CancelCall = Cancel"

text \<open>The events that the negotiator reports to the service itself.\<close>

datatype negotiation = NegotiationStarts | MediaConnected | MediaLost

fun negotiation_event :: "negotiation \<Rightarrow> session_event" where
  "negotiation_event NegotiationStarts = Connect"
| "negotiation_event MediaConnected = ConnectedEvent"
| "negotiation_event MediaLost = Reconnect"

datatype composition_request =
    Place call_media
  | Respond answer string
  | EndCall string
  | Terminate string
  | Timer string
  | Arrive jsval
  | Negotiated negotiation string
  | SendMedia string negotiation string jsval
  | AttachMedia "live_session \<Rightarrow> call_signal \<Rightarrow> bool"

definition quiet :: "'a outcome \<Rightarrow> unit outcome" where
  "quiet = map_sum id (\<lambda>_. ())"

fun composition_step :: "call_config \<Rightarrow> composition \<Rightarrow> surroundings \<times> composition_request \<Rightarrow>
    composition \<times> unit outcome" where
  "composition_step cfg st (env, Place media) = map_prod id quiet (place_call cfg env st media)"
| "composition_step cfg st (env, Respond a cid) = map_prod id quiet (respond cfg env st cid (answer_event a))"
| "composition_step cfg st (env, EndCall cid) = map_prod id quiet (end_call cfg env st cid)"
| "composition_step cfg st (env, Terminate cid) = (fst (terminateLocally env st cid), Inr ())"
| "composition_step cfg st (env, Timer cid) = (expiry_fires env st cid, Inr ())"
| "composition_step cfg st (env, Arrive v) = signal_arrives cfg env st v"
| "composition_step cfg st (env, Negotiated n cid) =
     map_prod id quiet (service_event st cid (negotiation_event n) (now env))"
| "composition_step cfg st (env, SendMedia cid n k body) = sendMediaSignal cfg env st cid (negotiation_event n) k body"
| "composition_step cfg st (env, AttachMedia handle) = (onMediaSignal env st handle, Inr ())"

section \<open>One unfinished call\<close>

text \<open>
  At most one stored call is unfinished and it is the active one; an active call
  is unfinished or was rejected. \<open>settling\<close> excepts a call whose listeners are
  not notified yet.
\<close>

definition settling :: "string \<Rightarrow> call_repository \<Rightarrow> string option \<Rightarrow> bool" where
  "settling cid r a \<longleftrightarrow> repository_ok r \<and>
     (\<forall>c s. r c = Some s \<and> \<not> terminal_call (state s) \<longrightarrow> a = Some c) \<and>
     (\<forall>c. a = Some c \<longrightarrow> (\<exists>s. r c = Some s \<and>
        (\<not> terminal_call (state s) \<or> state s = Rejected \<or> c = cid)))"

definition one_call :: "call_repository \<Rightarrow> string option \<Rightarrow> bool" where
  "one_call r a \<longleftrightarrow> repository_ok r \<and>
     (\<forall>c s. r c = Some s \<and> \<not> terminal_call (state s) \<longrightarrow> a = Some c) \<and>
     (\<forall>c. a = Some c \<longrightarrow> (\<exists>s. r c = Some s \<and> (\<not> terminal_call (state s) \<or> state s = Rejected)))"

definition composition_ok :: "composition \<Rightarrow> bool" where
  "composition_ok st \<longleftrightarrow> one_call (calls st) (activeCallId st)"

lemma one_call_settling: "one_call r a \<Longrightarrow> settling cid r a"
  by (fastforce simp: one_call_def settling_def)

lemma emit_simps [simp]: "calls (emit e st) = calls st" "activeCallId (emit e st) = activeCallId st"
  "claims (emit e st) = claims st" "sequences (emit e st) = sequences st"
  by (simp_all add: emit_def)

lemma notify_simps [simp]: "calls (notify st t) = calls st"
  "activeCallId (notify st t) = (if terminal_call (state t) \<and> activeCallId st = Some (callId t) then None
     else activeCallId st)"
  by (auto simp: notify_def Let_def)

lemma schedule_simps [simp]: "calls (scheduleExpiry st t) = calls st"
  "activeCallId (scheduleExpiry st t) = activeCallId st"
  by (simp_all add: scheduleExpiry_def)

lemma sendEvent_simps [simp]:
  "calls (fst (sendEvent cfg env st s ev seq k body)) = calls st"
  "activeCallId (fst (sendEvent cfg env st s ev seq k body)) = activeCallId st"
  by (auto simp: sendEvent_def Let_def split: sum.split prod.split)

lemma sendEvent_result:
  assumes "sendEvent cfg env st s ev seq k body = (st', result)"
  shows "calls st' = calls st" and "activeCallId st' = activeCallId st"
  using sendEvent_simps [of cfg env st s ev seq k body] assms by simp_all

lemma competing_simps [simp]:
  "calls (sendCompetingResponse cfg env st sig media) = calls st"
  "activeCallId (sendCompetingResponse cfg env st sig media) = activeCallId st"
  by (simp_all add: sendCompetingResponse_def)

lemma notify_settles:
  assumes "settling (callId t) (calls st) (activeCallId st)" and "calls st (callId t) = Some t"
  shows "composition_ok (notify st t)"
  using assms unfolding composition_ok_def one_call_def settling_def
  by (cases "terminal_call (state t)") auto

lemma process_settles:
  assumes "one_call r a" and "process_call r cid ev t = (r', Inr u)"
  obtains s where "r cid = Some s" and "transitionCall s ev t DEFAULT_CALL_SECURITY_POLICY = Inr u"
    and "callId u = cid" and "r' = r(cid \<mapsto> u)" and "settling cid r' a"
proof -
  obtain s where s: "r cid = Some s" and tr: "transitionCall s ev t DEFAULT_CALL_SECURITY_POLICY = Inr u"
    and r': "r' = save_call r u"
    using assms(2) by (auto simp: process_call_def get_call_def split: option.splits sum.splits)
  have cid: "callId u = cid"
    using assms(1) s same_call_fields(1) [OF transition_same_call [OF tr]]
    by (auto simp: one_call_def repository_ok_def)
  then have upd: "r' = r(cid \<mapsto> u)" using r' by (simp add: save_call_def)
  have "terminal_call (state s) \<Longrightarrow> u = s" using transition_of_terminal [OF tr] .
  then have "settling cid r' a"
    using assms(1) s upd cid unfolding one_call_def settling_def repository_ok_def by auto
  with s tr cid upd show ?thesis using that by blast
qed

lemma process_failed: "process_call r cid ev t = (r', Inl e) \<Longrightarrow> r' = r"
  by (auto simp: process_call_def split: option.splits sum.splits)

lemma service_event_failed: "service_event st cid ev t = (st', Inl e) \<Longrightarrow> st' = st"
  by (auto simp: service_event_def split: prod.splits dest: process_failed)

lemma service_event_settles:
  assumes "composition_ok st" and "service_event st cid ev t = (st', Inr u)"
  shows "settling (callId u) (calls st') (activeCallId st')" and "calls st' (callId u) = Some u"
    and "activeCallId st' = activeCallId st" and "callId u = cid"
proof -
  obtain r' where r': "process_call (calls st) cid ev t = (r', Inr u)" and st': "st' = st\<lparr>calls := r'\<rparr>"
    using assms(2) by (auto simp: service_event_def split: prod.splits)
  obtain s where "callId u = cid" and "r' = (calls st)(cid \<mapsto> u)" and "settling cid r' (activeCallId st)"
    using process_settles [OF _ r'] assms(1) unfolding composition_ok_def by metis
  then show "settling (callId u) (calls st') (activeCallId st')" and "calls st' (callId u) = Some u"
    and "activeCallId st' = activeCallId st" and "callId u = cid"
    using st' by simp_all
qed

lemma event_and_notify_ok:
  assumes "composition_ok st"
  shows "composition_ok (fst (event_and_notify st cid ev t))"
proof -
  obtain st' result where ev: "service_event st cid ev t = (st', result)" by (rule prod.exhaust)
  show ?thesis
  proof (cases result)
    case (Inl e)
    then show ?thesis using assms ev service_event_failed [OF ev [unfolded Inl]] by (simp add: event_and_notify_def)
  next
    case (Inr u)
    then show ?thesis
      using ev service_event_settles [OF assms] notify_settles by (simp add: event_and_notify_def)
  qed
qed

text \<open>An event that does not finish a call, or rejects it, needs no notification.\<close>

lemma event_without_notice:
  assumes "composition_ok st" and "service_event st cid ev t = (st', Inr u)"
    and "ev \<in> {Accept, Connect, ConnectedEvent, Reconnect, Reject}"
  shows "composition_ok st'"
proof -
  obtain r' where r': "process_call (calls st) cid ev t = (r', Inr u)" and st': "st' = st\<lparr>calls := r'\<rparr>"
    using assms(2) by (auto simp: service_event_def split: prod.splits)
  obtain s where tr: "transitionCall s ev t DEFAULT_CALL_SECURITY_POLICY = Inr u" and cid: "callId u = cid"
    and r: "r' = (calls st)(cid \<mapsto> u)" and settling: "settling cid r' (activeCallId st)"
    using process_settles [OF _ r'] assms(1) unfolding composition_ok_def by metis
  have "\<not> terminal_call (state u) \<or> state u = Rejected"
    using tr assms(3) by (cases "state s") (auto simp: transitionCall_def terminal_call_def split: if_splits)
  then show ?thesis
    using settling r st' unfolding composition_ok_def one_call_def settling_def by auto
qed

lemma composition_ok_cong:
  "calls st' = calls st \<Longrightarrow> activeCallId st' = activeCallId st \<Longrightarrow> composition_ok st \<Longrightarrow> composition_ok st'"
  by (simp add: composition_ok_def)

subsection \<open>Every operation keeps it\<close>

lemma expiry_fires_ok: "composition_ok st \<Longrightarrow> composition_ok (expiry_fires env st cid)"
  using event_and_notify_ok [of st cid Expire "now env"]
  by (auto simp: expiry_fires_def Let_def composition_ok_def split: option.split)

lemma terminateLocally_ok:
  assumes "composition_ok st"
  shows "composition_ok (fst (terminateLocally env st cid))"
proof -
  have "fst (terminateLocally env st cid) \<in> {st, fst (event_and_notify st cid Fail (now env))}"
    by (auto simp: terminateLocally_def split: option.split prod.split sum.split)
  then show ?thesis using assms event_and_notify_ok by auto
qed

lemma respond_ok:
  assumes "composition_ok st" and "ev \<in> {Accept, Reject, Cancel}"
  shows "composition_ok (fst (respond cfg env st cid ev))"
proof (cases "assertVerifiedContact cfg env")
  case (Inl e)
  then show ?thesis using assms by (simp add: respond_def)
next
  case trust: (Inr v)
  obtain st1 result where ev: "service_event st cid ev (now env) = (st1, result)" by (rule prod.exhaust)
  show ?thesis
  proof (cases result)
    case (Inl e)
    then show ?thesis
      using trust ev assms service_event_failed [OF ev [unfolded Inl]] by (simp add: respond_def)
  next
    case (Inr u)
    note settled = service_event_settles [OF assms(1) ev [unfolded Inr]]
    let ?seq = "next_sequence st1 cid 0"
    define st2 where "st2 = st1\<lparr>sequences := (sequences st1)(cid \<mapsto> ?seq)\<rparr>"
    have st2: "calls st2 = calls st1" "activeCallId st2 = activeCallId st1" by (simp_all add: st2_def)
    define st3 where "st3 = (if ev = Cancel then notify st2 u else st2)"
    obtain st4 sent where sent: "sendEvent cfg env st3 u ev ?seq ''control'' VUndefined = (st4, sent)"
      by (rule prod.exhaust)
    note st4 = sendEvent_result [OF sent]
    have final: "fst (respond cfg env st cid ev) = (case sent of
        Inr _ \<Rightarrow> if ev \<noteq> Cancel then notify st4 u else st4
      | Inl _ \<Rightarrow> if ev = Accept then fst (event_and_notify st4 cid Fail (now env)) else st4)"
      using trust ev Inr sent [unfolded st3_def]
      by (cases sent; cases "ev = Cancel"; cases "ev = Accept") (simp_all add: respond_def Let_def st2_def [symmetric])
    show ?thesis
    proof (cases "ev = Cancel")
      case True
      have "composition_ok st3"
        using True settled st2 by (simp add: st3_def notify_settles)
      then have "composition_ok st4" using st4 by (rule composition_ok_cong [rotated 2])
      then show ?thesis using True final by (simp split: sum.split)
    next
      case False
      then have "st3 = st2" by (simp add: st3_def)
      then have same: "calls st4 = calls st1" "activeCallId st4 = activeCallId st1" using st2 st4 by simp_all
      have "composition_ok st1"
        using False assms event_without_notice [OF assms(1) ev [unfolded Inr]] by auto
      then have "composition_ok st4" using same by (rule composition_ok_cong [rotated 2])
      moreover have "composition_ok (notify st4 u)"
        using same settled by (simp add: notify_settles)
      ultimately show ?thesis
        using final event_and_notify_ok by (simp split: sum.split)
    qed
  qed
qed

lemma end_call_ok:
  assumes "composition_ok st"
  shows "composition_ok (fst (end_call cfg env st cid))"
proof (cases "get_call (calls st) cid")
  case None
  then show ?thesis using assms by (simp add: end_call_def)
next
  case current: (Some current)
  show ?thesis
  proof (cases "terminal_call (state current)")
    case True
    then show ?thesis using current assms by (simp add: end_call_def)
  next
    case False
    define ev where "ev = closing_event (state current)"
    obtain st1 result where step: "service_event st cid ev (now env) = (st1, result)" by (rule prod.exhaust)
    show ?thesis
    proof (cases result)
      case (Inl e)
      then have "fst (end_call cfg env st cid) = st1"
        using current False step by (simp add: end_call_def Let_def ev_def [symmetric])
      then show ?thesis using step Inl assms service_event_failed by metis
    next
      case (Inr u)
      note settled = service_event_settles [OF assms step [unfolded Inr]]
      define st2 where "st2 = notify (st1\<lparr>sequences := (sequences st1)(cid \<mapsto> next_sequence st1 cid 0)\<rparr>) u"
      have "composition_ok st2" unfolding st2_def using settled by (intro notify_settles) simp_all
      moreover have "fst (end_call cfg env st cid) = fst (sendEvent cfg env st2 current ev
          (next_sequence st1 cid 0) ''control'' VUndefined)"
        using current False step Inr
        by (simp add: end_call_def Let_def ev_def [symmetric] st2_def [symmetric] split: sum.split prod.split)
      ultimately show ?thesis by (simp add: composition_ok_def)
    qed
  qed
qed

lemma place_call_ok:
  assumes ok: "composition_ok st"
  shows "composition_ok (fst (place_call cfg env st media))"
proof (cases "isl (assertVerifiedContact cfg env) \<or> activeCallId st \<noteq> None")
  case True
  then show ?thesis using ok by (auto simp: place_call_def split: sum.split)
next
  case False
  let ?binding = "bindingOf (identity cfg) (roomId (endpoint cfg)) (both_parties cfg)"
  obtain v where trust: "assertVerifiedContact cfg env = Inr v" and idle: "activeCallId st = None"
    using False by (cases "assertVerifiedContact cfg env") auto
  obtain r result where placed: "invite_call (identity cfg) (calls st) (freshId env) (roomId (endpoint cfg))
      (both_parties cfg) ?binding media (now env) = (r, result)" by (rule prod.exhaust)
  show ?thesis
  proof (cases result)
    case (Inl e)
    then have "r = calls st"
      using placed by (auto simp: invite_call_def Let_def process_call_def get_call_def save_call_def transitionCall_def
          invitationBound_def terminal_call_def DEFAULT_CALL_SECURITY_POLICY_def split: sum.splits)
    then show ?thesis using Inl ok trust idle placed by (simp add: place_call_def Let_def composition_ok_def)
  next
    case (Inr session)
    have s: "r = (calls st)(callId session \<mapsto> session)" "state session = Inviting"
      using placed Inr by (auto simp: invite_call_def Let_def process_call_def get_call_def save_call_def transitionCall_def
          invitationBound_def terminal_call_def DEFAULT_CALL_SECURITY_POLICY_def split: sum.splits)
    define st1 where "st1 = notify (scheduleExpiry (st\<lparr>calls := r, activeCallId := Some (callId session),
      sequences := (sequences st)(callId session \<mapsto> 1)\<rparr>) session) session"
    have st1: "composition_ok st1"
      using ok idle s by (auto simp: st1_def composition_ok_def one_call_def repository_ok_def terminal_call_def)
    obtain st2 sent where sent: "sendEvent cfg env st1 session Invite 1 ''control'' VUndefined = (st2, sent)"
      by (rule prod.exhaust)
    have st2: "composition_ok st2" using sendEvent_result [OF sent] st1 by (rule composition_ok_cong)
    have "fst (place_call cfg env st media) \<in> {st2, fst (event_and_notify st2 (callId session) Fail (now env))}"
      using trust idle placed Inr sent
      by (auto simp: place_call_def Let_def st1_def [symmetric] split: sum.split option.split)
    then show ?thesis using st2 event_and_notify_ok by auto
  qed
qed

lemma resolve_collision_ok:
  assumes ok: "composition_ok st"
  shows "composition_ok (fst (resolve_collision cfg env st sig media))"
proof (cases "activeCallId st = None \<or> activeCallId st = Some (sigCallId sig)")
  case True
  then show ?thesis using ok by (auto simp: resolve_collision_def)
next
  case False
  then obtain a where a: "activeCallId st = Some a" "a \<noteq> sigCallId sig" by auto
  have busy: "composition_ok (sendCompetingResponse cfg env st sig media)"
    using ok by (simp add: composition_ok_def)
  show ?thesis
  proof (cases "get_call (calls st) a")
    case None
    then show ?thesis using a busy by (simp add: resolve_collision_def)
  next
    case (Some active)
    obtain st1 result where step: "event_and_notify st (callId active) Cancel (now env) = (st1, result)"
      by (rule prod.exhaust)
    have "composition_ok st1" using event_and_notify_ok [OF ok, of "callId active" Cancel "now env"] step by simp
    then show ?thesis
      using a Some busy step by (auto simp: resolve_collision_def Let_def composition_ok_def split: sum.split)
  qed
qed

lemma cancelled_is_cleared:
  assumes "composition_ok st" and "calls st c = Some active" and "activeCallId st = Some c"
    and "state active = Inviting" and "event_and_notify st c Cancel t = (st1, Inr u)"
  shows "activeCallId st1 = None"
proof -
  have id: "callId active = c" using assms(1,2) by (auto simp: composition_ok_def one_call_def repository_ok_def)
  show ?thesis
    using assms(2-5) id
    by (auto simp: event_and_notify_def service_event_def process_call_def get_call_def transitionCall_def
        terminal_call_def split: sum.splits prod.splits if_splits)
qed

lemma collision_gives_way:
  assumes ok: "composition_ok st" and none: "calls st (sigCallId sig) = None"
    and result: "resolve_collision cfg env st sig media = (st1, Inr True)"
  shows "activeCallId st1 = None"
proof (cases "activeCallId st")
  case None
  then show ?thesis using result by (simp add: resolve_collision_def)
next
  case (Some a)
  then obtain active where stored: "calls st a = Some active"
    using ok by (auto simp: composition_ok_def one_call_def)
  with none have "a \<noteq> sigCallId sig" by auto
  with Some stored result have way: "state active = Inviting \<and> callId active > sigCallId sig"
    by (auto simp: resolve_collision_def get_call_def split: if_splits)
  have id: "callId active = a" using ok stored by (auto simp: composition_ok_def one_call_def repository_ok_def)
  obtain st2 r where step: "event_and_notify st a Cancel (now env) = (st2, r)" by (rule prod.exhaust)
  with result Some stored way id \<open>a \<noteq> sigCallId sig\<close> obtain u where "r = Inr u"
    by (cases r) (auto simp: resolve_collision_def get_call_def)
  with step have cleared: "activeCallId st2 = None"
    using cancelled_is_cleared [OF ok stored Some] way by simp
  show ?thesis
    using result Some stored way id step \<open>r = Inr u\<close> \<open>a \<noteq> sigCallId sig\<close> cleared
    by (auto simp: resolve_collision_def get_call_def Let_def split: if_splits)
qed

lemma receiveInvite_result:
  assumes "receiveInvite ident r s t = (r', result)" and "t < expiresAt s"
  obtains e where "result = Inl e" and "r' = r"
  | u where "result = Inr u" and "r' = r(callId s \<mapsto> u)" and "callId u = callId s" and "state u = Ringing"
  using assms by (auto simp: receiveInvite_def process_call_def get_call_def save_call_def transitionCall_def
      terminal_call_def invitationBound_def split: if_splits sum.splits)

lemma first_signal_ok:
  assumes ok: "composition_ok st" and none: "calls st (sigCallId sig) = None"
  shows "composition_ok (fst (first_signal cfg env st sig))"
proof (cases "media_of (sigMediaMode sig)")
  case None
  then show ?thesis using ok by (simp add: first_signal_def)
next
  case (Some media)
  obtain st1 result where way: "resolve_collision cfg env st sig media = (st1, result)" by (rule prod.exhaust)
  have st1: "composition_ok st1" using resolve_collision_ok [OF ok, of cfg env sig media] way by simp
  define s where "s = session_for cfg sig media Inviting (timestamp sig)"
  have s: "callId s = sigCallId sig" "expiresAt s = sigExpiresAt sig" by (simp_all add: s_def session_for_def)
  obtain r answer where received: "receiveInvite (identity cfg) (calls st1) s (now env) = (r, answer)"
    by (rule prod.exhaust)
  show ?thesis
  proof (cases "result = Inr True \<and> now env < sigExpiresAt sig")
    case False
    then have "fst (first_signal cfg env st sig) \<in> {st, st1}"
      using Some way by (auto simp: first_signal_def split: sum.split bool.split)
    then show ?thesis using ok st1 by auto
  next
    case True
    then have idle: "activeCallId st1 = None" using collision_gives_way [OF ok none] way by simp
    from True have "now env < expiresAt s" using s by simp
    with received show ?thesis
    proof (cases rule: receiveInvite_result)
      case (1 e)
      then have "fst (first_signal cfg env st sig) \<in> {st, st1}"
        using Some way True received by (auto simp: first_signal_def s_def [symmetric])
      then show ?thesis using ok st1 by auto
    next
      case (2 u)
      define st2 where "st2 = notify (scheduleExpiry (st1\<lparr>calls := r, activeCallId := Some (sigCallId sig)\<rparr>) u) u"
      have "composition_ok st2"
        using st1 idle 2 s by (auto simp: st2_def composition_ok_def one_call_def repository_ok_def terminal_call_def)
      moreover have "fst (first_signal cfg env st sig) \<in> {st, st2}"
        using Some way True received 2 by (auto simp: first_signal_def s_def [symmetric] st2_def)
      ultimately show ?thesis using ok by auto
    qed
  qed
qed

lemma later_signal_ok:
  assumes ok: "composition_ok st"
  shows "composition_ok (fst (later_signal cfg env st existing sig))"
proof -
  have ends: "composition_ok (fst (case event_and_notify st (sigCallId sig) ev (now env) of
      (st1, Inl _) \<Rightarrow> (st1, Inl e) | (st1, Inr _) \<Rightarrow> (st1, Inr ())))" for ev and e :: string
    using event_and_notify_ok [OF ok, of "sigCallId sig" ev "now env"] by (auto split: prod.split sum.split)
  then show ?thesis
    using ok by (auto simp: later_signal_def composition_ok_def [of "pendingMedia_update _ _"]
        composition_ok_def [of "emit _ _"] composition_ok_def [of "sendCompetingResponse _ _ _ _ _"]
        composition_ok_def [of st] split: option.split)
qed

lemma on_call_signal_ok:
  assumes "composition_ok st"
  shows "composition_ok (fst (on_call_signal cfg env st sig))"
  using assms first_signal_ok later_signal_ok by (auto simp: on_call_signal_def get_call_def split: option.split)

lemma signal_arrives_ok:
  assumes ok: "composition_ok st"
  shows "composition_ok (fst (signal_arrives cfg env st v))"
proof -
  have later: "composition_ok (st\<lparr>claims := c\<rparr>)" "composition_ok (emit e st)" for c e
    using ok by (simp_all add: composition_ok_def)
  show ?thesis
    by (auto simp: signal_arrives_def later ok Let_def split: sum.split transport_result.split prod.split
        intro!: on_call_signal_ok)
qed

lemma replay_media_simps [simp]:
  "calls (replay_media st sigs) = calls st" "activeCallId (replay_media st sigs) = activeCallId st"
  by (induction sigs arbitrary: st) (auto split: option.split)

lemma service_event_ok:
  assumes "composition_ok st"
  shows "composition_ok (fst (service_event st cid (negotiation_event n) t))"
proof -
  obtain st1 result where step: "service_event st cid (negotiation_event n) t = (st1, result)" by (rule prod.exhaust)
  show ?thesis
  proof (cases result)
    case (Inl e)
    then show ?thesis using step assms service_event_failed [OF step [unfolded Inl]] by simp
  next
    case (Inr u)
    moreover have "negotiation_event n \<in> {Accept, Connect, ConnectedEvent, Reconnect, Reject}" by (cases n) simp_all
    ultimately show ?thesis using event_without_notice [OF assms step [unfolded Inr]] step by simp
  qed
qed

lemma composition_step_ok:
  assumes "composition_ok st"
  shows "composition_ok (fst (composition_step cfg st e))"
proof -
  obtain env q where e: "e = (env, q)" by (rule prod.exhaust)
  show ?thesis unfolding e
  proof (cases q)
    case (Respond a cid)
    then show "composition_ok (fst (composition_step cfg st (env, q)))"
      using respond_ok [OF assms, of "answer_event a" cfg env cid] by (cases a) simp_all
  qed (use assms in \<open>simp_all add: place_call_ok end_call_ok terminateLocally_ok expiry_fires_ok signal_arrives_ok
      service_event_ok, auto simp: sendMediaSignal_def onMediaSignal_def Let_def composition_ok_def
      split: sum.split option.split prod.split\<close>)
qed

interpretation composition: invariant_machine "composition_step cfg" composition_ok for cfg
  by unfold_locales (rule composition_step_ok)


section \<open>Simultaneous invitations\<close>

text \<open>A composition whose active call is an invitation that is still open.\<close>

definition inviting_with :: "composition \<Rightarrow> int \<Rightarrow> string \<Rightarrow> bool" where
  "inviting_with st t cid \<longleftrightarrow> activeCallId st = Some cid \<and>
     (case calls st cid of Some s \<Rightarrow> callId s = cid \<and> state s = Inviting \<and> t < expiresAt s | None \<Rightarrow> False)"

lemma collision_outcome:
  assumes "inviting_with st (now env) a" and "sigCallId sig \<noteq> a"
  shows "snd (resolve_collision cfg env st sig media) = Inr (a > sigCallId sig)"
  using assms
  by (auto simp: inviting_with_def resolve_collision_def get_call_def Let_def event_and_notify_def
      service_event_def process_call_def transitionCall_def terminal_call_def invitationBound_def
      split: option.splits)

text \<open>
  C24. When two parties invite each other at the same time, exactly one of the two
  invitations goes on: the side that gives way to the other's call is the one
  whose own call the other side refuses.
\<close>

theorem simultaneous_invitations_agree:
  assumes "inviting_with st (now env) a" and "inviting_with st' (now env') b" and "a \<noteq> b"
    and "sigCallId sig = b" and "sigCallId sig' = a"
  shows "(snd (resolve_collision cfg env st sig media) = Inr True) \<noteq>
    (snd (resolve_collision cfg' env' st' sig' media') = Inr True)"
proof -
  have "snd (resolve_collision cfg env st sig media) = Inr (a > b)"
    using collision_outcome assms by metis
  moreover have "snd (resolve_collision cfg' env' st' sig' media') = Inr (b > a)"
    using collision_outcome assms by metis
  moreover have "(a > b) \<noteq> (b > a)"
    using \<open>a \<noteq> b\<close> by (cases a b rule: linorder_cases) auto
  ultimately show ?thesis by simp
qed

section \<open>A rejection that cannot be sent\<close>

lemma unsent: "\<not> relayed env \<Longrightarrow> isl (snd (sendEvent cfg env st s ev seq k body))"
  by (auto simp: sendEvent_def Let_def split: sum.split prod.split)

text \<open>
  C34. A ringing call that is rejected while the relay takes no signal is finished
  in the repository but stays the active call: every call placed afterwards is
  refused as if one were still ringing.
\<close>

theorem unsent_rejection_stays_busy:
  assumes "calls st cid = Some s" and "callId s = cid" and "state s = Ringing" and "now env < expiresAt s"
    and "activeCallId st = Some cid" and "assertVerifiedContact cfg env = Inr ()" and "\<not> relayed env"
    and "assertVerifiedContact cfg env' = Inr ()"
  shows "place_call cfg env' (fst (respond cfg env st cid Reject)) media =
    (fst (respond cfg env st cid Reject), Inl ''Call already active or ringing.'')"
proof -
  let ?u = "s\<lparr>state := Rejected, updatedAt := now env\<rparr>"
  define st1 where "st1 = st\<lparr>calls := save_call (calls st) ?u\<rparr>"
  have step: "service_event st cid Reject (now env) = (st1, Inr ?u)"
    using assms by (simp add: st1_def service_event_def process_call_def get_call_def transitionCall_def
        terminal_call_def invitationBound_def)
  define st2 where "st2 = st1\<lparr>sequences := (sequences st1)(cid \<mapsto> next_sequence st1 cid 0)\<rparr>"
  obtain st3 sent where sent: "sendEvent cfg env st2 ?u Reject (next_sequence st1 cid 0) ''control'' VUndefined = (st3, sent)"
    by (rule prod.exhaust)
  obtain e where "sent = Inl e"
    using unsent [OF assms(7), of cfg st2 ?u Reject "next_sequence st1 cid 0" "''control''" VUndefined] sent
    by (cases sent) auto
  then have "fst (respond cfg env st cid Reject) = st3"
    using assms(6) step sent by (simp add: respond_def Let_def st2_def)
  moreover have "activeCallId st3 = Some cid"
    using sendEvent_result(2) [OF sent] assms(5) by (simp add: st2_def st1_def)
  ultimately show ?thesis using assms(8) by (simp add: place_call_def)
qed

section \<open>Examples\<close>

definition sample_config :: call_config where
  "sample_config = \<lparr>sha256 = (\<lambda>_. []), identity = sample_members, endpoint = sample_endpoint\<rparr>"

definition sample_surroundings :: "bool \<Rightarrow> surroundings" where
  "sample_surroundings reaches = \<lparr>now = 1000, trusted = True, relayed = reaches, freshId = ''call'', freshNonce = ''n''\<rparr>"

definition sample_composition :: "string \<Rightarrow> call_state \<Rightarrow> composition" where
  "sample_composition cid phase = (new_composition 0)\<lparr>calls := [cid \<mapsto> (sample_call phase)\<lparr>callId := cid\<rparr>],
     activeCallId := Some cid\<rparr>"

theorem simultaneous_invitations_agree_witness:
  "(snd (resolve_collision sample_config (sample_surroundings True) (sample_composition ''a'' Inviting)
       (sample_signal [] VUndefined 1\<lparr>sigCallId := ''b''\<rparr>) Audio) = Inr True) \<noteq>
   (snd (resolve_collision sample_config (sample_surroundings False) (sample_composition ''b'' Inviting)
       (sample_signal [] VUndefined 1\<lparr>sigCallId := ''a''\<rparr>) Audio) = Inr True)"
  by (rule simultaneous_invitations_agree [where a = "''a''" and b = "''b''"])
    (simp_all add: inviting_with_def sample_composition_def sample_surroundings_def sample_call_def
      new_composition_def)

theorem unsent_rejection_stays_busy_witness:
  "snd (place_call sample_config (sample_surroundings True)
     (fst (respond sample_config (sample_surroundings False) (sample_composition ''call'' Ringing) ''call'' Reject))
     Audio) = Inl ''Call already active or ringing.''"
proof -
  have trust: "assertVerifiedContact sample_config (sample_surroundings b) = Inr ()" for b
    by (simp add: assertVerifiedContact_def sample_config_def sample_surroundings_def localParticipant_def sample_simps)
  show ?thesis
    by (subst unsent_rejection_stays_busy [where s = "(sample_call Ringing)\<lparr>callId := ''call''\<rparr>"])
      (simp_all add: trust [unfolded sample_surroundings_def] sample_composition_def sample_surroundings_def sample_call_def new_composition_def)
qed

end
