(* ===== verification/DeviceLifecycle.thy ===== *)
theory DeviceLifecycle
  imports DeviceIdentity
begin

text \<open>
  Device enrollment and revocation: \<open>service/src/devices/lifecycle.ts\<close> and the
  issued contexts of \<open>authenticatedContext.ts\<close>. The service is written over its
  persistence interface (\<open>read\<close>, \<open>readAuthorization\<close>, the two commits), its
  verifier and its clock, which are arguments here; the interface's laws are the
  locale \<open>lifecycle_persistence\<close>, under which the service's guarantees are proved
  once. \<open>DeviceStore\<close> provides the implementation the program uses.
  Payloads are taken at their declared types. The clock is a function of the
  reading's number, since an operation may read it several times.
\<close>

section \<open>Data\<close>

datatype auth_operation = Enroll | Revoke

record sender_identity =
  senderDeviceId :: string
  senderIdentityReference :: string
  senderScope :: string
  verified :: bool

record device_context =
  contextRef :: nat
  cryptoSession :: nat
  conversationId :: string
  userScope :: string
  authenticatedSender :: sender_identity

record enrollment_request =
  requestScope :: string
  requestNonce :: string
  requestedDeviceId :: string
  requestedPublicIdentityReference :: string
  requestAlgorithm :: string
  purpose :: string
  knownEpoch :: int
  requestCreatedAt :: int
  requestExpiresAt :: int

record authorization =
  authVersion :: int
  operation :: auth_operation
  authScope :: string
  authorDeviceId :: string
  authorIdentityReference :: string
  targetDeviceId :: string
  targetPublicIdentityReference :: "string option"
  targetAlgorithm :: "string option"
  previousEpoch :: int
  authPreviousCommitment :: string
  transactionNonce :: string
  sequence :: int
  authCreatedAt :: int
  authExpiresAt :: int
  authorizationDigest :: string

text \<open>An enrollment confirmation names the target's identity; a revocation confirmation does not.\<close>

record confirmation =
  confVersion :: int
  confAuthorizationDigest :: string
  confTargetDeviceId :: string
  confTargetIdentityReference :: "string option"
  confirmationNonce :: string
  confirmedAt :: int
  confExpiresAt :: int
  confirmationDigest :: string

record snapshot =
  snap_list :: device_list
  commitment :: string

record authorization_record =
  rec_operation :: auth_operation
  rec_nonce :: string
  rec_author :: string
  rec_sequence :: int
  rec_digest :: string
  rec_expiresAt :: int

record commit_input =
  scope :: string
  expectedEpoch :: int
  commit_previous :: string
  nextList :: device_list
  nextCommitment :: string
  commit_authorization :: authorization_record

section \<open>Issued contexts\<close>

record session_flags =
  ready :: bool
  encrypted :: bool

record context_proof =
  proof_session :: nat
  proof_payload :: "string option"

record context_world =
  issued :: "nat \<Rightarrow> context_proof option"
  sessions :: "nat \<Rightarrow> session_flags"
  next_ref :: nat

definition issue ::
  "context_world \<Rightarrow> nat \<Rightarrow> string \<Rightarrow> sender_identity \<Rightarrow> string option \<Rightarrow> (context_world \<times> device_context) outcome"
where
  "issue w session conversation sender payload =
     (if \<not> ready (sessions w session) \<or> \<not> encrypted (sessions w session) \<or> \<not> verified sender
      then Inl ''Authenticated device context unavailable.''
      else Inr (w\<lparr>issued := (issued w)(next_ref w \<mapsto>
            \<lparr>proof_session = session, proof_payload = payload\<rparr>),
          next_ref := next_ref w + 1\<rparr>,
        \<lparr>contextRef = next_ref w, cryptoSession = session, conversationId = conversation,
          userScope = senderScope sender, authenticatedSender = sender\<rparr>))"

definition assertIssuedDeviceContext ::
  "context_world \<Rightarrow> device_context \<Rightarrow> jsval option \<Rightarrow> unit outcome"
where
  "assertIssuedDeviceContext w ctx payload =
     (case issued w (contextRef ctx) of
        None \<Rightarrow> Inl ''Invalid authenticated device context.''
      | Some pr \<Rightarrow>
          if \<not> ready (sessions w (proof_session pr)) \<or> \<not> encrypted (sessions w (proof_session pr))
            \<or> proof_session pr \<noteq> cryptoSession ctx
          then Inl ''Invalid authenticated device context.''
          else if proof_payload pr \<noteq> None \<and> (payload = None \<or> proof_payload pr \<noteq> map_option stringify payload)
          then Inl ''Authenticated device payload mismatch.''
          else Inr ())"

definition assertContext :: "context_world \<Rightarrow> device_context \<Rightarrow> jsval option \<Rightarrow> unit outcome" where
  "assertContext w ctx payload =
     and_then (assertIssuedDeviceContext w ctx payload) (\<lambda>_.
       let sender = authenticatedSender ctx in
       if \<not> encrypted (sessions w (cryptoSession ctx)) \<or> \<not> ready (sessions w (cryptoSession ctx))
         \<or> \<not> verified sender
       then Inl ''Authenticated device context unavailable.''
       else if conversationId ctx = [] \<or> userScope ctx = [] \<or> userScope ctx \<noteq> senderScope sender
         \<or> senderDeviceId sender = [] \<or> senderIdentityReference sender = []
       then Inl ''Authenticated device context unavailable.''
       else Inr ())"

section \<open>Checks and digests\<close>

definition assertWindow :: "int \<Rightarrow> int \<Rightarrow> int \<Rightarrow> unit outcome" where
  "assertWindow created expires now =
     require (safe_int created \<and> safe_int expires \<and> created \<le> expires \<and> created \<le> now \<and> now \<le> expires)
       ''Device authorization expired.''"

definition assertAuthor :: "snapshot \<Rightarrow> authorization \<Rightarrow> unit outcome" where
  "assertAuthor st a =
     and_then (some_or ''Authorization issuer unavailable.'' (deviceEntryById (snap_list st) (authorDeviceId a)))
       (\<lambda>author. and_then (assertDeviceCanAuthorize author) (\<lambda>_.
         require (publicIdentityReference author = authorIdentityReference a \<and>
             identityReference (snap_list st) = authScope a \<and> authVersion a = 1 \<and>
             id_16_128 (transactionNonce a) \<and> sequence a = previousEpoch a + 1)
           ''Authorization issuer or scope rejected.''))"

fun operation_name :: "auth_operation \<Rightarrow> string" where
  "operation_name Enroll = ''enroll''"
| "operation_name Revoke = ''revoke''"

definition unsigned_value :: "authorization \<Rightarrow> int \<Rightarrow> (string \<times> jsval) list" where
  "unsigned_value a v =
     [(''version'', VInt v),
      (''operation'', VStr (operation_name (operation a))),
      (''userScope'', VStr (authScope a)),
      (''authorDeviceId'', VStr (authorDeviceId a)),
      (''authorIdentityReference'', VStr (authorIdentityReference a)),
      (''targetDeviceId'', VStr (targetDeviceId a))]
     @ opt_prop ''targetPublicIdentityReference'' VStr (targetPublicIdentityReference a)
     @ opt_prop ''targetAlgorithm'' VStr (targetAlgorithm a)
     @ [(''previousEpoch'', VInt (previousEpoch a)),
        (''previousCommitment'', VStr (authPreviousCommitment a)),
        (''transactionNonce'', VStr (transactionNonce a)),
        (''sequence'', VInt (sequence a)),
        (''createdAt'', VInt (authCreatedAt a)),
        (''expiresAt'', VInt (authExpiresAt a))]"

definition canonicalAuthorization :: "authorization \<Rightarrow> string" where
  "canonicalAuthorization a = stringify (VObj (unsigned_value a 1))"

text \<open>The object that travels: the unsigned fields and the digest.\<close>

definition authorization_value :: "authorization \<Rightarrow> jsval" where
  "authorization_value a =
     VObj (unsigned_value a (authVersion a) @ [(''authorizationDigest'', VStr (authorizationDigest a))])"

definition compute_authorization_digest :: "(u8 list \<Rightarrow> u8 list) \<Rightarrow> authorization \<Rightarrow> string" where
  "compute_authorization_digest sha256 a = digest_hex sha256 (canonicalAuthorization a)"

text \<open>The digest is printed in lower case, so the source's \<open>toLowerCase\<close> leaves it as it is.\<close>

definition verifyAuthorizationDigest :: "(u8 list \<Rightarrow> u8 list) \<Rightarrow> authorization \<Rightarrow> bool" where
  "verifyAuthorizationDigest sha256 a \<longleftrightarrow>
     hex64 (authorizationDigest a) \<and> compute_authorization_digest sha256 a = authorizationDigest a"

definition confirmation_fields :: "confirmation \<Rightarrow> (string \<times> jsval) list" where
  "confirmation_fields c =
     [(''version'', VInt (confVersion c)),
      (''authorizationDigest'', VStr (confAuthorizationDigest c)),
      (''targetDeviceId'', VStr (confTargetDeviceId c))]
     @ opt_prop ''targetIdentityReference'' VStr (confTargetIdentityReference c)
     @ [(''confirmationNonce'', VStr (confirmationNonce c)),
        (''confirmedAt'', VInt (confirmedAt c)),
        (''expiresAt'', VInt (confExpiresAt c))]"

definition canonicalConfirmation :: "confirmation \<Rightarrow> string" where
  "canonicalConfirmation c = stringify (VObj (confirmation_fields c))"

definition confirmation_value :: "confirmation \<Rightarrow> jsval" where
  "confirmation_value c =
     VObj (confirmation_fields c @ [(''confirmationDigest'', VStr (confirmationDigest c))])"

definition compute_confirmation_digest :: "(u8 list \<Rightarrow> u8 list) \<Rightarrow> confirmation \<Rightarrow> string" where
  "compute_confirmation_digest sha256 c = digest_hex sha256 (canonicalConfirmation c)"

definition verifyConfirmationDigest :: "(u8 list \<Rightarrow> u8 list) \<Rightarrow> confirmation \<Rightarrow> bool" where
  "verifyConfirmationDigest sha256 c \<longleftrightarrow>
     hex64 (confirmationDigest c) \<and> compute_confirmation_digest sha256 c = confirmationDigest c"

definition createConfirmation :: "(u8 list \<Rightarrow> u8 list) \<Rightarrow> confirmation \<Rightarrow> confirmation" where
  "createConfirmation sha256 c = c\<lparr>confirmationDigest := compute_confirmation_digest sha256 c\<rparr>"

definition createEnrollmentRequest ::
  "string \<Rightarrow> string \<Rightarrow> string \<Rightarrow> string \<Rightarrow> int \<Rightarrow> int \<Rightarrow> int option \<Rightarrow> string \<Rightarrow> enrollment_request outcome"
where
  "createEnrollmentRequest scopeName device ident alg known now ttlMs nonce =
     (let expires = now + (case ttlMs of None \<Rightarrow> 5 * 60000 | Some t \<Rightarrow> t) in
      if scopeName = [] \<or> device = [] \<or> ident = [] \<or> alg = [] \<or> \<not> id_16_128 nonce
        \<or> \<not> safe_int known \<or> known < 0 \<or> \<not> safe_int now \<or> \<not> safe_int expires \<or> expires \<le> now
      then Inl ''Invalid enrollment request.''
      else Inr \<lparr>requestScope = scopeName, requestNonce = nonce, requestedDeviceId = device,
        requestedPublicIdentityReference = ident, requestAlgorithm = alg,
        purpose = ''device-enrollment'', knownEpoch = known, requestCreatedAt = now,
        requestExpiresAt = expires\<rparr>)"

section \<open>The service\<close>

text \<open>
  What the service is constructed with: SHA-256, the verifier's verdict, the
  clock readings, and the registry of issued contexts.
\<close>

record service_env =
  hash :: "u8 list \<Rightarrow> u8 list"
  verify :: "device_context \<Rightarrow> authorization \<Rightarrow> unit outcome"
  clock :: "nat \<Rightarrow> int"
  world :: context_world

type_synonym reader = "string \<Rightarrow> snapshot option outcome"

definition read_state :: "reader \<Rightarrow> string \<Rightarrow> snapshot outcome" where
  "read_state read s = and_then (read s) (some_or ''Device list unavailable.'')"

definition approveEnrollment ::
  "service_env \<Rightarrow> reader \<Rightarrow> enrollment_request \<Rightarrow> device_context \<Rightarrow> string \<Rightarrow> string \<Rightarrow> authorization outcome"
where
  "approveEnrollment env read req ctx confirmedDevice confirmedIdentity =
     and_then (assertContext (world env) ctx None) (\<lambda>_.
     and_then (require (requestScope req = userScope ctx \<and> purpose req = ''device-enrollment'' \<and>
         requestedDeviceId req = confirmedDevice \<and>
         requestedPublicIdentityReference req = confirmedIdentity) ''Enrollment target mismatch.'') (\<lambda>_.
     and_then (assertWindow (requestCreatedAt req) (requestExpiresAt req) (clock env 0)) (\<lambda>_.
     and_then (read_state read (userScope ctx)) (\<lambda>st.
     and_then (some_or ''Enrollment issuer unavailable.''
         (deviceEntryById (snap_list st) (senderDeviceId (authenticatedSender ctx)))) (\<lambda>author.
     and_then (require (publicIdentityReference author = senderIdentityReference (authenticatedSender ctx))
         ''Enrollment issuer unavailable.'') (\<lambda>_.
     and_then (assertDeviceCanAuthorize author) (\<lambda>_.
     and_then (require (knownEpoch req = epoch (snap_list st)) ''Enrollment epoch mismatch.'') (\<lambda>_.
     and_then (require (deviceEntryById (snap_list st) (requestedDeviceId req) = None)
         ''Device identifier already exists.'') (\<lambda>_.
     let unsigned = \<lparr>authVersion = 1, operation = Enroll, authScope = userScope ctx,
           authorDeviceId = senderDeviceId (authenticatedSender ctx),
           authorIdentityReference = senderIdentityReference (authenticatedSender ctx),
           targetDeviceId = requestedDeviceId req,
           targetPublicIdentityReference = Some (requestedPublicIdentityReference req),
           targetAlgorithm = Some (requestAlgorithm req),
           previousEpoch = epoch (snap_list st), authPreviousCommitment = commitment st,
           transactionNonce = requestNonce req, sequence = epoch (snap_list st) + 1,
           authCreatedAt = clock env 1, authExpiresAt = requestExpiresAt req, authorizationDigest = []\<rparr>
     in Inr (unsigned\<lparr>authorizationDigest := compute_authorization_digest (hash env) unsigned\<rparr>))))))))))"

definition record_of :: "authorization \<Rightarrow> authorization_record" where
  "record_of a = \<lparr>rec_operation = operation a, rec_nonce = transactionNonce a,
     rec_author = authorDeviceId a, rec_sequence = sequence a, rec_digest = authorizationDigest a,
     rec_expiresAt = authExpiresAt a\<rparr>"

definition opt_str :: "string option \<Rightarrow> jsval" where
  "opt_str x = (case x of None \<Rightarrow> VUndefined | Some s \<Rightarrow> VStr s)"

text \<open>The next list: one epoch on, chained to the current commitment, with the given devices.\<close>

definition next_list_value :: "snapshot \<Rightarrow> jsval list \<Rightarrow> jsval" where
  "next_list_value st ds = VObj
     [(''version'', VInt 1), (''identityReference'', VStr (identityReference (snap_list st))),
      (''epoch'', VInt (epoch (snap_list st) + 1)),
      (''previousCommitment'', VStr (commitment st)), (''devices'', VArr ds)]"

text \<open>
  The common end of the three operations: validate the next list, check that it
  follows the current one, and compute its commitment for the commit.
\<close>

definition prepare_commit ::
  "service_env \<Rightarrow> string \<Rightarrow> snapshot \<Rightarrow> jsval list \<Rightarrow> authorization_record \<Rightarrow> commit_input outcome"
where
  "prepare_commit env s st ds r =
     and_then (createDeviceList (next_list_value st ds)) (\<lambda>l.
     and_then (assertNextEpoch (list_value (snap_list st)) (list_value l)) (\<lambda>_.
     and_then (deviceListCommitment (hash env) (list_value l)) (\<lambda>c.
       Inr \<lparr>scope = s, expectedEpoch = epoch (snap_list st), commit_previous = commitment st,
         nextList = l, nextCommitment = c, commit_authorization = r\<rparr>)))"

definition check_enrollment ::
  "service_env \<Rightarrow> reader \<Rightarrow> authorization \<Rightarrow> device_context \<Rightarrow> commit_input outcome"
where
  "check_enrollment env read a ctx =
     and_then (assertContext (world env) ctx (Some (authorization_value a))) (\<lambda>_.
     and_then (verify env ctx a) (\<lambda>_.
     and_then (require (operation a = Enroll \<and> authScope a = userScope ctx \<and>
         authorDeviceId a = senderDeviceId (authenticatedSender ctx) \<and>
         authorIdentityReference a = senderIdentityReference (authenticatedSender ctx))
         ''Enrollment authorization rejected.'') (\<lambda>_.
     and_then (require (verifyAuthorizationDigest (hash env) a) ''Enrollment authorization rejected.'') (\<lambda>_.
     and_then (assertWindow (authCreatedAt a) (authExpiresAt a) (clock env 0)) (\<lambda>_.
     and_then (read_state read (userScope ctx)) (\<lambda>st.
     and_then (require (epoch (snap_list st) = previousEpoch a \<and> commitment st = authPreviousCommitment a)
         ''Enrollment commitment mismatch.'') (\<lambda>_.
     and_then (assertAuthor st a) (\<lambda>_.
     and_then (require (deviceEntryById (snap_list st) (targetDeviceId a) = None)
         ''Device identifier already exists.'') (\<lambda>_.
     and_then (createDeviceEntry (VObj
         [(''deviceId'', VStr (targetDeviceId a)),
          (''publicIdentityReference'', opt_str (targetPublicIdentityReference a)),
          (''algorithm'', opt_str (targetAlgorithm a)),
          (''state'', VStr ''approved_pending_confirmation''),
          (''createdAt'', VInt (authCreatedAt a))])) (\<lambda>entry.
       prepare_commit env (userScope ctx) st
         (map canonicalEntry (devices (snap_list st)) @ [canonicalEntry entry]) (record_of a)))))))))))"

text \<open>The devices after replacing the entry of one device.\<close>

definition replace_entry :: "device_list \<Rightarrow> device_entry \<Rightarrow> device_entry list" where
  "replace_entry l e = map (\<lambda>x. if deviceId x = deviceId e then e else x) (devices l)"

definition check_confirmation ::
  "service_env \<Rightarrow> reader \<Rightarrow> (string \<Rightarrow> string \<Rightarrow> jsval option outcome) \<Rightarrow> authorization \<Rightarrow> device_context \<Rightarrow>
    confirmation \<Rightarrow> commit_input outcome"
where
  "check_confirmation env read readAuthorization a ctx c =
     and_then (assertContext (world env) ctx (Some (VObj
         [(''authorization'', authorization_value a), (''confirmation'', confirmation_value c)]))) (\<lambda>_.
     and_then (require (authScope a = userScope ctx \<and> confVersion c = 1 \<and> id_16_128 (confirmationNonce c))
         ''Enrollment confirmation rejected.'') (\<lambda>_.
     and_then (require (operation a = Enroll \<and> confAuthorizationDigest c = authorizationDigest a \<and>
         confTargetDeviceId c = targetDeviceId a \<and>
         confTargetIdentityReference c = targetPublicIdentityReference a \<and>
         senderDeviceId (authenticatedSender ctx) = targetDeviceId a \<and>
         Some (senderIdentityReference (authenticatedSender ctx)) = targetPublicIdentityReference a)
         ''Enrollment confirmation rejected.'') (\<lambda>_.
     and_then (require (verifyAuthorizationDigest (hash env) a \<and> verifyConfirmationDigest (hash env) c)
         ''Enrollment confirmation rejected.'') (\<lambda>_.
     and_then (assertWindow (authCreatedAt a) (authExpiresAt a) (clock env 0)) (\<lambda>_.
     and_then (assertWindow (confirmedAt c) (confExpiresAt c) (clock env 1)) (\<lambda>_.
     and_then (read_state read (userScope ctx)) (\<lambda>st.
     and_then (require (epoch (snap_list st) = previousEpoch a + 1 \<and>
         (commitment st = authPreviousCommitment a \<or>
          previousCommitment (snap_list st) = Some (authPreviousCommitment a)))
         ''Enrollment confirmation epoch mismatch.'') (\<lambda>_.
     and_then (some_or ''Enrollment target unavailable.''
         (deviceEntryById (snap_list st) (targetDeviceId a))) (\<lambda>target.
     and_then (assertAuthor st a) (\<lambda>_.
     and_then (readAuthorization (userScope ctx) (authorizationDigest a)) (\<lambda>approved.
     and_then (require (case approved of None \<Rightarrow> False | Some v \<Rightarrow>
           get_prop v ''transactionNonce'' = VStr (transactionNonce a) \<and>
           Some (publicIdentityReference target) = confTargetIdentityReference c \<and>
           Some (algorithm target) = targetAlgorithm a)
         ''Enrollment confirmation does not match stored approval.'') (\<lambda>_.
     and_then (require (state target = Approved_pending_confirmation)
         ''Enrollment confirmation state invalid.'') (\<lambda>_.
     and_then (createDeviceEntry (canonicalEntry (target\<lparr>state := Active\<rparr>))) (\<lambda>active.
       prepare_commit env (userScope ctx) st (map canonicalEntry (replace_entry (snap_list st) active))
         \<lparr>rec_operation = Enroll, rec_nonce = confirmationNonce c,
           rec_author = senderDeviceId (authenticatedSender ctx), rec_sequence = sequence a + 1,
           rec_digest = confirmationDigest c, rec_expiresAt = confExpiresAt c\<rparr>))))))))))))))"

definition approveRevocation ::
  "service_env \<Rightarrow> reader \<Rightarrow> string \<Rightarrow> string \<Rightarrow> device_context \<Rightarrow> int \<Rightarrow> authorization outcome"
where
  "approveRevocation env read randomNonce target_id ctx ttlMs =
     and_then (assertContext (world env) ctx None) (\<lambda>_.
     and_then (read_state read (userScope ctx)) (\<lambda>st.
     and_then (some_or ''Revocation issuer unavailable.''
         (deviceEntryById (snap_list st) (senderDeviceId (authenticatedSender ctx)))) (\<lambda>author.
     and_then (some_or ''Device cannot be revoked.'' (deviceEntryById (snap_list st) target_id)) (\<lambda>target.
     and_then (require (publicIdentityReference author = senderIdentityReference (authenticatedSender ctx))
         ''Revocation issuer unavailable.'') (\<lambda>_.
     and_then (assertDeviceCanAuthorize author) (\<lambda>_.
     and_then (require (state target \<noteq> Revoked \<and> deviceId target \<noteq> deviceId author)
         ''Device cannot be revoked.'') (\<lambda>_.
     let unsigned = \<lparr>authVersion = 1, operation = Revoke, authScope = userScope ctx,
           authorDeviceId = senderDeviceId (authenticatedSender ctx),
           authorIdentityReference = senderIdentityReference (authenticatedSender ctx),
           targetDeviceId = target_id, targetPublicIdentityReference = None, targetAlgorithm = None,
           previousEpoch = epoch (snap_list st), authPreviousCommitment = commitment st,
           transactionNonce = randomNonce, sequence = epoch (snap_list st) + 1,
           authCreatedAt = clock env 0, authExpiresAt = clock env 0 + ttlMs, authorizationDigest = []\<rparr>
     in Inr (unsigned\<lparr>authorizationDigest := compute_authorization_digest (hash env) unsigned\<rparr>))))))))"

definition check_revocation ::
  "service_env \<Rightarrow> reader \<Rightarrow> authorization \<Rightarrow> device_context \<Rightarrow> confirmation option \<Rightarrow> commit_input outcome"
where
  "check_revocation env read a ctx conf =
     and_then (some_or ''Explicit revocation confirmation required.'' conf) (\<lambda>c.
     and_then (assertContext (world env) ctx (Some (VObj
         [(''authorization'', authorization_value a), (''confirmation'', confirmation_value c)]))) (\<lambda>_.
     and_then (verify env ctx a) (\<lambda>_.
     and_then (require (operation a = Revoke \<and> authScope a = userScope ctx \<and>
         authorDeviceId a = senderDeviceId (authenticatedSender ctx) \<and>
         authorIdentityReference a = senderIdentityReference (authenticatedSender ctx) \<and>
         confAuthorizationDigest c = authorizationDigest a \<and> confTargetDeviceId c = targetDeviceId a)
         ''Revocation authorization rejected.'') (\<lambda>_.
     and_then (require (verifyConfirmationDigest (hash env) c) ''Revocation confirmation rejected.'') (\<lambda>_.
     and_then (require (verifyAuthorizationDigest (hash env) a) ''Revocation authorization rejected.'') (\<lambda>_.
     and_then (assertWindow (authCreatedAt a) (authExpiresAt a) (clock env 0)) (\<lambda>_.
     and_then (read_state read (userScope ctx)) (\<lambda>st.
     and_then (require (epoch (snap_list st) = previousEpoch a \<and> commitment st = authPreviousCommitment a)
         ''Revocation commitment mismatch.'') (\<lambda>_.
     and_then (assertAuthor st a) (\<lambda>_.
     and_then (assertWindow (confirmedAt c) (confExpiresAt c) (clock env 1)) (\<lambda>_.
     and_then (require (confVersion c = 1 \<and> id_16_128 (confirmationNonce c))
         ''Revocation confirmation rejected.'') (\<lambda>_.
     and_then (some_or ''Device cannot be revoked.'' (deviceEntryById (snap_list st) (targetDeviceId a))) (\<lambda>target.
     and_then (require (state target \<noteq> Revoked \<and> deviceId target \<noteq> authorDeviceId a)
         ''Device cannot be revoked.'') (\<lambda>_.
     and_then (createDeviceEntry (canonicalEntry
         (target\<lparr>state := Revoked, revokedAt := Some (clock env 2)\<rparr>))) (\<lambda>revoked.
       prepare_commit env (userScope ctx) st (map canonicalEntry (replace_entry (snap_list st) revoked))
         (record_of a))))))))))))))))"

text \<open>Commit and return the new snapshot, or leave the store as it is and fail.\<close>

definition commit_with ::
  "('s \<Rightarrow> commit_input \<Rightarrow> 's \<times> unit outcome) \<Rightarrow> 's \<Rightarrow> commit_input outcome \<Rightarrow> 's \<times> snapshot outcome"
where
  "commit_with commit s x =
     (case x of
        Inl e \<Rightarrow> (s, Inl e)
      | Inr i \<Rightarrow>
          let (s', r) = commit s i
          in (s', map_sum id (\<lambda>_. \<lparr>snap_list = nextList i, commitment = nextCommitment i\<rparr>) r))"

definition applyEnrollment ::
  "('s \<Rightarrow> reader) \<Rightarrow> ('s \<Rightarrow> commit_input \<Rightarrow> 's \<times> unit outcome) \<Rightarrow> service_env \<Rightarrow> 's \<Rightarrow>
    authorization \<Rightarrow> device_context \<Rightarrow> 's \<times> snapshot outcome"
where
  "applyEnrollment read commit env s a ctx = commit_with commit s (check_enrollment env (read s) a ctx)"

definition confirmEnrollment ::
  "('s \<Rightarrow> reader) \<Rightarrow> ('s \<Rightarrow> string \<Rightarrow> string \<Rightarrow> jsval option outcome) \<Rightarrow>
    ('s \<Rightarrow> commit_input \<Rightarrow> 's \<times> unit outcome) \<Rightarrow> service_env \<Rightarrow> 's \<Rightarrow>
    authorization \<Rightarrow> device_context \<Rightarrow> confirmation \<Rightarrow> 's \<times> snapshot outcome"
where
  "confirmEnrollment read readAuthorization commit env s a ctx c =
     commit_with commit s (check_confirmation env (read s) (readAuthorization s) a ctx c)"

definition applyRevocation ::
  "('s \<Rightarrow> reader) \<Rightarrow> ('s \<Rightarrow> commit_input \<Rightarrow> 's \<times> unit outcome) \<Rightarrow> service_env \<Rightarrow> 's \<Rightarrow>
    authorization \<Rightarrow> device_context \<Rightarrow> confirmation option \<Rightarrow> 's \<times> snapshot outcome"
where
  "applyRevocation read commit env s a ctx conf =
     commit_with commit s (check_revocation env (read s) a ctx conf)"

section \<open>How a device list may evolve\<close>

text \<open>
  The specification of the lifecycle: a device keeps its identifier, identity
  and algorithm and moves only along permitted transitions; devices never
  disappear; a new device starts out approved but unconfirmed.
\<close>

definition device_follows :: "device_entry \<Rightarrow> device_entry \<Rightarrow> bool" where
  "device_follows e e' \<longleftrightarrow> deviceId e' = deviceId e \<and>
     publicIdentityReference e' = publicIdentityReference e \<and> algorithm e' = algorithm e \<and>
     isValidDeviceLifecycleTransition (state e) (state e')"

definition new_device :: "device_list \<Rightarrow> device_entry \<Rightarrow> bool" where
  "new_device l e \<longleftrightarrow> state e = Approved_pending_confirmation \<and> deviceId e \<notin> deviceId ` set (devices l)"

definition list_follows :: "snapshot \<Rightarrow> device_list \<Rightarrow> bool" where
  "list_follows st l' \<longleftrightarrow>
     identityReference l' = identityReference (snap_list st) \<and> epoch l' = epoch (snap_list st) + 1 \<and>
     previousCommitment l' = Some (commitment st) \<and>
     (\<forall>e\<in>set (devices (snap_list st)). \<exists>e'\<in>set (devices l'). device_follows e e') \<and>
     (\<forall>e'\<in>set (devices l'). new_device (snap_list st) e' \<or>
        (\<exists>e\<in>set (devices (snap_list st)). device_follows e e'))"

text \<open>Any number of such steps, seen from one device list to a later one.\<close>

inductive reaches :: "lifecycle_state \<Rightarrow> lifecycle_state \<Rightarrow> bool" where
  here: "reaches s s"
| further: "reaches s t \<Longrightarrow> isValidDeviceLifecycleTransition t u \<Longrightarrow> reaches s u"

inductive_cases reaches_from: "reaches s u"

definition evolves :: "device_list \<Rightarrow> device_list \<Rightarrow> bool" where
  "evolves l l' \<longleftrightarrow> identityReference l' = identityReference l \<and> epoch l \<le> epoch l' \<and>
     (\<forall>e\<in>set (devices l). \<exists>e'\<in>set (devices l'). deviceId e' = deviceId e \<and>
        publicIdentityReference e' = publicIdentityReference e \<and> algorithm e' = algorithm e \<and>
        reaches (state e) (state e'))"

lemma reaches_trans: "reaches t u \<Longrightarrow> reaches s t \<Longrightarrow> reaches s u"
  by (induction rule: reaches.induct) (auto intro: reaches.intros)

lemma reaches_revoked: "reaches s t \<Longrightarrow> s = Revoked \<Longrightarrow> t = Revoked"
  by (induction rule: reaches.induct) (auto simp: isValidDeviceLifecycleTransition_def)

lemma evolves_refl [simp]: "evolves l l"
  by (auto simp: evolves_def intro: reaches.here)

lemma evolves_trans:
  assumes "evolves l l'" and "evolves l' l''"
  shows "evolves l l''"
proof -
  have "\<exists>e''\<in>set (devices l''). deviceId e'' = deviceId e \<and>
      publicIdentityReference e'' = publicIdentityReference e \<and> algorithm e'' = algorithm e \<and>
      reaches (state e) (state e'')" if "e \<in> set (devices l)" for e
  proof -
    from that assms(1) obtain e' where e': "e' \<in> set (devices l')" "deviceId e' = deviceId e"
      "publicIdentityReference e' = publicIdentityReference e" "algorithm e' = algorithm e"
      "reaches (state e) (state e')" by (auto simp: evolves_def)
    with assms(2) obtain e'' where "e'' \<in> set (devices l'')" "deviceId e'' = deviceId e'"
      "publicIdentityReference e'' = publicIdentityReference e'" "algorithm e'' = algorithm e'"
      "reaches (state e') (state e'')" by (fastforce simp: evolves_def)
    with e' show ?thesis by (metis reaches_trans)
  qed
  with assms show ?thesis by (auto simp: evolves_def)
qed

lemma list_follows_evolves: "list_follows st l' \<Longrightarrow> evolves (snap_list st) l'"
  unfolding list_follows_def evolves_def device_follows_def
  by (auto dest!: bspec intro: reaches.further [OF reaches.here])

section \<open>What the service commits\<close>

lemma find_by_id:
  assumes "deviceEntryById l i = Some e"
  shows "e \<in> set (devices l) \<and> deviceId e = i"
  using assms by (auto simp: deviceEntryById_def find_Some_iff)

lemma find_none: "deviceEntryById l i = None \<longleftrightarrow> i \<notin> deviceId ` set (devices l)"
  by (auto simp: deviceEntryById_def find_None_iff)

lemma same_id_same_entry:
  "list_ok l \<Longrightarrow> e \<in> set (devices l) \<Longrightarrow> e' \<in> set (devices l) \<Longrightarrow> deviceId e = deviceId e' \<Longrightarrow> e = e'"
  by (auto simp: list_ok_def distinct_map inj_on_def)

lemma prepare_commit_ok:
  assumes "prepare_commit env sc st (map canonicalEntry es) r = Inr i" and "list_all entry_ok es"
  shows "scope i = sc \<and> expectedEpoch i = epoch (snap_list st) \<and> commit_previous i = commitment st \<and>
    commit_authorization i = r \<and> list_ok (nextList i) \<and>
    nextList i = \<lparr>identityReference = identityReference (snap_list st), epoch = epoch (snap_list st) + 1,
      previousCommitment = Some (commitment st), devices = es\<rparr> \<and>
    deviceListCommitment (hash env) (list_value (nextList i)) = Inr (nextCommitment i)"
proof -
  from assms(1) obtain l where l: "createDeviceList (next_list_value st (map canonicalEntry es)) = Inr l"
    and i: "nextList i = l" "scope i = sc" "expectedEpoch i = epoch (snap_list st)"
      "commit_previous i = commitment st" "commit_authorization i = r"
      "deviceListCommitment (hash env) (list_value l) = Inr (nextCommitment i)"
    by (auto simp: prepare_commit_def)
  have "l = \<lparr>identityReference = identityReference (snap_list st), epoch = epoch (snap_list st) + 1,
      previousCommitment = Some (commitment st), devices = es\<rparr>"
    using l create_entries_canonical [OF assms(2)]
    by (auto simp: createDeviceList_def next_list_value_def split: if_splits sum.splits)
  with i createDeviceList_ok [OF l] show ?thesis by simp
qed

lemma commit_with_ok:
  assumes "commit_with commit s x = (s', Inr st')"
  shows "\<exists>i. x = Inr i \<and> commit s i = (s', Inr ()) \<and>
    st' = \<lparr>snap_list = nextList i, commitment = nextCommitment i\<rparr>"
proof (cases x)
  case (Inr i)
  then show ?thesis
    using assms by (cases "commit s i"; cases "snd (commit s i)") (simp_all add: commit_with_def)
qed (use assms in \<open>simp add: commit_with_def\<close>)

lemma commit_with_err:
  assumes "commit_with commit s x = (s', Inl e)"
  shows "s' = s \<or> (\<exists>i e'. x = Inr i \<and> commit s i = (s', Inl e'))"
proof (cases x)
  case (Inr i)
  then show ?thesis
    using assms by (cases "commit s i"; cases "snd (commit s i)") (simp_all add: commit_with_def)
qed (use assms in \<open>simp add: commit_with_def\<close>)

text \<open>Replacing an entry by one that follows it, and adding a new one, are lifecycle steps.\<close>

lemma replace_follows:
  assumes "list_ok (snap_list st)" and "t \<in> set (devices (snap_list st))" and "device_follows t t'"
    and "identityReference l' = identityReference (snap_list st)" and "epoch l' = epoch (snap_list st) + 1"
    and "previousCommitment l' = Some (commitment st)" and "devices l' = replace_entry (snap_list st) t'"
  shows "list_follows st l'"
proof -
  let ?l = "snap_list st"
  have step: "device_follows e (if deviceId e = deviceId t' then t' else e)" if "e \<in> set (devices ?l)" for e
  proof (cases "deviceId e = deviceId t'")
    case True
    with assms(3) have "deviceId e = deviceId t" by (simp add: device_follows_def)
    with same_id_same_entry [OF assms(1) that assms(2)] have "e = t" .
    with assms(3) True show ?thesis by simp
  qed (simp add: device_follows_def isValidDeviceLifecycleTransition_def)
  moreover define f where "f = (\<lambda>x. if deviceId x = deviceId t' then t' else x)"
  ultimately have "\<forall>e\<in>set (devices ?l). device_follows e (f e)" by simp
  moreover have "set (devices l') = f ` set (devices ?l)"
    using assms(7) by (simp add: replace_entry_def f_def)
  ultimately show ?thesis
    unfolding list_follows_def using assms(4-6) by (metis imageE imageI)
qed

lemma append_follows:
  assumes "identityReference l' = identityReference (snap_list st)" and "epoch l' = epoch (snap_list st) + 1"
    and "previousCommitment l' = Some (commitment st)" and "devices l' = devices (snap_list st) @ [e]"
    and "new_device (snap_list st) e"
  shows "list_follows st l'"
proof -
  have "device_follows x x" for x
    by (simp add: device_follows_def isValidDeviceLifecycleTransition_def)
  with assms show ?thesis by (auto simp: list_follows_def)
qed

lemma entry_fields:
  assumes "createDeviceEntry (canonicalEntry e) = Inr e'"
  shows "e' = e \<and> entry_ok e"
proof -
  have ok: "entry_ok e'" using assms by (rule createDeviceEntry_ok)
  have "e' = e"
    using assms by (cases "revokedAt e"; cases "label e")
      (auto simp: createDeviceEntry_def canonicalEntry_def opt_prop_def optional_def split: if_splits)
  with ok show ?thesis by simp
qed

lemma entries_ok: "list_ok l \<Longrightarrow> e \<in> set (devices l) \<Longrightarrow> entry_ok e"
  by (auto simp: list_ok_def list_all_iff)

lemma replace_entries_ok: "list_ok l \<Longrightarrow> entry_ok e \<Longrightarrow> list_all entry_ok (replace_entry l e)"
  by (auto simp: replace_entry_def list_all_iff entries_ok)

lemma read_state_ok: "read_state read sc = Inr st \<longleftrightarrow> read sc = Inr (Some st)"
  by (auto simp: read_state_def)

text \<open>What each operation hands to the commit, given a well-formed current list.\<close>

lemma check_enrollment_ok:
  assumes "check_enrollment env read a ctx = Inr i"
    and ok: "\<forall>st. read (userScope ctx) = Inr (Some st) \<longrightarrow> list_ok (snap_list st)"
  shows "\<exists>st. read (scope i) = Inr (Some st) \<and> list_follows st (nextList i) \<and>
    assertAuthor st a = Inr () \<and> commit_authorization i = record_of a \<and> scope i = userScope ctx"
proof -
  from assms(1) obtain st e where st: "read (userScope ctx) = Inr (Some st)"
    and auth: "assertAuthor st a = Inr ()"
    and fresh: "deviceEntryById (snap_list st) (targetDeviceId a) = None"
    and e: "createDeviceEntry (VObj [(''deviceId'', VStr (targetDeviceId a)),
          (''publicIdentityReference'', opt_str (targetPublicIdentityReference a)),
          (''algorithm'', opt_str (targetAlgorithm a)),
          (''state'', VStr ''approved_pending_confirmation''),
          (''createdAt'', VInt (authCreatedAt a))]) = Inr e"
    and p: "prepare_commit env (userScope ctx) st
         (map canonicalEntry (devices (snap_list st) @ [e])) (record_of a) = Inr i"
    unfolding check_enrollment_def by (auto simp: read_state_ok)
  have "deviceId e = targetDeviceId a \<and> state e = Approved_pending_confirmation"
    using e by (auto simp: createDeviceEntry_def parse_state_def split: if_splits)
  with fresh have new: "new_device (snap_list st) e" by (simp add: new_device_def find_none)
  have "list_all entry_ok (devices (snap_list st) @ [e])"
    using ok st createDeviceEntry_ok [OF e] by (simp add: list_ok_def)
  from prepare_commit_ok [OF p this] new append_follows [of "nextList i" st e]
  have "scope i = userScope ctx" "list_follows st (nextList i)" "commit_authorization i = record_of a"
    by auto
  with st auth show ?thesis by auto
qed

lemma check_confirmation_ok:
  assumes "check_confirmation env read ra a ctx c = Inr i"
    and ok: "\<forall>st. read (userScope ctx) = Inr (Some st) \<longrightarrow> list_ok (snap_list st)"
  shows "\<exists>st. read (scope i) = Inr (Some st) \<and> list_follows st (nextList i) \<and>
    assertAuthor st a = Inr () \<and> rec_nonce (commit_authorization i) = confirmationNonce c \<and>
    scope i = userScope ctx"
proof -
  from assms(1) obtain st t e where st: "read (userScope ctx) = Inr (Some st)"
    and auth: "assertAuthor st a = Inr ()"
    and t: "deviceEntryById (snap_list st) (targetDeviceId a) = Some t"
      "state t = Approved_pending_confirmation"
    and e: "createDeviceEntry (canonicalEntry (t\<lparr>state := Active\<rparr>)) = Inr e"
    and p: "prepare_commit env (userScope ctx) st (map canonicalEntry (replace_entry (snap_list st) e))
         \<lparr>rec_operation = Enroll, rec_nonce = confirmationNonce c,
           rec_author = senderDeviceId (authenticatedSender ctx), rec_sequence = sequence a + 1,
           rec_digest = confirmationDigest c, rec_expiresAt = confExpiresAt c\<rparr> = Inr i"
    unfolding check_confirmation_def by (auto simp: read_state_ok)
  from ok st have lok: "list_ok (snap_list st)" by simp
  from entry_fields [OF e] have "e = t\<lparr>state := Active\<rparr>" and "entry_ok e" by auto
  then have f: "device_follows t e"
    using t by (simp add: device_follows_def isValidDeviceLifecycleTransition_def)
  from prepare_commit_ok [OF p replace_entries_ok [OF lok \<open>entry_ok e\<close>]]
    replace_follows [OF lok _ f, of "nextList i"] find_by_id [OF t(1)]
  have "scope i = userScope ctx" "list_follows st (nextList i)"
    "rec_nonce (commit_authorization i) = confirmationNonce c" by auto
  with st auth show ?thesis by auto
qed

lemma check_revocation_ok:
  assumes "check_revocation env read a ctx conf = Inr i"
    and ok: "\<forall>st. read (userScope ctx) = Inr (Some st) \<longrightarrow> list_ok (snap_list st)"
  shows "\<exists>st. read (scope i) = Inr (Some st) \<and> list_follows st (nextList i) \<and>
    assertAuthor st a = Inr () \<and> commit_authorization i = record_of a \<and> scope i = userScope ctx \<and>
    (\<exists>e\<in>set (devices (nextList i)). deviceId e = targetDeviceId a \<and> state e = Revoked)"
proof -
  from assms(1) obtain st t e where st: "read (userScope ctx) = Inr (Some st)"
    and auth: "assertAuthor st a = Inr ()"
    and t: "deviceEntryById (snap_list st) (targetDeviceId a) = Some t" "state t \<noteq> Revoked"
    and e: "createDeviceEntry (canonicalEntry (t\<lparr>state := Revoked, revokedAt := Some (clock env 2)\<rparr>)) = Inr e"
    and p: "prepare_commit env (userScope ctx) st (map canonicalEntry (replace_entry (snap_list st) e))
         (record_of a) = Inr i"
    unfolding check_revocation_def by (auto simp: read_state_ok)
  from ok st have lok: "list_ok (snap_list st)" by simp
  from entry_fields [OF e] have er: "e = t\<lparr>state := Revoked, revokedAt := Some (clock env 2)\<rparr>" and "entry_ok e"
    by auto
  then have f: "device_follows t e"
    using t by (cases "state t") (simp_all add: device_follows_def isValidDeviceLifecycleTransition_def)
  note pc = prepare_commit_ok [OF p replace_entries_ok [OF lok \<open>entry_ok e\<close>]]
  from pc replace_follows [OF lok _ f, of "nextList i"] find_by_id [OF t(1)]
  have "scope i = userScope ctx" "list_follows st (nextList i)" "commit_authorization i = record_of a" by auto
  moreover have "e \<in> set (devices (nextList i))" "deviceId e = targetDeviceId a" "state e = Revoked"
    using pc er find_by_id [OF t(1)] by (auto simp: replace_entry_def)
  ultimately show ?thesis using st auth by auto
qed

section \<open>The persistence interface\<close>

text \<open>
  What the service relies on: a read answers what is stored and stored lists are
  well formed; a commit that succeeds stores its list for its scope and for no
  other and claims its nonce, which was free before; a commit that fails changes nothing.
\<close>

locale lifecycle_persistence =
  fixes read :: "'s \<Rightarrow> string \<Rightarrow> snapshot option outcome"
    and readAuthorization :: "'s \<Rightarrow> string \<Rightarrow> string \<Rightarrow> jsval option outcome"
    and commit :: "'s \<Rightarrow> commit_input \<Rightarrow> 's \<times> unit outcome"
    and stored :: "'s \<Rightarrow> string \<Rightarrow> snapshot option"
    and used :: "'s \<Rightarrow> string \<Rightarrow> string set"
    and inv :: "'s \<Rightarrow> bool"
  assumes read_stored: "read s sc = Inr (Some st) \<Longrightarrow> stored s sc = Some st"
    and stored_ok: "stored s sc = Some st \<Longrightarrow> list_ok (snap_list st)"
    and commit_inv: "inv s \<Longrightarrow> inv (fst (commit s i))"
    and commit_stores: "inv s \<Longrightarrow> commit s i = (s', Inr u) \<Longrightarrow>
      stored s' (scope i) = Some \<lparr>snap_list = nextList i, commitment = nextCommitment i\<rparr>"
    and commit_frame: "inv s \<Longrightarrow> commit s i = (s', Inr u) \<Longrightarrow> sc \<noteq> scope i \<Longrightarrow> stored s sc = Some st \<Longrightarrow>
      stored s' sc = Some st"
    and commit_fails: "inv s \<Longrightarrow> commit s i = (s', Inl e) \<Longrightarrow> s' = s"
    and commit_claims: "inv s \<Longrightarrow> commit s i = (s', Inr u) \<Longrightarrow>
      rec_nonce (commit_authorization i) \<in> used s' (scope i) - used s (scope i)"
    and commit_keeps: "inv s \<Longrightarrow> used s sc \<subseteq> used (fst (commit s i)) sc"
begin

lemma read_list_ok: "\<forall>st. read s sc = Inr (Some st) \<longrightarrow> list_ok (snap_list st)"
  using read_stored stored_ok by blast

text \<open>A committed operation is one lifecycle step of its scope.\<close>

lemma committed_step:
  assumes "inv s" and "commit_with commit s x = (s', Inr st')"
    and "\<And>i. x = Inr i \<Longrightarrow> \<exists>st. read s (scope i) = Inr (Some st) \<and> list_follows st (nextList i)"
  shows "\<exists>sc st. stored s sc = Some st \<and> stored s' sc = Some st' \<and> list_follows st (snap_list st') \<and>
    (\<forall>sc' st''. sc' \<noteq> sc \<longrightarrow> stored s sc' = Some st'' \<longrightarrow> stored s' sc' = Some st'')"
proof -
  from commit_with_ok [OF assms(2)] obtain i where i: "x = Inr i" "commit s i = (s', Inr ())"
    "st' = \<lparr>snap_list = nextList i, commitment = nextCommitment i\<rparr>" by auto
  with assms(3) obtain st where "read s (scope i) = Inr (Some st)" "list_follows st (nextList i)" by blast
  with i have "stored s (scope i) = Some st" "stored s' (scope i) = Some st'" "list_follows st (snap_list st')"
    using read_stored commit_stores [OF assms(1)] by auto
  moreover have "\<forall>sc' st''. sc' \<noteq> scope i \<longrightarrow> stored s sc' = Some st'' \<longrightarrow> stored s' sc' = Some st''"
    using commit_frame [OF assms(1) i(2)] by blast
  ultimately show ?thesis by blast
qed

lemma failed_step: "inv s \<Longrightarrow> commit_with commit s x = (s', Inl e) \<Longrightarrow> s' = s"
  using commit_with_err commit_fails by metis

lemma step_evolves:
  assumes "inv s" and "commit_with commit s x = (s', r)"
    and "\<And>i. x = Inr i \<Longrightarrow> \<exists>st. read s (scope i) = Inr (Some st) \<and> list_follows st (nextList i)"
    and stored: "stored s sc = Some st"
  shows "\<exists>st'. stored s' sc = Some st' \<and> evolves (snap_list st) (snap_list st')"
proof (cases r)
  case (Inl e)
  with assms failed_step show ?thesis by fastforce
next
  case (Inr st')
  with assms(2) committed_step [OF assms(1) _ assms(3)] obtain sc' st0 where
    c: "stored s sc' = Some st0" "stored s' sc' = Some st'" "list_follows st0 (snap_list st')"
    and f: "\<forall>sc0 st''. sc0 \<noteq> sc' \<longrightarrow> stored s sc0 = Some st'' \<longrightarrow> stored s' sc0 = Some st''" by blast
  show ?thesis
  proof (cases "sc = sc'")
    case True
    with c stored list_follows_evolves show ?thesis by auto
  next
    case False
    with f stored show ?thesis by auto
  qed
qed

lemma applyEnrollment_evolves:
  "inv s \<Longrightarrow> applyEnrollment read commit env s a ctx = (s', r) \<Longrightarrow> stored s sc = Some st \<Longrightarrow>
    \<exists>st'. stored s' sc = Some st' \<and> evolves (snap_list st) (snap_list st')"
  unfolding applyEnrollment_def
  by (erule (1) step_evolves) (use check_enrollment_ok read_list_ok in blast)+

lemma confirmEnrollment_evolves:
  "inv s \<Longrightarrow> confirmEnrollment read readAuthorization commit env s a ctx c = (s', r) \<Longrightarrow> stored s sc = Some st \<Longrightarrow>
    \<exists>st'. stored s' sc = Some st' \<and> evolves (snap_list st) (snap_list st')"
  unfolding confirmEnrollment_def
  by (erule (1) step_evolves) (use check_confirmation_ok read_list_ok in blast)+

lemma applyRevocation_evolves:
  "inv s \<Longrightarrow> applyRevocation read commit env s a ctx conf = (s', r) \<Longrightarrow> stored s sc = Some st \<Longrightarrow>
    \<exists>st'. stored s' sc = Some st' \<and> evolves (snap_list st) (snap_list st')"
  unfolding applyRevocation_def
  by (erule (1) step_evolves) (use check_revocation_ok read_list_ok in blast)+

text \<open>Nonces are claimed once.\<close>

lemma commit_with_fst: "fst (commit_with commit s x) = (case x of Inl _ \<Rightarrow> s | Inr i \<Rightarrow> fst (commit s i))"
  by (simp add: commit_with_def Let_def split: sum.split prod.split)

lemma step_inv: "inv s \<Longrightarrow> inv (fst (commit_with commit s x))"
  by (simp add: commit_with_fst commit_inv split: sum.split)

lemma step_keeps: "inv s \<Longrightarrow> used s sc \<subseteq> used (fst (commit_with commit s x)) sc"
  using commit_keeps by (simp add: commit_with_fst split: sum.split)

lemma step_claims:
  assumes "inv s" and "commit_with commit s x = (s', Inr st')"
  shows "\<exists>i. x = Inr i \<and> rec_nonce (commit_authorization i) \<in> used s' (scope i) - used s (scope i)"
  using commit_with_ok [OF assms(2)] commit_claims [OF assms(1)] by blast

lemma applyEnrollment_claims:
  assumes "inv s" and "applyEnrollment read commit env s a ctx = (s', Inr st')"
  shows "transactionNonce a \<in> used s' (userScope ctx) - used s (userScope ctx)"
  using step_claims [OF assms(1) assms(2) [unfolded applyEnrollment_def]] check_enrollment_ok [OF _ read_list_ok]
  by (fastforce simp: record_of_def)

lemma confirmEnrollment_claims:
  assumes "inv s" and "confirmEnrollment read readAuthorization commit env s a ctx c = (s', Inr st')"
  shows "confirmationNonce c \<in> used s' (userScope ctx) - used s (userScope ctx)"
  using step_claims [OF assms(1) assms(2) [unfolded confirmEnrollment_def]] check_confirmation_ok [OF _ read_list_ok]
  by fastforce

lemma applyRevocation_claims:
  assumes "inv s" and "applyRevocation read commit env s a ctx conf = (s', Inr st')"
  shows "transactionNonce a \<in> used s' (userScope ctx) - used s (userScope ctx)"
  using step_claims [OF assms(1) assms(2) [unfolded applyRevocation_def]] check_revocation_ok [OF _ read_list_ok]
  by (fastforce simp: record_of_def)

text \<open>A successful operation was authorised by a device that is active in the stored list.\<close>

lemma revocation_effect:
  assumes inv: "inv s" and rev: "applyRevocation read commit env s a ctx conf = (s', Inr st')"
  shows "\<exists>st author. stored s (userScope ctx) = Some st \<and> stored s' (userScope ctx) = Some st' \<and>
    list_follows st (snap_list st') \<and> author \<in> set (devices (snap_list st)) \<and>
    deviceId author = authorDeviceId a \<and> state author = Active \<and>
    (\<exists>e\<in>set (devices (snap_list st')). deviceId e = targetDeviceId a \<and> state e = Revoked)"
proof -
  from commit_with_ok [OF rev [unfolded applyRevocation_def]]
  obtain i where i: "check_revocation env (read s) a ctx conf = Inr i" "commit s i = (s', Inr ())"
    "st' = \<lparr>snap_list = nextList i, commitment = nextCommitment i\<rparr>" by blast
  from check_revocation_ok [OF i(1) read_list_ok] obtain st where
    st: "read s (userScope ctx) = Inr (Some st)" "scope i = userScope ctx" "list_follows st (nextList i)"
    "assertAuthor st a = Inr ()"
    "\<exists>e\<in>set (devices (nextList i)). deviceId e = targetDeviceId a \<and> state e = Revoked" by metis
  from st(4) obtain author where "deviceEntryById (snap_list st) (authorDeviceId a) = Some author"
    "state author = Active"
    by (auto simp: assertAuthor_def assertDeviceCanAuthorize_def split: if_splits)
  with i st show ?thesis
    using read_stored [OF st(1)] commit_stores [OF inv i(2)] find_by_id by fastforce
qed

end

end
