(* ===== verification/Storage.thy ===== *)
theory Storage
  imports Encoding
begin

text \<open>
  The record store the service persists into: the \<open>SecureStorage\<close> contract of
  \<open>service/src/core/contracts.ts\<close> as its clients see it once the vault is
  unlocked, and the record identifiers of \<open>service/src/identity/machineIdentity.ts\<close>.
  Clients store the UTF-8 text of \<open>JSON.stringify\<close>; since that text determines
  the value (\<open>Json.stringify_inj\<close>), a record is kept as the value it holds, or as
  raw text that \<open>JSON.parse\<close> rejects.
\<close>

datatype cell = JsonText jsval | RawText string

record store =
  cells :: "string \<times> string \<Rightarrow> cell option"
  casAvailable :: bool

record record_update =
  update_key :: "string \<times> string"
  expected :: "cell option"
  next_cell :: cell

definition read_cell :: "store \<Rightarrow> string \<Rightarrow> string \<Rightarrow> cell option" where
  "read_cell s recordType recordId = cells s (recordType, recordId)"

definition write_cell :: "store \<Rightarrow> string \<Rightarrow> string \<Rightarrow> cell \<Rightarrow> store" where
  "write_cell s recordType recordId c = s\<lparr>cells := (cells s)((recordType, recordId) := Some c)\<rparr>"

definition delete_cell :: "store \<Rightarrow> string \<Rightarrow> string \<Rightarrow> store" where
  "delete_cell s recordType recordId = s\<lparr>cells := (cells s)((recordType, recordId) := None)\<rparr>"

text \<open>All records still hold what was expected, or nothing is written.\<close>

definition compareAndSwapRecords :: "store \<Rightarrow> record_update list \<Rightarrow> store \<times> bool" where
  "compareAndSwapRecords s us =
     (if list_all (\<lambda>u. cells s (update_key u) = expected u) us
      then (s\<lparr>cells := foldl (\<lambda>m u. m(update_key u := Some (next_cell u))) (cells s) us\<rparr>, True)
      else (s, False))"

fun parse_cell :: "string \<Rightarrow> cell \<Rightarrow> jsval outcome" where
  "parse_cell message (JsonText v) = Inr v"
| "parse_cell message (RawText t) = Inl message"

definition is_record_char :: "char \<Rightarrow> bool" where
  "is_record_char c \<longleftrightarrow> is_id_char c \<or> c = CHR ''.'' \<or> c = CHR '':''"

definition NUL :: string where
  "NUL = [CHR 0x00]"

definition canonicalIdentityRecordId :: "(u8 list \<Rightarrow> u8 list) \<Rightarrow> string \<Rightarrow> string outcome" where
  "canonicalIdentityRecordId sha256 reference =
     (if reference = [] \<or> 256 < length reference \<or> list_ex is_control reference
      then Inl ''Invalid identity reference.''
      else if length reference \<le> 128 \<and> list_all is_record_char reference then Inr reference
      else Inr (''identity-'' @ digest_hex sha256 (''k3ncrypt:identity-record:v1'' @ NUL @ reference)))"

lemma read_write_cell [simp]:
  "read_cell (write_cell s t i c) t' i' = (if t = t' \<and> i = i' then Some c else read_cell s t' i')"
  by (simp add: read_cell_def write_cell_def)

lemma read_delete_cell [simp]:
  "read_cell (delete_cell s t i) t' i' = (if t = t' \<and> i = i' then None else read_cell s t' i')"
  by (simp add: read_cell_def delete_cell_def)

lemma casAvailable_cas [simp]: "casAvailable (fst (compareAndSwapRecords s us)) = casAvailable s"
  by (simp add: compareAndSwapRecords_def)

end
