(* ===== verification/DeviceStore.thy ===== *)
theory DeviceStore
  imports DeviceLifecycle Storage
begin

text \<open>
  The durable lifecycle store: \<open>SecureStorageDeviceLifecyclePersistence\<close> of
  \<open>service/src/devices/runtime.ts\<close>. Per scope it keeps two records, the lifecycle
  state with its replay history and the high-water mark, and writes both in one
  compare-and-swap. Operations of a scope are serialised by its mutex, so each is
  one step here. The theory discharges the laws of \<open>lifecycle_persistence\<close> for
  it, so that the guarantees of the service hold of the program's own store.
\<close>

section \<open>Records\<close>

definition RECORD_TYPE :: string where
  "RECORD_TYPE = ''device-lifecycle''"

definition HIGHWATER_RECORD_TYPE :: string where
  "HIGHWATER_RECORD_TYPE = ''device-lifecycle-highwater''"

record lifecycle_record =
  rec_state :: snapshot
  authorizations :: "jsval list"
  highestEpoch :: int
  commitmentHistory :: "jsval list"

record highwater =
  hw_epoch :: int
  hw_commitment :: string

definition state_value :: "snapshot \<Rightarrow> jsval" where
  "state_value st = VObj [(''list'', list_value (snap_list st)), (''commitment'', VStr (commitment st))]"

definition history_item :: "int \<Rightarrow> string \<Rightarrow> jsval" where
  "history_item e c = VObj [(''epoch'', VInt e), (''commitment'', VStr c)]"

definition record_value :: "lifecycle_record \<Rightarrow> jsval" where
  "record_value r = VObj
     [(''version'', VInt 2), (''state'', state_value (rec_state r)),
      (''authorizations'', VArr (authorizations r)), (''highestEpoch'', VInt (highestEpoch r)),
      (''commitmentHistory'', VArr (commitmentHistory r))]"

definition highwater_value :: "int \<Rightarrow> string \<Rightarrow> jsval" where
  "highwater_value e c = VObj [(''version'', VInt 1), (''highestEpoch'', VInt e), (''commitment'', VStr c)]"

definition authorization_record_value :: "authorization_record \<Rightarrow> jsval" where
  "authorization_record_value r = VObj
     [(''operation'', VStr (operation_name (rec_operation r))),
      (''transactionNonce'', VStr (rec_nonce r)), (''authorDeviceId'', VStr (rec_author r)),
      (''sequence'', VInt (rec_sequence r)), (''digest'', VStr (rec_digest r)),
      (''expiresAt'', VInt (rec_expiresAt r))]"

fun is_string :: "jsval \<Rightarrow> bool" where
  "is_string (VStr s) = True"
| "is_string _ = False"

section \<open>Reading\<close>

definition parse_highwater :: "cell \<Rightarrow> highwater outcome" where
  "parse_highwater c =
     and_then (parse_cell ''Device lifecycle high-water mark is invalid.'' c) (\<lambda>v.
     and_then (member v ''version'') (\<lambda>version.
     and_then (require (version = VInt 1 \<and> is_safe_num (get_prop v ''highestEpoch'') \<and>
         0 \<le> num_of (get_prop v ''highestEpoch'') \<and> is_string (get_prop v ''commitment''))
         ''Device lifecycle high-water mark is invalid.'') (\<lambda>_.
       Inr \<lparr>hw_epoch = num_of (get_prop v ''highestEpoch''),
         hw_commitment = str_of (get_prop v ''commitment'')\<rparr>)))"

definition readHighwater :: "(u8 list \<Rightarrow> u8 list) \<Rightarrow> store \<Rightarrow> string \<Rightarrow> highwater option outcome" where
  "readHighwater sha s sc =
     and_then (canonicalIdentityRecordId sha sc) (\<lambda>i.
       case read_cell s HIGHWATER_RECORD_TYPE i of
         None \<Rightarrow> Inr None
       | Some c \<Rightarrow> and_then (parse_highwater c) (\<lambda>h. Inr (Some h)))"

fun check_history :: "jsval list \<Rightarrow> unit outcome" where
  "check_history [] = Inr ()"
| "check_history (v # vs) =
     and_then (member v ''epoch'') (\<lambda>e.
     and_then (require (is_safe_num e \<and> is_string (get_prop v ''commitment''))
         ''Device lifecycle history is invalid.'') (\<lambda>_. check_history vs))"

text \<open>The nullish default \<open>a ?? b\<close>.\<close>

definition nullish :: "jsval \<Rightarrow> jsval \<Rightarrow> jsval" where
  "nullish v d = (if v = VUndefined \<or> v = VNull then d else v)"

fun as_array :: "string \<Rightarrow> jsval \<Rightarrow> jsval list outcome" where
  "as_array message (VArr vs) = Inr vs"
| "as_array message _ = Inl message"

text \<open>
  The stored lifecycle record, up to the comparison with the high-water mark. A
  list with a safe epoch is an object, hence truthy.
\<close>

definition parse_record :: "(u8 list \<Rightarrow> u8 list) \<Rightarrow> string \<Rightarrow> cell \<Rightarrow> lifecycle_record outcome" where
  "parse_record sha sc c =
     and_then (parse_cell ''Device lifecycle state is invalid.'' c) (\<lambda>v.
     let st = get_prop v ''state'' in
     and_then (as_array ''Device lifecycle state is invalid.'' (get_prop v ''authorizations'')) (\<lambda>auths.
     and_then (require (is_safe_num (get_prop (get_prop st ''list'') ''epoch''))
         ''Device lifecycle state is invalid.'') (\<lambda>_.
     and_then (createDeviceList (get_prop st ''list'')) (\<lambda>l.
     and_then (require (identityReference l = sc) ''Device lifecycle scope mismatch.'') (\<lambda>_.
     and_then (deviceListCommitment sha (list_value l)) (\<lambda>cm.
     and_then (require (get_prop st ''commitment'' = VStr cm) ''Device lifecycle commitment mismatch.'') (\<lambda>_.
     let highest = nullish (get_prop v ''highestEpoch'') (VInt (epoch l)) in
     and_then (require (highest = VInt (epoch l) \<and> is_safe_num highest \<and> 0 \<le> num_of highest)
         ''Device lifecycle epoch rollback detected.'') (\<lambda>_.
     and_then (as_array ''Device lifecycle history is invalid.''
         (nullish (get_prop v ''commitmentHistory'') (VArr [history_item (epoch l) cm]))) (\<lambda>hist.
     and_then (check_history hist) (\<lambda>_.
     and_then (require (case find (\<lambda>x. get_prop x ''epoch'' = VInt (epoch l)) hist of
           None \<Rightarrow> False | Some x \<Rightarrow> get_prop x ''commitment'' = VStr cm)
         ''Device lifecycle commitment history mismatch.'') (\<lambda>_.
       Inr \<lparr>rec_state = \<lparr>snap_list = l, commitment = cm\<rparr>, authorizations = auths,
         highestEpoch = num_of highest, commitmentHistory = hist\<rparr>)))))))))))"

definition rollback_free :: "highwater option \<Rightarrow> snapshot \<Rightarrow> bool" where
  "rollback_free h st =
     (case h of
        None \<Rightarrow> True
      | Some w \<Rightarrow> \<not> (hw_epoch w > epoch (snap_list st) \<or>
          hw_epoch w = epoch (snap_list st) \<and> hw_commitment w \<noteq> commitment st))"

definition readRecord :: "(u8 list \<Rightarrow> u8 list) \<Rightarrow> store \<Rightarrow> string \<Rightarrow> lifecycle_record option outcome" where
  "readRecord sha s sc =
     and_then (canonicalIdentityRecordId sha sc) (\<lambda>i.
       case read_cell s RECORD_TYPE i of
         None \<Rightarrow>
           and_then (readHighwater sha s sc) (\<lambda>h.
             if h \<noteq> None then Inl ''Established lifecycle state is missing.'' else Inr None)
       | Some c \<Rightarrow>
           and_then (parse_record sha sc c) (\<lambda>r.
           and_then (readHighwater sha s sc) (\<lambda>h.
           and_then (require (rollback_free h (rec_state r)) ''Device lifecycle rollback detected.'') (\<lambda>_.
             Inr (Some r)))))"

definition read_lifecycle :: "(u8 list \<Rightarrow> u8 list) \<Rightarrow> store \<Rightarrow> string \<Rightarrow> snapshot option outcome" where
  "read_lifecycle sha s sc = map_sum id (map_option rec_state) (readRecord sha s sc)"

fun find_prop :: "string \<Rightarrow> string \<Rightarrow> jsval list \<Rightarrow> jsval option outcome" where
  "find_prop k x [] = Inr None"
| "find_prop k x (v # vs) =
     and_then (member v k) (\<lambda>y. if y = VStr x then Inr (Some v) else find_prop k x vs)"

definition readAuthorization ::
  "(u8 list \<Rightarrow> u8 list) \<Rightarrow> store \<Rightarrow> string \<Rightarrow> string \<Rightarrow> jsval option outcome"
where
  "readAuthorization sha s sc digest =
     and_then (readRecord sha s sc) (\<lambda>r.
       case r of None \<Rightarrow> Inr None | Some x \<Rightarrow> find_prop ''digest'' digest (authorizations x))"

section \<open>Writing\<close>

record write_plan =
  plan_id :: string
  plan_expected :: "cell option"
  plan_highwater :: "cell option"
  plan_next :: cell
  plan_nextHighwater :: cell

definition writeAtomic :: "store \<Rightarrow> write_plan \<Rightarrow> store \<times> unit outcome" where
  "writeAtomic s p =
     (if \<not> casAvailable s then (s, Inl ''Atomic lifecycle persistence is unavailable.'')
      else
        let (s', done) = compareAndSwapRecords s
          [\<lparr>update_key = (RECORD_TYPE, plan_id p), expected = plan_expected p, next_cell = plan_next p\<rparr>,
           \<lparr>update_key = (HIGHWATER_RECORD_TYPE, plan_id p), expected = plan_highwater p,
             next_cell = plan_nextHighwater p\<rparr>]
        in (s', require done ''Device lifecycle state conflict.''))"

text \<open>Checks that read the store, followed by at most one atomic write.\<close>

definition run_plan :: "store \<Rightarrow> (write_plan option \<times> 'a) outcome \<Rightarrow> store \<times> 'a outcome" where
  "run_plan s x =
     (case x of
        Inl e \<Rightarrow> (s, Inl e)
      | Inr (None, a) \<Rightarrow> (s, Inr a)
      | Inr (Some p, a) \<Rightarrow> let (s', r) = writeAtomic s p in (s', map_sum id (\<lambda>_. a) r))"

definition write_both :: "store \<Rightarrow> string \<Rightarrow> jsval \<Rightarrow> jsval \<Rightarrow> write_plan" where
  "write_both s i next_record next_highwater =
     \<lparr>plan_id = i, plan_expected = read_cell s RECORD_TYPE i,
       plan_highwater = read_cell s HIGHWATER_RECORD_TYPE i, plan_next = JsonText next_record,
       plan_nextHighwater = JsonText next_highwater\<rparr>"

definition superseded :: "highwater option \<Rightarrow> int \<Rightarrow> bool" where
  "superseded previous e = (case previous of None \<Rightarrow> False | Some w \<Rightarrow> hw_epoch w > e)"

definition suspendTrust ::
  "(u8 list \<Rightarrow> u8 list) \<Rightarrow> store \<Rightarrow> string \<Rightarrow> int \<Rightarrow> string \<Rightarrow> store \<times> unit outcome"
where
  "suspendTrust sha s sc e cm =
     run_plan s (and_then (canonicalIdentityRecordId sha sc) (\<lambda>i.
       and_then (some_or ''Trust suspension storage unavailable.'' (read_cell s RECORD_TYPE i)) (\<lambda>c.
       and_then (require (casAvailable s) ''Trust suspension storage unavailable.'') (\<lambda>_.
       and_then (readHighwater sha s sc) (\<lambda>previous.
         Inr (if superseded previous e then None
           else Some \<lparr>plan_id = i, plan_expected = Some c,
             plan_highwater = read_cell s HIGHWATER_RECORD_TYPE i, plan_next = c,
             plan_nextHighwater = JsonText (highwater_value e cm)\<rparr>, ()))))))"

definition initialize ::
  "(u8 list \<Rightarrow> u8 list) \<Rightarrow> store \<Rightarrow> string \<Rightarrow> jsval \<Rightarrow> store \<times> snapshot outcome"
where
  "initialize sha s sc v =
     run_plan s (and_then (canonicalIdentityRecordId sha sc) (\<lambda>i.
       and_then (readRecord sha s sc) (\<lambda>existing.
         case existing of
           Some r \<Rightarrow> Inr (None, rec_state r)
         | None \<Rightarrow>
             and_then (createDeviceList v) (\<lambda>l.
             and_then (require (identityReference l = sc) ''Device lifecycle scope mismatch.'') (\<lambda>_.
             and_then (deviceListCommitment sha (list_value l)) (\<lambda>cm.
               Inr (Some (write_both s i
                 (record_value \<lparr>rec_state = \<lparr>snap_list = l, commitment = cm\<rparr>, authorizations = [],
                   highestEpoch = epoch l, commitmentHistory = [history_item (epoch l) cm]\<rparr>)
                 (highwater_value (epoch l) cm)), \<lparr>snap_list = l, commitment = cm\<rparr>)))))))"

definition installEnrollmentApproval ::
  "(u8 list \<Rightarrow> u8 list) \<Rightarrow> store \<Rightarrow> string \<Rightarrow> snapshot \<Rightarrow> authorization \<Rightarrow> store \<times> unit outcome"
where
  "installEnrollmentApproval sha s sc st a =
     run_plan s (let l = snap_list st in
       and_then (require (operation a = Enroll \<and> authScope a = sc \<and> previousEpoch a + 1 = epoch l \<and>
           identityReference l = sc \<and> previousCommitment l = Some (authPreviousCommitment a))
           ''Enrollment approval rejected.'') (\<lambda>_.
       and_then (deviceListCommitment sha (list_value l)) (\<lambda>cm.
       and_then (require (commitment st = cm \<and> verifyAuthorizationDigest sha a)
           ''Enrollment approval rejected.'') (\<lambda>_.
       let author = find (\<lambda>e. deviceId e = authorDeviceId a \<and>
             publicIdentityReference e = authorIdentityReference a \<and> state e = Active) (devices l);
           target = find (\<lambda>e. deviceId e = targetDeviceId a \<and>
             Some (publicIdentityReference e) = targetPublicIdentityReference a \<and>
             state e = Approved_pending_confirmation) (devices l)
       in
       and_then (require (author \<noteq> None \<and> target \<noteq> None \<and>
           Some (algorithm (the target)) = targetAlgorithm a) ''Enrollment approval rejected.'') (\<lambda>_.
       and_then (canonicalIdentityRecordId sha sc) (\<lambda>i.
       and_then (require (read_cell s RECORD_TYPE i = None \<and> read_cell s HIGHWATER_RECORD_TYPE i = None)
           ''Enrollment approval replayed.'') (\<lambda>_.
         Inr (Some (write_both s i
           (record_value \<lparr>rec_state = st, authorizations = [authorization_record_value (record_of a)],
             highestEpoch = epoch l, commitmentHistory = [history_item (epoch l) (commitment st)]\<rparr>)
           (highwater_value (epoch l) (commitment st))), ()))))))))"

text \<open>\<open>[...history, item].slice(-256)\<close>\<close>

definition push_history :: "jsval list \<Rightarrow> jsval \<Rightarrow> jsval list" where
  "push_history h x = (let h' = h @ [x] in drop (length h' - 256) h')"

definition trust_change_ok :: "device_list \<Rightarrow> device_entry \<Rightarrow> bool" where
  "trust_change_ok next_list prior =
     (case deviceEntryById next_list (deviceId prior) of
        None \<Rightarrow> False
      | Some u \<Rightarrow> publicIdentityReference u = publicIdentityReference prior \<and>
          algorithm u = algorithm prior \<and>
          (state prior = state u \<or> state prior = Active \<and> state u = Revoked))"

definition active_peer :: "device_list \<Rightarrow> string \<Rightarrow> string \<Rightarrow> bool" where
  "active_peer l peerDevice peerIdentity \<longleftrightarrow>
     list_ex (\<lambda>e. deviceId e = peerDevice \<and> publicIdentityReference e = peerIdentity \<and> state e = Active)
       (devices l)"

definition installTrustUpdate ::
  "(u8 list \<Rightarrow> u8 list) \<Rightarrow> store \<Rightarrow> string \<Rightarrow> snapshot \<Rightarrow> snapshot \<Rightarrow> string \<Rightarrow> string \<Rightarrow> store \<times> unit outcome"
where
  "installTrustUpdate sha s sc current nxt peerDevice peerIdentity =
     run_plan s (and_then (readRecord sha s sc) (\<lambda>existing.
       and_then (some_or ''Trust update rejected.'' existing) (\<lambda>r.
       and_then (require (epoch (snap_list (rec_state r)) = epoch (snap_list current) \<and>
           commitment (rec_state r) = commitment current \<and> identityReference (snap_list nxt) = sc \<and>
           epoch (snap_list nxt) = epoch (snap_list current) + 1 \<and>
           previousCommitment (snap_list nxt) = Some (commitment current)) ''Trust update rejected.'') (\<lambda>_.
       and_then (deviceListCommitment sha (list_value (snap_list nxt))) (\<lambda>cm.
       and_then (require (commitment nxt = cm) ''Trust update rejected.'') (\<lambda>_.
       and_then (require (active_peer (snap_list current) peerDevice peerIdentity \<and>
           active_peer (snap_list nxt) peerDevice peerIdentity \<and>
           length (devices (snap_list current)) = length (devices (snap_list nxt)))
           ''Trust update rejected.'') (\<lambda>_.
       and_then (require (list_all (trust_change_ok (snap_list nxt)) (devices (snap_list current)))
           ''Trust update rejected.'') (\<lambda>_.
       and_then (canonicalIdentityRecordId sha sc) (\<lambda>i.
         Inr (Some (write_both s i
           (record_value (r\<lparr>rec_state := nxt, highestEpoch := epoch (snap_list nxt),
             commitmentHistory := push_history (commitmentHistory r)
               (history_item (epoch (snap_list nxt)) (commitment nxt))\<rparr>))
           (highwater_value (epoch (snap_list nxt)) (commitment nxt))), ()))))))))))"

definition commit_plan ::
  "(u8 list \<Rightarrow> u8 list) \<Rightarrow> store \<Rightarrow> commit_input \<Rightarrow> (write_plan option \<times> int \<times> string) outcome"
where
  "commit_plan sha s x =
     and_then (canonicalIdentityRecordId sha (scope x)) (\<lambda>i.
     and_then (readRecord sha s (scope x)) (\<lambda>existing.
     and_then (createDeviceList (list_value (nextList x))) (\<lambda>l.
     and_then (require (identityReference l = scope x) ''Device lifecycle scope mismatch.'') (\<lambda>_.
     and_then (deviceListCommitment sha (list_value l)) (\<lambda>cm.
     and_then (some_or ''Device lifecycle state conflict.'' existing) (\<lambda>r.
     and_then (require (epoch (snap_list (rec_state r)) = expectedEpoch x \<and> highestEpoch r = expectedEpoch x \<and>
         commitment (rec_state r) = commit_previous x \<and> epoch l = expectedEpoch x + 1 \<and>
         previousCommitment l = Some (commit_previous x) \<and> cm = nextCommitment x)
         ''Device lifecycle state conflict.'') (\<lambda>_.
     and_then (find_prop ''transactionNonce'' (rec_nonce (commit_authorization x)) (authorizations r)) (\<lambda>used.
     and_then (require (used = None) ''Device lifecycle state conflict.'') (\<lambda>_.
       Inr (Some (write_both s i
         (record_value \<lparr>rec_state = \<lparr>snap_list = l, commitment = cm\<rparr>,
           authorizations = authorizations r @ [authorization_record_value (commit_authorization x)],
           highestEpoch = epoch l,
           commitmentHistory = push_history (commitmentHistory r) (history_item (epoch l) cm)\<rparr>)
         (highwater_value (epoch l) cm)), epoch l, cm))))))))))"

text \<open>A commit writes, then reads the record back and compares.\<close>

definition commit :: "(u8 list \<Rightarrow> u8 list) \<Rightarrow> store \<Rightarrow> commit_input \<Rightarrow> store \<times> unit outcome" where
  "commit sha s x =
     (case run_plan s (commit_plan sha s x) of
        (s', Inl e) \<Rightarrow> (s', Inl e)
      | (s', Inr (e, cm)) \<Rightarrow>
          (s', and_then (readRecord sha s' (scope x)) (\<lambda>persisted.
             require (case persisted of None \<Rightarrow> False
                 | Some r \<Rightarrow> commitment (rec_state r) = cm \<and> highestEpoch r = e)
               ''Device lifecycle commit verification failed.'')))"

section \<open>Events on the store\<close>

text \<open>
  Every state-changing operation, and \<open>Tamper\<close>: an attacker with write access to
  the lifecycle records (but not to the high-water marks) puts any content, or
  none, under any identifier.
\<close>

datatype store_event =
    Initialize string jsval
  | Commit commit_input
  | InstallApproval string snapshot authorization
  | InstallTrustUpdate string snapshot snapshot string string
  | SuspendTrust string int string
  | Tamper string "cell option"

fun store_step :: "(u8 list \<Rightarrow> u8 list) \<Rightarrow> store \<Rightarrow> store_event \<Rightarrow> store \<times> unit outcome" where
  "store_step sha s (Initialize sc v) = map_prod id (map_sum id (\<lambda>_. ())) (initialize sha s sc v)"
| "store_step sha s (Commit x) = commit sha s x"
| "store_step sha s (InstallApproval sc st a) = installEnrollmentApproval sha s sc st a"
| "store_step sha s (InstallTrustUpdate sc cur nxt d i) = installTrustUpdate sha s sc cur nxt d i"
| "store_step sha s (SuspendTrust sc e c) = suspendTrust sha s sc e c"
| "store_step sha s (Tamper i c) = (s\<lparr>cells := (cells s)((RECORD_TYPE, i) := c)\<rparr>, Inr ())"

section \<open>Reads and atomic writes\<close>

lemma record_types [simp]:
  "RECORD_TYPE \<noteq> HIGHWATER_RECORD_TYPE" "HIGHWATER_RECORD_TYPE \<noteq> RECORD_TYPE"
  by (simp_all add: RECORD_TYPE_def HIGHWATER_RECORD_TYPE_def)

definition plan_cells :: "store \<Rightarrow> write_plan \<Rightarrow> string \<times> string \<Rightarrow> cell option" where
  "plan_cells s p = (cells s)((RECORD_TYPE, plan_id p) := Some (plan_next p),
     (HIGHWATER_RECORD_TYPE, plan_id p) := Some (plan_nextHighwater p))"

lemma plan_cells_read [simp]:
  "plan_cells s p (RECORD_TYPE, i) = (if i = plan_id p then Some (plan_next p) else cells s (RECORD_TYPE, i))"
  "plan_cells s p (HIGHWATER_RECORD_TYPE, i) =
     (if i = plan_id p then Some (plan_nextHighwater p) else cells s (HIGHWATER_RECORD_TYPE, i))"
  by (simp_all add: plan_cells_def)

lemma writeAtomic_cases:
  assumes "writeAtomic s p = (s', r)"
  shows "r = Inr () \<and> cells s' = plan_cells s p \<or> (\<exists>e. r = Inl e) \<and> s' = s"
  using assms
  by (auto simp: writeAtomic_def compareAndSwapRecords_def plan_cells_def require_def split: if_splits)

lemma run_plan_cases:
  assumes "run_plan s x = (s', r)"
  shows "s' = s \<and> (r = Inr a \<longrightarrow> x = Inr (None, a)) \<or>
    (\<exists>p a'. x = Inr (Some p, a') \<and> r = Inr a' \<and> cells s' = plan_cells s p)"
proof (cases x)
  case (Inr y)
  then show ?thesis
  proof (cases "fst y")
    case (Some p)
    obtain s'' r' where w: "writeAtomic s p = (s'', r')" by (cases "writeAtomic s p")
    with assms Inr Some writeAtomic_cases [OF w] show ?thesis
      by (cases y) (auto simp: run_plan_def)
  qed (use assms in \<open>cases y; auto simp: run_plan_def\<close>)
qed (use assms in \<open>auto simp: run_plan_def\<close>)

lemma run_plan_same: "fst (run_plan s x) = s \<or>
    (\<exists>p a. x = Inr (Some p, a) \<and> cells (fst (run_plan s x)) = plan_cells s p)"
  using run_plan_cases [of s x "fst (run_plan s x)" "snd (run_plan s x)"] by auto

text \<open>The high-water mark of an identifier, if there is one, is valid and at most the epoch.\<close>

definition hw_bound :: "store \<Rightarrow> string \<Rightarrow> int \<Rightarrow> bool" where
  "hw_bound s i e \<longleftrightarrow> (\<forall>x. cells s (HIGHWATER_RECORD_TYPE, i) = Some x \<longrightarrow>
     (\<exists>h. parse_highwater x = Inr h \<and> hw_epoch h \<le> e))"

lemma readHighwater_ok:
  assumes "readHighwater sha s sc = Inr h" and "canonicalIdentityRecordId sha sc = Inr i"
  shows "case cells s (HIGHWATER_RECORD_TYPE, i) of None \<Rightarrow> h = None
    | Some x \<Rightarrow> \<exists>w. parse_highwater x = Inr w \<and> h = Some w"
  using assms by (auto simp: readHighwater_def read_cell_def split: option.splits)

lemma readRecord_some:
  assumes "readRecord sha s sc = Inr (Some r)"
  shows "\<exists>i c. canonicalIdentityRecordId sha sc = Inr i \<and> cells s (RECORD_TYPE, i) = Some c \<and>
    parse_record sha sc c = Inr r \<and> hw_bound s i (epoch (snap_list (rec_state r)))"
proof -
  from assms obtain i where i: "canonicalIdentityRecordId sha sc = Inr i"
    by (auto simp: readRecord_def)
  with assms obtain c h where c: "cells s (RECORD_TYPE, i) = Some c" "parse_record sha sc c = Inr r"
    and h: "readHighwater sha s sc = Inr h" "rollback_free h (rec_state r)"
    by (auto simp: readRecord_def read_cell_def split: option.splits if_splits)
  from readHighwater_ok [OF h(1) i] h(2) have "hw_bound s i (epoch (snap_list (rec_state r)))"
    by (auto simp: hw_bound_def rollback_free_def split: option.splits)
  with i c show ?thesis by blast
qed

lemma readRecord_none:
  assumes "readRecord sha s sc = Inr None" and i: "canonicalIdentityRecordId sha sc = Inr i"
  shows "cells s (RECORD_TYPE, i) = None \<and> cells s (HIGHWATER_RECORD_TYPE, i) = None"
proof -
  from assms have c: "cells s (RECORD_TYPE, i) = None" and h: "readHighwater sha s sc = Inr None"
    by (auto simp: readRecord_def read_cell_def split: option.splits if_splits)
  from readHighwater_ok [OF h i] c show ?thesis by (simp split: option.splits)
qed

lemma parse_highwater_value:
  "time_ok e \<Longrightarrow> parse_highwater (JsonText (highwater_value e c)) = Inr \<lparr>hw_epoch = e, hw_commitment = c\<rparr>"
  "\<not> time_ok e \<Longrightarrow> \<exists>m. parse_highwater (JsonText (highwater_value e c)) = Inl m"
  by (auto simp: parse_highwater_def highwater_value_def member_def time_ok_def require_def)

section \<open>The high-water mark only grows\<close>

definition hw_le :: "cell option \<Rightarrow> cell option \<Rightarrow> bool" where
  "hw_le c c' = (case c of None \<Rightarrow> True | Some x \<Rightarrow>
     (case parse_highwater x of
        Inl _ \<Rightarrow> c' = c
      | Inr h \<Rightarrow> (\<exists>x'. c' = Some x' \<and>
          (case parse_highwater x' of Inl _ \<Rightarrow> True | Inr h' \<Rightarrow> hw_epoch h \<le> hw_epoch h'))))"

definition hw_grows :: "store \<Rightarrow> store \<Rightarrow> bool" where
  "hw_grows s t \<longleftrightarrow>
     (\<forall>i. hw_le (cells s (HIGHWATER_RECORD_TYPE, i)) (cells t (HIGHWATER_RECORD_TYPE, i)))"

lemma hw_le_refl: "hw_le c c"
  by (auto simp: hw_le_def split: option.splits sum.splits)

lemma hw_le_trans: "hw_le a b \<Longrightarrow> hw_le b c \<Longrightarrow> hw_le a c"
  by (cases a; cases b; cases "parse_highwater (the a)"; cases "parse_highwater (the b)")
    (auto simp: hw_le_def split: sum.splits)

lemma hw_le_bound:
  assumes "hw_le (Some x) (cells s (HIGHWATER_RECORD_TYPE, i))" and "parse_highwater x = Inr h" and "hw_bound s i e"
  shows "hw_epoch h \<le> e"
proof -
  from assms(1,2) obtain x' where x': "cells s (HIGHWATER_RECORD_TYPE, i) = Some x'"
    and le: "case parse_highwater x' of Inl _ \<Rightarrow> True | Inr h' \<Rightarrow> hw_epoch h \<le> hw_epoch h'"
    by (auto simp: hw_le_def)
  from assms(3) x' obtain h' where "parse_highwater x' = Inr h'" "hw_epoch h' \<le> e" by (auto simp: hw_bound_def)
  with le show ?thesis by simp
qed

text \<open>What every plan respects.\<close>

definition plan_raises :: "store \<Rightarrow> write_plan \<Rightarrow> bool" where
  "plan_raises s p \<longleftrightarrow> (\<exists>e c. plan_nextHighwater p = JsonText (highwater_value e c) \<and> hw_bound s (plan_id p) e)"

lemma plan_raises_grows:
  assumes "plan_raises s p" and "cells t = plan_cells s p"
  shows "hw_grows s t"
proof -
  from assms(1) obtain e c where e: "plan_nextHighwater p = JsonText (highwater_value e c)"
    and b: "hw_bound s (plan_id p) e" by (auto simp: plan_raises_def)
  have "hw_le (cells s (HIGHWATER_RECORD_TYPE, plan_id p)) (Some (plan_nextHighwater p))"
    using b parse_highwater_value [of e c] e
    by (cases "time_ok e") (auto simp: hw_le_def hw_bound_def split: option.splits sum.splits)
  with assms(2) show ?thesis by (simp add: hw_grows_def hw_le_refl)
qed

lemma run_plan_grows:
  assumes "\<And>p a. x = Inr (Some p, a) \<Longrightarrow> plan_raises s p"
  shows "hw_grows s (fst (run_plan s x))"
  using run_plan_same [of s x]
proof
  assume "fst (run_plan s x) = s"
  then show ?thesis by (simp add: hw_grows_def hw_le_refl)
next
  assume "\<exists>p a. x = Inr (Some p, a) \<and> cells (fst (run_plan s x)) = plan_cells s p"
  with assms plan_raises_grows show ?thesis by blast
qed

lemma write_both_raises [intro]: "hw_bound s i e \<Longrightarrow> plan_raises s (write_both s i v (highwater_value e c))"
  by (auto simp: plan_raises_def write_both_def)

lemma hw_bound_none: "cells s (HIGHWATER_RECORD_TYPE, i) = None \<Longrightarrow> hw_bound s i e"
  by (simp add: hw_bound_def)

lemma hw_bound_mono: "hw_bound s i e \<Longrightarrow> e \<le> e' \<Longrightarrow> hw_bound s i e'"
  by (force simp: hw_bound_def)

lemma createDeviceList_fields: "createDeviceList (list_value l) = Inr l' \<Longrightarrow> l' = l"
proof -
  assume a: "createDeviceList (list_value l) = Inr l'"
  have e: "create_entries (map canonicalEntry es) = Inr es' \<Longrightarrow> es' = es" for es es'
    by (induction es arbitrary: es') (auto split: sum.splits dest!: entry_fields)
  from a show "l' = l"
    by (auto simp: createDeviceList_def list_value_def split: if_splits sum.splits option.splits dest!: e)
qed

lemma commit_plan_ok:
  assumes "commit_plan sha s x = Inr (q, e, cm)"
  shows "\<exists>i r. canonicalIdentityRecordId sha (scope x) = Inr i \<and> readRecord sha s (scope x) = Inr (Some r) \<and>
    list_ok (nextList x) \<and> identityReference (nextList x) = scope x \<and>
    deviceListCommitment sha (list_value (nextList x)) = Inr cm \<and> cm = nextCommitment x \<and>
    epoch (snap_list (rec_state r)) = expectedEpoch x \<and> commitment (rec_state r) = commit_previous x \<and>
    e = epoch (nextList x) \<and> e = expectedEpoch x + 1 \<and>
    previousCommitment (nextList x) = Some (commit_previous x) \<and>
    find_prop ''transactionNonce'' (rec_nonce (commit_authorization x)) (authorizations r) = Inr None \<and>
    q = Some (write_both s i
      (record_value \<lparr>rec_state = \<lparr>snap_list = nextList x, commitment = cm\<rparr>,
         authorizations = authorizations r @ [authorization_record_value (commit_authorization x)],
         highestEpoch = e, commitmentHistory = push_history (commitmentHistory r) (history_item e cm)\<rparr>)
      (highwater_value e cm))"
proof -
  from assms obtain l where l: "createDeviceList (list_value (nextList x)) = Inr l"
    by (auto simp: commit_plan_def)
  have "l = nextList x" using l createDeviceList_fields by blast
  with assms l createDeviceList_ok [OF l] show ?thesis
    unfolding commit_plan_def by auto
qed

lemma commit_fst: "fst (commit sha s x) = fst (run_plan s (commit_plan sha s x))"
  by (auto simp: commit_def split: prod.splits sum.splits)

lemma store_step_grows: "hw_grows s (fst (store_step sha s ev))"
proof (cases ev)
  case (Initialize sc v)
  have "hw_grows s (fst (initialize sha s sc v))"
    unfolding initialize_def
    by (rule run_plan_grows)
      (auto split: option.splits dest!: readRecord_none intro: hw_bound_none)
  with Initialize show ?thesis by (cases "initialize sha s sc v") simp
next
  case (Commit x)
  have "plan_raises s p" if "commit_plan sha s x = Inr (Some p, a)" for p a
  proof -
    obtain e cm where "a = (e, cm)" by (cases a)
    with commit_plan_ok [of sha s x "Some p" e cm] that obtain i r v where
      i: "canonicalIdentityRecordId sha (scope x) = Inr i" and r: "readRecord sha s (scope x) = Inr (Some r)"
      and e: "epoch (snap_list (rec_state r)) \<le> e" and p: "p = write_both s i v (highwater_value e cm)"
      by auto
    from readRecord_some [OF r] i have "hw_bound s i (epoch (snap_list (rec_state r)))" by auto
    with e p show ?thesis by (auto intro: hw_bound_mono)
  qed
  with Commit show ?thesis by (auto simp: commit_fst intro: run_plan_grows)
next
  case (InstallApproval sc st a)
  then show ?thesis
    by (auto simp: installEnrollmentApproval_def Let_def read_cell_def
        intro!: run_plan_grows hw_bound_none)
next
  case (InstallTrustUpdate sc cur nxt d i)
  then show ?thesis
    by (auto simp: installTrustUpdate_def intro!: run_plan_grows write_both_raises
        dest!: readRecord_some elim!: hw_bound_mono)
next
  case (SuspendTrust sc e c)
  have "hw_bound s i e"
    if "canonicalIdentityRecordId sha sc = Inr i" "readHighwater sha s sc = Inr h"
      "\<not> superseded h e" for i h
    using readHighwater_ok [OF that(2) that(1)] that(3)
    by (auto simp: hw_bound_def superseded_def split: option.splits)
  then have "hw_grows s (fst (suspendTrust sha s sc e c))"
    unfolding suspendTrust_def plan_raises_def
    by (intro run_plan_grows) (auto simp: plan_raises_def split: if_splits, blast)
  with SuspendTrust show ?thesis by simp
next
  case (Tamper i c)
  then show ?thesis by (simp add: hw_grows_def hw_le_refl)
qed

text \<open>The store is a machine whose high-water marks never go back.\<close>

interpretation hw: monotone_machine "store_step sha" "\<lambda>_. True" hw_grows
  for sha
proof unfold_locales
  show "hw_grows s t \<Longrightarrow> hw_grows t u \<Longrightarrow> hw_grows s u" for s t u
    unfolding hw_grows_def using hw_le_trans by blast
  show "hw_grows s (fst (store_step sha s e))" for s e by (rule store_step_grows)
qed (simp_all add: hw_grows_def hw_le_refl)

section \<open>The invariant of an untampered store\<close>

definition hist_ok :: "int \<Rightarrow> jsval list \<Rightarrow> bool" where
  "hist_ok e h \<longleftrightarrow> (\<forall>v\<in>set h. \<exists>n c. v = history_item n c \<and> safe_int n \<and> n \<le> e)"

definition record_ok :: "(u8 list \<Rightarrow> u8 list) \<Rightarrow> lifecycle_record \<Rightarrow> bool" where
  "record_ok sha r \<longleftrightarrow> (let l = snap_list (rec_state r); cm = commitment (rec_state r) in
     list_ok l \<and> deviceListCommitment sha (list_value l) = Inr cm \<and> highestEpoch r = epoch l \<and>
     hist_ok (epoch l) (commitmentHistory r) \<and>
     find (\<lambda>x. get_prop x ''epoch'' = VInt (epoch l)) (commitmentHistory r) = Some (history_item (epoch l) cm))"

definition record_scope :: "lifecycle_record \<Rightarrow> string" where
  "record_scope r = identityReference (snap_list (rec_state r))"

definition store_ok :: "(u8 list \<Rightarrow> u8 list) \<Rightarrow> store \<Rightarrow> bool" where
  "store_ok sha s \<longleftrightarrow> (\<forall>i c. cells s (RECORD_TYPE, i) = Some c \<longrightarrow>
     (\<exists>r. c = JsonText (record_value r) \<and> record_ok sha r \<and>
        canonicalIdentityRecordId sha (record_scope r) = Inr i))"

text \<open>What is stored for a scope, whatever the high-water mark says.\<close>

definition stored_record :: "(u8 list \<Rightarrow> u8 list) \<Rightarrow> store \<Rightarrow> string \<Rightarrow> lifecycle_record option" where
  "stored_record sha s sc =
     (case canonicalIdentityRecordId sha sc of
        Inl _ \<Rightarrow> None
      | Inr i \<Rightarrow> (case cells s (RECORD_TYPE, i) of
          None \<Rightarrow> None
        | Some c \<Rightarrow> (case parse_record sha sc c of Inl _ \<Rightarrow> None | Inr r \<Rightarrow> Some r)))"

definition stored :: "(u8 list \<Rightarrow> u8 list) \<Rightarrow> store \<Rightarrow> string \<Rightarrow> snapshot option" where
  "stored sha s sc = map_option rec_state (stored_record sha s sc)"

lemma history_item_props [simp]:
  "get_prop (history_item n c) ''epoch'' = VInt n" "get_prop (history_item n c) ''commitment'' = VStr c"
  "member (history_item n c) ''epoch'' = Inr (VInt n)"
  by (simp_all add: history_item_def member_def)

lemma check_history_ok: "hist_ok e h \<Longrightarrow> check_history h = Inr ()"
  by (induction h) (auto simp: hist_ok_def)

lemma hist_ok_push:
  assumes "hist_ok e h" and "e < e'" and "safe_int e'"
  shows "hist_ok e' (push_history h (history_item e' c))"
    and "find (\<lambda>x. get_prop x ''epoch'' = VInt e') (push_history h (history_item e' c)) = Some (history_item e' c)"
proof -
  let ?k = "length h + 1 - 256"
  have p: "push_history h (history_item e' c) = drop ?k h @ [history_item e' c]"
    by (simp add: push_history_def)
  have old: "\<exists>n c. v = history_item n c \<and> safe_int n \<and> n \<le> e" if "v \<in> set (drop ?k h)" for v
    using that assms(1) set_drop_subset [of ?k h] by (auto simp: hist_ok_def)
  then show "hist_ok e' (push_history h (history_item e' c))"
    using assms unfolding p hist_ok_def by fastforce
  have "find (\<lambda>x. get_prop x ''epoch'' = VInt e') (drop ?k h) = None"
    using old assms(2) by (fastforce simp: find_None_iff)
  moreover have "find P xs = None \<Longrightarrow> find P (xs @ [x]) = find P [x]" for P xs and x :: jsval
    by (induction xs) auto
  ultimately show "find (\<lambda>x. get_prop x ''epoch'' = VInt e') (push_history h (history_item e' c)) = Some (history_item e' c)"
    unfolding p by simp
qed

lemma parse_record_value:
  assumes "record_ok sha r"
  shows "parse_record sha sc (JsonText (record_value r)) =
    (if record_scope r = sc then Inr r else Inl ''Device lifecycle scope mismatch.'')"
proof -
  from assms have ok: "list_ok (snap_list (rec_state r))" and h: "hist_ok (epoch (snap_list (rec_state r))) (commitmentHistory r)"
    by (simp_all add: record_ok_def Let_def)
  from ok have e: "safe_int (epoch (snap_list (rec_state r)))" "0 \<le> epoch (snap_list (rec_state r))"
    by (simp_all add: list_ok_def time_ok_def)
  have p: "get_prop (record_value r) ''state'' = state_value (rec_state r)"
    "get_prop (state_value (rec_state r)) ''list'' = list_value (snap_list (rec_state r))"
    "get_prop (state_value (rec_state r)) ''commitment'' = VStr (commitment (rec_state r))"
    "get_prop (list_value (snap_list (rec_state r))) ''epoch'' = VInt (epoch (snap_list (rec_state r)))"
    "get_prop (record_value r) ''authorizations'' = VArr (authorizations r)"
    "get_prop (record_value r) ''highestEpoch'' = VInt (highestEpoch r)"
    "get_prop (record_value r) ''commitmentHistory'' = VArr (commitmentHistory r)"
    by (simp_all add: record_value_def state_value_def list_value_def)
  from assms have c: "deviceListCommitment sha (list_value (snap_list (rec_state r))) = Inr (commitment (rec_state r))"
    "highestEpoch r = epoch (snap_list (rec_state r))"
    "find (\<lambda>x. get_prop x ''epoch'' = VInt (epoch (snap_list (rec_state r)))) (commitmentHistory r) =
      Some (history_item (epoch (snap_list (rec_state r))) (commitment (rec_state r)))"
    by (simp_all add: record_ok_def Let_def)
  note step = and_then.simps parse_cell.simps Let_def p as_array.simps createDeviceList_value [OF ok] c(1)
    is_safe_num.simps isSafeInteger.simps e require_ok simp_thms nullish_def jsval.distinct if_False
    num_of.simps whole.simps check_history_ok [OF h] c(2,3) option.case history_item_props
  show ?thesis
  proof (cases "record_scope r = sc")
    case True
    have "\<lparr>rec_state = \<lparr>snap_list = snap_list (rec_state r), commitment = commitment (rec_state r)\<rparr>,
        authorizations = authorizations r, highestEpoch = epoch (snap_list (rec_state r)),
        commitmentHistory = commitmentHistory r\<rparr> = r"
      using c(2) by (cases r) simp
    with True show ?thesis unfolding parse_record_def record_scope_def by (simp only: step if_True)
  next
    case False
    then show ?thesis unfolding parse_record_def record_scope_def by (simp only: step)
  qed
qed

lemma parse_record_ok:
  assumes "parse_record sha sc c = Inr r"
  shows "list_ok (snap_list (rec_state r)) \<and> record_scope r = sc \<and>
    deviceListCommitment sha (list_value (snap_list (rec_state r))) = Inr (commitment (rec_state r)) \<and>
    highestEpoch r = epoch (snap_list (rec_state r))"
  using assms createDeviceList_ok by (auto simp: parse_record_def Let_def record_scope_def)

lemma read_stored_record:
  "readRecord sha s sc = Inr (Some r) \<Longrightarrow> stored_record sha s sc = Some r"
  by (auto simp: stored_record_def dest!: readRecord_some)

lemma stored_record_ok:
  assumes "store_ok sha s" and "stored_record sha s sc = Some r"
  shows "record_ok sha r \<and> record_scope r = sc \<and>
    (\<exists>i. canonicalIdentityRecordId sha sc = Inr i \<and> cells s (RECORD_TYPE, i) = Some (JsonText (record_value r)))"
proof -
  from assms(2) obtain i c where i: "canonicalIdentityRecordId sha sc = Inr i" "cells s (RECORD_TYPE, i) = Some c"
    and r: "parse_record sha sc c = Inr r"
    by (auto simp: stored_record_def split: sum.splits option.splits)
  with assms(1) obtain r' where r': "c = JsonText (record_value r')" "record_ok sha r'"
    by (auto simp: store_ok_def)
  with r parse_record_value [OF r'(2), of sc] have "r' = r" by (auto split: if_splits)
  with i r r' parse_record_ok [OF r] show ?thesis by auto
qed

text \<open>Installing a valid record keeps the invariant and is read back by its scope only.\<close>

lemma store_ok_write:
  assumes "store_ok sha s" and "record_ok sha r" and "canonicalIdentityRecordId sha (record_scope r) = Inr i"
    and "cells t = plan_cells s (write_both s i (record_value r) w)"
  shows "store_ok sha t" and "stored_record sha t (record_scope r) = Some r"
  using assms(1-3) unfolding store_ok_def stored_record_def assms(4)
  by (auto simp: write_both_def parse_record_value)

lemma stored_frame:
  assumes "cells t = plan_cells s (write_both s i (record_value r) w)" and "record_ok sha r"
    and "stored_record sha s sc = Some r'" and "sc \<noteq> record_scope r"
    and "cells s (RECORD_TYPE, i) = None \<or> stored_record sha s (record_scope r) \<noteq> None"
    and "canonicalIdentityRecordId sha (record_scope r) = Inr i" and "store_ok sha s"
  shows "stored_record sha t sc = Some r'"
proof -
  from stored_record_ok [OF assms(7,3)] obtain j where j: "canonicalIdentityRecordId sha sc = Inr j"
    "cells s (RECORD_TYPE, j) = Some (JsonText (record_value r'))" "record_ok sha r'" "record_scope r' = sc" by auto
  have "j \<noteq> i"
  proof
    assume "j = i"
    with j assms(5) obtain r0 where r0: "stored_record sha s (record_scope r) = Some r0" by auto
    from stored_record_ok [OF assms(7) r0] assms(6) j \<open>j = i\<close>
    have "record_value r' = record_value r0" "record_scope r0 = record_scope r" "record_ok sha r0" by auto
    then have "r' = r0" using parse_record_value [OF j(3)] parse_record_value [of sha r0]
      by (metis sum.inject(2))
    with \<open>record_scope r0 = record_scope r\<close> j assms(4) show False by simp
  qed
  with j show ?thesis unfolding stored_record_def assms(1)
    by (simp add: write_both_def parse_record_value)
qed

section \<open>The store implements the persistence interface\<close>

lemma readRecord_after_write:
  assumes "record_ok sha r" and "canonicalIdentityRecordId sha (record_scope r) = Inr i"
    and "cells t = plan_cells s (write_both s i (record_value r)
      (highwater_value (epoch (snap_list (rec_state r))) (commitment (rec_state r))))"
  shows "readRecord sha t (record_scope r) = Inr (Some r)"
proof -
  have "time_ok (epoch (snap_list (rec_state r)))"
    using assms(1) by (simp add: record_ok_def Let_def list_ok_def)
  then have "readHighwater sha t (record_scope r) =
      Inr (Some \<lparr>hw_epoch = epoch (snap_list (rec_state r)), hw_commitment = commitment (rec_state r)\<rparr>)"
    using assms(2,3) by (simp add: readHighwater_def read_cell_def write_both_def parse_highwater_value)
  then show ?thesis
    using assms by (simp add: readRecord_def read_cell_def write_both_def parse_record_value rollback_free_def)
qed

text \<open>The record a commit installs.\<close>

definition committed :: "lifecycle_record \<Rightarrow> commit_input \<Rightarrow> lifecycle_record" where
  "committed r x = \<lparr>rec_state = \<lparr>snap_list = nextList x, commitment = nextCommitment x\<rparr>,
     authorizations = authorizations r @ [authorization_record_value (commit_authorization x)],
     highestEpoch = epoch (nextList x),
     commitmentHistory = push_history (commitmentHistory r) (history_item (epoch (nextList x)) (nextCommitment x))\<rparr>"

lemma committed_update:
  "committed r x = r\<lparr>rec_state := \<lparr>snap_list = nextList x, commitment = nextCommitment x\<rparr>,
     highestEpoch := epoch (nextList x),
     commitmentHistory := push_history (commitmentHistory r) (history_item (epoch (nextList x)) (nextCommitment x)),
     authorizations := authorizations r @ [authorization_record_value (commit_authorization x)]\<rparr>"
  by (cases r) (simp add: committed_def)

lemma committed_select [simp]:
  "rec_state (committed r x) = \<lparr>snap_list = nextList x, commitment = nextCommitment x\<rparr>"
  "authorizations (committed r x) = authorizations r @ [authorization_record_value (commit_authorization x)]"
  by (simp_all add: committed_def)

lemma record_ok_next:
  assumes "record_ok sha r" and "list_ok l" and "deviceListCommitment sha (list_value l) = Inr cm"
    and "epoch l = epoch (snap_list (rec_state r)) + 1"
  shows "record_ok sha (r\<lparr>rec_state := \<lparr>snap_list = l, commitment = cm\<rparr>, highestEpoch := epoch l,
    commitmentHistory := push_history (commitmentHistory r) (history_item (epoch l) cm), authorizations := a\<rparr>)"
  using assms hist_ok_push [of "epoch (snap_list (rec_state r))" "commitmentHistory r" "epoch l" cm]
  by (simp add: record_ok_def Let_def list_ok_def [of l] time_ok_def)

lemma committed_ok:
  assumes "store_ok sha s" and "commit_plan sha s x = Inr (q, e, cm)"
  shows "\<exists>i r. canonicalIdentityRecordId sha (scope x) = Inr i \<and> readRecord sha s (scope x) = Inr (Some r) \<and>
    record_ok sha (committed r x) \<and> record_scope (committed r x) = scope x \<and> e = epoch (nextList x) \<and>
    cm = nextCommitment x \<and> e = expectedEpoch x + 1 \<and>
    find_prop ''transactionNonce'' (rec_nonce (commit_authorization x)) (authorizations r) = Inr None \<and>
    q = Some (write_both s i (record_value (committed r x)) (highwater_value e cm))"
proof -
  from commit_plan_ok [OF assms(2)] obtain i r where
    i: "canonicalIdentityRecordId sha (scope x) = Inr i" "readRecord sha s (scope x) = Inr (Some r)"
    and c: "list_ok (nextList x)" "deviceListCommitment sha (list_value (nextList x)) = Inr cm"
      "identityReference (nextList x) = scope x" "cm = nextCommitment x" "e = epoch (nextList x)"
      "epoch (nextList x) = epoch (snap_list (rec_state r)) + 1" "e = expectedEpoch x + 1"
      "find_prop ''transactionNonce'' (rec_nonce (commit_authorization x)) (authorizations r) = Inr None"
      "q = Some (write_both s i (record_value (committed r x)) (highwater_value e cm))"
    unfolding committed_def by fastforce
  from stored_record_ok [OF assms(1) read_stored_record [OF i(2)]] have "record_ok sha r" by simp
  from record_ok_next [OF this c(1,2,6), of "authorizations r @ [authorization_record_value (commit_authorization x)]"]
  have "record_ok sha (committed r x)" using c(4) by (simp add: committed_update)
  with i c show ?thesis by (auto simp: committed_def record_scope_def)
qed

lemma commit_verified:
  assumes "store_ok sha s" and "run_plan s (commit_plan sha s x) = (t, Inr z)"
  shows "commit sha s x = (t, Inr ()) \<and> (\<exists>i r. canonicalIdentityRecordId sha (scope x) = Inr i \<and>
      readRecord sha s (scope x) = Inr (Some r) \<and> record_ok sha (committed r x) \<and>
      record_scope (committed r x) = scope x \<and> epoch (nextList x) = expectedEpoch x + 1 \<and>
      find_prop ''transactionNonce'' (rec_nonce (commit_authorization x)) (authorizations r) = Inr None \<and>
      cells t = plan_cells s (write_both s i (record_value (committed r x))
        (highwater_value (epoch (nextList x)) (nextCommitment x))))"
proof -
  obtain e cm where z: "z = (e, cm)" by (cases z)
  have "\<not> (\<exists>a. commit_plan sha s x = Inr (None, a))"
    using commit_plan_ok [of sha s x None] by auto
  with run_plan_cases [OF assms(2), of z] obtain p where
    p: "commit_plan sha s x = Inr (Some p, z)" "cells t = plan_cells s p" by blast
  from committed_ok [OF assms(1) p(1) [unfolded z]] obtain i r where
    c: "canonicalIdentityRecordId sha (scope x) = Inr i" "readRecord sha s (scope x) = Inr (Some r)"
      "record_ok sha (committed r x)" "record_scope (committed r x) = scope x" "e = epoch (nextList x)"
      "cm = nextCommitment x" "e = expectedEpoch x + 1"
      "find_prop ''transactionNonce'' (rec_nonce (commit_authorization x)) (authorizations r) = Inr None"
      "p = write_both s i (record_value (committed r x)) (highwater_value e cm)" by auto
  from readRecord_after_write [OF c(3), of i t s] c p(2)
  have "readRecord sha t (scope x) = Inr (Some (committed r x))" by (simp add: committed_def)
  with assms(2) z c have "commit sha s x = (t, Inr ())" by (auto simp: commit_def committed_def)
  with c p show ?thesis by auto
qed

lemma commit_cases:
  assumes "store_ok sha s" and "commit sha s x = (t, res)"
  shows "t = s \<and> (\<exists>e. res = Inl e) \<or>
    res = Inr () \<and> (\<exists>i r. canonicalIdentityRecordId sha (scope x) = Inr i \<and>
      readRecord sha s (scope x) = Inr (Some r) \<and> record_ok sha (committed r x) \<and>
      record_scope (committed r x) = scope x \<and> epoch (nextList x) = expectedEpoch x + 1 \<and>
      find_prop ''transactionNonce'' (rec_nonce (commit_authorization x)) (authorizations r) = Inr None \<and>
      cells t = plan_cells s (write_both s i (record_value (committed r x))
        (highwater_value (epoch (nextList x)) (nextCommitment x))))"
proof -
  obtain y where y: "run_plan s (commit_plan sha s x) = (t, y)"
    using assms(2) by (cases "run_plan s (commit_plan sha s x)") (auto simp: commit_def split: sum.splits)
  show ?thesis
  proof (cases y)
    case (Inl e)
    with y assms(2) run_plan_cases [OF y] show ?thesis by (auto simp: commit_def)
  next
    case (Inr z)
    with commit_verified [OF assms(1) y [unfolded Inr]] assms(2) show ?thesis by simp
  qed
qed

lemma commit_effect:
  assumes "store_ok sha s" and "commit sha s x = (t, Inr u)"
  shows "store_ok sha t \<and> (\<exists>r. stored_record sha s (scope x) = Some r \<and>
      stored_record sha t (scope x) = Some (committed r x) \<and>
      find_prop ''transactionNonce'' (rec_nonce (commit_authorization x)) (authorizations r) = Inr None) \<and>
    (\<forall>sc r'. sc \<noteq> scope x \<longrightarrow> stored_record sha s sc = Some r' \<longrightarrow> stored_record sha t sc = Some r')"
proof -
  from commit_cases [OF assms] obtain i r where
    i: "canonicalIdentityRecordId sha (scope x) = Inr i" and r: "readRecord sha s (scope x) = Inr (Some r)"
    and c: "record_ok sha (committed r x)" "record_scope (committed r x) = scope x"
      "find_prop ''transactionNonce'' (rec_nonce (commit_authorization x)) (authorizations r) = Inr None"
    and t: "cells t = plan_cells s (write_both s i (record_value (committed r x))
        (highwater_value (epoch (nextList x)) (nextCommitment x)))" by auto
  note r' = read_stored_record [OF r]
  from store_ok_write [OF assms(1) c(1) _ t] i c(2)
  have "store_ok sha t" "stored_record sha t (scope x) = Some (committed r x)" by auto
  moreover have "stored_record sha t sc = Some r0" if "sc \<noteq> scope x" "stored_record sha s sc = Some r0" for sc r0
    by (rule stored_frame [OF t c(1) that(2) _ _ _ assms(1)]) (use that c(2) r' i in auto)
  ultimately show ?thesis using r' c(3) by blast
qed

lemma casAvailable_run_plan [simp]: "casAvailable (fst (run_plan s x)) = casAvailable s"
  by (auto simp: run_plan_def writeAtomic_def Let_def compareAndSwapRecords_def split: sum.split prod.split option.split)

lemma write_both_succeeds:
  "casAvailable s \<Longrightarrow> \<exists>t. run_plan s (Inr (Some (write_both s i v w), a)) = (t, Inr a)"
  by (simp add: run_plan_def writeAtomic_def write_both_def compareAndSwapRecords_def read_cell_def)

lemma commit_succeeds:
  assumes "store_ok sha s" and "casAvailable s" and "commit_plan sha s x = Inr y"
  shows "\<exists>t. commit sha s x = (t, Inr ())"
proof -
  obtain q e cm where y: "y = (q, e, cm)" by (cases y)
  from committed_ok [OF assms(1), of x q e cm] assms(3) y obtain i v w where
    "commit_plan sha s x = Inr (Some (write_both s i v w), e, cm)" by auto
  with write_both_succeeds [OF assms(2), of i v w "(e, cm)"] obtain t where
    "run_plan s (commit_plan sha s x) = (t, Inr (e, cm))" by auto
  from commit_verified [OF assms(1) this] show ?thesis by blast
qed

lemma commit_read_back:
  assumes "store_ok sha s" and "commit sha s x = (t, Inr ())"
  shows "read_lifecycle sha t (scope x) = Inr (Some \<lparr>snap_list = nextList x, commitment = nextCommitment x\<rparr>)"
proof -
  from commit_cases [OF assms] obtain i r where c: "canonicalIdentityRecordId sha (scope x) = Inr i"
    "record_ok sha (committed r x)" "record_scope (committed r x) = scope x"
    "cells t = plan_cells s (write_both s i (record_value (committed r x))
        (highwater_value (epoch (nextList x)) (nextCommitment x)))" by auto
  from readRecord_after_write [OF c(2), of i t s] c show ?thesis by (simp add: read_lifecycle_def)
qed

definition used_nonces :: "(u8 list \<Rightarrow> u8 list) \<Rightarrow> store \<Rightarrow> string \<Rightarrow> string set" where
  "used_nonces sha s sc =
     (case stored_record sha s sc of
        None \<Rightarrow> {}
      | Some r \<Rightarrow> {n. \<exists>v\<in>set (authorizations r). get_prop v ''transactionNonce'' = VStr n})"

lemma find_prop_none: "find_prop k x vs = Inr None \<Longrightarrow> v \<in> set vs \<Longrightarrow> get_prop v k \<noteq> VStr x"
  by (induction vs) (auto simp: member_def split: if_splits)

lemma nonce_of_value [simp]:
  "get_prop (authorization_record_value r) ''transactionNonce'' = VStr (rec_nonce r)"
  by (simp add: authorization_record_value_def)

lemma commit_fst_cases:
  "store_ok sha s \<Longrightarrow> fst (commit sha s x) = s \<or> (\<exists>t u. commit sha s x = (t, Inr u))"
  using commit_cases [of sha s x "fst (commit sha s x)" "snd (commit sha s x)"] by (cases "commit sha s x") auto

interpretation lifecycle: lifecycle_persistence "read_lifecycle sha" "readAuthorization sha" "commit sha"
    "stored sha" "used_nonces sha" "store_ok sha"
  for sha
proof unfold_locales
  fix s sc st
  assume "read_lifecycle sha s sc = Inr (Some st)"
  then show "stored sha s sc = Some st"
    by (cases "readRecord sha s sc") (auto simp: read_lifecycle_def stored_def dest!: read_stored_record)
next
  fix s sc st
  assume "stored sha s sc = Some st"
  then show "list_ok (snap_list st)"
    by (auto simp: stored_def stored_record_def split: sum.splits option.splits dest!: parse_record_ok)
next
  fix s x
  assume ok: "store_ok sha s"
  from commit_fst_cases [OF ok] commit_effect [OF ok] ok
  show "store_ok sha (fst (commit sha s x))" by (metis fst_conv)
next
  fix s x t u
  assume "store_ok sha s" and "commit sha s x = (t, Inr u)"
  from commit_effect [OF this]
  show "stored sha t (scope x) = Some \<lparr>snap_list = nextList x, commitment = nextCommitment x\<rparr>"
    by (auto simp: stored_def)
next
  fix s x t u sc st
  assume "store_ok sha s" and "commit sha s x = (t, Inr u)" and "sc \<noteq> scope x" and "stored sha s sc = Some st"
  with commit_effect [of sha s x t u] show "stored sha t sc = Some st" by (auto simp: stored_def)
next
  fix s x t e
  assume "store_ok sha s" and "commit sha s x = (t, Inl e)"
  from commit_cases [OF this] show "t = s" by auto
next
  fix s x t u
  assume "store_ok sha s" and "commit sha s x = (t, Inr u)"
  from commit_effect [OF this]
  show "rec_nonce (commit_authorization x) \<in> used_nonces sha t (scope x) - used_nonces sha s (scope x)"
    by (auto simp: used_nonces_def dest: find_prop_none)
next
  fix s x sc
  assume ok: "store_ok sha s"
  from commit_fst_cases [OF ok] show "used_nonces sha s sc \<subseteq> used_nonces sha (fst (commit sha s x)) sc"
  proof
    assume "\<exists>t u. commit sha s x = (t, Inr u)"
    then obtain t u where "commit sha s x = (t, Inr u)" by blast
    with commit_effect [OF ok this] show ?thesis
      by (cases "sc = scope x"; cases "stored_record sha s sc") (auto simp: used_nonces_def)
  qed simp
qed

section \<open>The device-management machine\<close>

text \<open>
  Everything the program does to the lifecycle store. \<open>AdoptTrustState\<close> is the
  handler of a received trust-state snapshot: it reads the current snapshot and
  installs the received one over it.
\<close>

datatype device_event =
    ApplyEnrollment service_env authorization device_context
  | ConfirmEnrollment service_env authorization device_context confirmation
  | ApplyRevocation service_env authorization device_context "confirmation option"
  | StartScope string jsval
  | AdoptApproval string snapshot authorization
  | AdoptTrustState string snapshot string string
  | Suspend string int string

definition adopt ::
  "(u8 list \<Rightarrow> u8 list) \<Rightarrow> store \<Rightarrow> string \<Rightarrow> snapshot \<Rightarrow> string \<Rightarrow> string \<Rightarrow> store \<times> unit outcome"
where
  "adopt sha s sc nxt d i =
     (case read_lifecycle sha s sc of
        Inr (Some cur) \<Rightarrow> installTrustUpdate sha s sc cur nxt d i
      | _ \<Rightarrow> (s, Inl ''Device trust is unavailable.''))"

definition void :: "'s \<times> 'a outcome \<Rightarrow> 's \<times> unit outcome" where
  "void x = (fst x, map_sum id (\<lambda>_. ()) (snd x))"

fun device_step :: "(u8 list \<Rightarrow> u8 list) \<Rightarrow> store \<Rightarrow> device_event \<Rightarrow> store \<times> unit outcome" where
  "device_step sha s (ApplyEnrollment env a ctx) =
     void (applyEnrollment (read_lifecycle sha) (commit sha) env s a ctx)"
| "device_step sha s (ConfirmEnrollment env a ctx c) =
     void (confirmEnrollment (read_lifecycle sha) (readAuthorization sha) (commit sha) env s a ctx c)"
| "device_step sha s (ApplyRevocation env a ctx c) =
     void (applyRevocation (read_lifecycle sha) (commit sha) env s a ctx c)"
| "device_step sha s (StartScope sc v) = void (initialize sha s sc v)"
| "device_step sha s (AdoptApproval sc st a) = installEnrollmentApproval sha s sc st a"
| "device_step sha s (AdoptTrustState sc nxt d i) = adopt sha s sc nxt d i"
| "device_step sha s (Suspend sc e c) = suspendTrust sha s sc e c"

definition device_grows :: "(u8 list \<Rightarrow> u8 list) \<Rightarrow> store \<Rightarrow> store \<Rightarrow> bool" where
  "device_grows sha s t \<longleftrightarrow>
     (\<forall>sc st. stored sha s sc = Some st \<longrightarrow>
        (\<exists>st'. stored sha t sc = Some st' \<and> evolves (snap_list st) (snap_list st'))) \<and>
     (\<forall>sc. used_nonces sha s sc \<subseteq> used_nonces sha t sc)"

text \<open>Steps that keep every stored record, and the two kinds of write outside the service.\<close>

lemma records_kept:
  assumes "\<And>sc r. stored_record sha s sc = Some r \<Longrightarrow> stored_record sha t sc = Some r"
  shows "device_grows sha s t"
proof -
  have "used_nonces sha s sc \<subseteq> used_nonces sha t sc" for sc
    using assms [of sc] by (cases "stored_record sha s sc") (auto simp: used_nonces_def)
  moreover have "stored sha s sc = Some st \<Longrightarrow> stored sha t sc = Some st" for sc st
    using assms [of sc] by (auto simp: stored_def)
  ultimately show ?thesis by (fastforce simp: device_grows_def)
qed

lemma device_grows_refl: "device_grows sha s s"
  by (rule records_kept)

lemma fresh_write:
  assumes "store_ok sha s" and "cells s (RECORD_TYPE, i) = None" and "record_ok sha r"
    and i: "canonicalIdentityRecordId sha (record_scope r) = Inr i"
    and t: "cells t = plan_cells s (write_both s i (record_value r) w)"
  shows "store_ok sha t \<and> device_grows sha s t"
proof -
  have "stored_record sha s (record_scope r) = None" using assms(2) i by (simp add: stored_record_def)
  then have "stored_record sha t sc = Some r'" if "stored_record sha s sc = Some r'" for sc r'
    by (intro stored_frame [OF t assms(3) that _ _ i assms(1)]) (use that assms(2) in auto)
  then show ?thesis
    using store_ok_write(1) [OF assms(1,3) i t] records_kept by blast
qed

lemma same_records:
  assumes "store_ok sha s" and "\<And>i. cells t (RECORD_TYPE, i) = cells s (RECORD_TYPE, i)"
  shows "store_ok sha t \<and> device_grows sha s t"
proof
  show "store_ok sha t" using assms by (simp add: store_ok_def)
  show "device_grows sha s t" by (rule records_kept) (simp only: stored_record_def assms(2))
qed

lemma single_record_ok:
  assumes "list_ok (snap_list st)" and "deviceListCommitment sha (list_value (snap_list st)) = Inr (commitment st)"
  shows "record_ok sha \<lparr>rec_state = st, authorizations = a, highestEpoch = epoch (snap_list st),
    commitmentHistory = [history_item (epoch (snap_list st)) (commitment st)]\<rparr>"
  using assms by (auto simp: record_ok_def hist_ok_def list_ok_def time_ok_def Let_def)

lemma commitment_ok: "deviceListCommitment sha (list_value l) = Inr c \<Longrightarrow> list_ok l"
  by (cases "createDeviceList (list_value l)")
    (auto simp: deviceListCommitment_def canonicalDeviceListJson_def dest: createDeviceList_ok createDeviceList_fields)

lemma initialize_step:
  assumes "store_ok sha s"
  shows "store_ok sha (fst (initialize sha s sc v)) \<and> device_grows sha s (fst (initialize sha s sc v))"
proof -
  define x where "x = and_then (canonicalIdentityRecordId sha sc) (\<lambda>i.
       and_then (readRecord sha s sc) (\<lambda>existing.
         case existing of
           Some r \<Rightarrow> Inr (None, rec_state r)
         | None \<Rightarrow>
             and_then (createDeviceList v) (\<lambda>l.
             and_then (require (identityReference l = sc) ''Device lifecycle scope mismatch.'') (\<lambda>_.
             and_then (deviceListCommitment sha (list_value l)) (\<lambda>cm.
               Inr (Some (write_both s i
                 (record_value \<lparr>rec_state = \<lparr>snap_list = l, commitment = cm\<rparr>, authorizations = [],
                   highestEpoch = epoch l, commitmentHistory = [history_item (epoch l) cm]\<rparr>)
                 (highwater_value (epoch l) cm)), \<lparr>snap_list = l, commitment = cm\<rparr>))))))"
  have init: "initialize sha s sc v = run_plan s x" by (simp only: initialize_def x_def)
  from run_plan_same [of s x] show ?thesis
  proof
    assume "\<exists>p a. x = Inr (Some p, a) \<and> cells (fst (run_plan s x)) = plan_cells s p"
    then obtain i l cm where i: "canonicalIdentityRecordId sha sc = Inr i" "readRecord sha s sc = Inr None"
      and l: "createDeviceList v = Inr l" "identityReference l = sc" "deviceListCommitment sha (list_value l) = Inr cm"
      and t: "cells (fst (run_plan s x)) = plan_cells s (write_both s i
                 (record_value \<lparr>rec_state = \<lparr>snap_list = l, commitment = cm\<rparr>, authorizations = [],
                   highestEpoch = epoch l, commitmentHistory = [history_item (epoch l) cm]\<rparr>)
                 (highwater_value (epoch l) cm))"
      unfolding x_def by (auto split: option.split_asm)
    have "record_ok sha \<lparr>rec_state = \<lparr>snap_list = l, commitment = cm\<rparr>, authorizations = [],
        highestEpoch = epoch l, commitmentHistory = [history_item (epoch l) cm]\<rparr>"
      using single_record_ok [of "\<lparr>snap_list = l, commitment = cm\<rparr>"] l(3) commitment_ok [OF l(3)] by simp
    from fresh_write [OF assms _ this _ t] readRecord_none [OF i(2,1)] l(2) i(1)
    show ?thesis by (simp add: init record_scope_def)
  qed (use assms device_grows_refl in \<open>simp add: init\<close>)
qed

lemma approval_step:
  assumes "store_ok sha s"
  shows "store_ok sha (fst (installEnrollmentApproval sha s sc st a)) \<and>
    device_grows sha s (fst (installEnrollmentApproval sha s sc st a))"
proof -
  obtain x where x: "installEnrollmentApproval sha s sc st a = run_plan s x"
    and p: "\<And>p u. x = Inr (Some p, u) \<Longrightarrow> \<exists>i. canonicalIdentityRecordId sha sc = Inr i \<and>
      cells s (RECORD_TYPE, i) = None \<and> identityReference (snap_list st) = sc \<and>
      deviceListCommitment sha (list_value (snap_list st)) = Inr (commitment st) \<and>
      p = write_both s i (record_value \<lparr>rec_state = st,
             authorizations = [authorization_record_value (record_of a)], highestEpoch = epoch (snap_list st),
             commitmentHistory = [history_item (epoch (snap_list st)) (commitment st)]\<rparr>)
           (highwater_value (epoch (snap_list st)) (commitment st))"
    unfolding installEnrollmentApproval_def Let_def by (fastforce simp: read_cell_def)
  from run_plan_same [of s x] show ?thesis
  proof
    assume "\<exists>q u. x = Inr (Some q, u) \<and> cells (fst (run_plan s x)) = plan_cells s q"
    with p obtain i where i: "canonicalIdentityRecordId sha sc = Inr i" "cells s (RECORD_TYPE, i) = None"
      "identityReference (snap_list st) = sc"
      "deviceListCommitment sha (list_value (snap_list st)) = Inr (commitment st)"
      "cells (fst (run_plan s x)) = plan_cells s (write_both s i (record_value \<lparr>rec_state = st,
             authorizations = [authorization_record_value (record_of a)], highestEpoch = epoch (snap_list st),
             commitmentHistory = [history_item (epoch (snap_list st)) (commitment st)]\<rparr>)
           (highwater_value (epoch (snap_list st)) (commitment st)))" by blast
    from fresh_write [OF assms i(2) single_record_ok [OF commitment_ok [OF i(4)] i(4)] _ i(5)] i(1,3)
    show ?thesis by (simp add: x record_scope_def)
  qed (use assms device_grows_refl in \<open>simp add: x\<close>)
qed

lemma suspend_step:
  assumes "store_ok sha s"
  shows "store_ok sha (fst (suspendTrust sha s sc e cm)) \<and> device_grows sha s (fst (suspendTrust sha s sc e cm))"
proof -
  obtain x where x: "suspendTrust sha s sc e cm = run_plan s x"
    and p: "\<And>p u. x = Inr (Some p, u) \<Longrightarrow> cells s (RECORD_TYPE, plan_id p) = Some (plan_next p)"
    unfolding suspendTrust_def by (fastforce simp: read_cell_def split: if_splits)
  from run_plan_same [of s x] show ?thesis
  proof
    assume "\<exists>q u. x = Inr (Some q, u) \<and> cells (fst (run_plan s x)) = plan_cells s q"
    with p have "cells (fst (run_plan s x)) (RECORD_TYPE, i) = cells s (RECORD_TYPE, i)" for i by auto
    from same_records [OF assms this] show ?thesis by (simp add: x)
  qed (use assms device_grows_refl in \<open>simp add: x\<close>)
qed

lemma trust_evolves:
  assumes "list_all (trust_change_ok n) (devices c)" and "identityReference n = identityReference c"
    and "epoch n = epoch c + 1"
  shows "evolves c n"
proof -
  have "\<exists>e'\<in>set (devices n). deviceId e' = deviceId e \<and> publicIdentityReference e' = publicIdentityReference e \<and>
      algorithm e' = algorithm e \<and> reaches (state e) (state e')" if "e \<in> set (devices c)" for e
  proof -
    from that assms(1) obtain u where u: "deviceEntryById n (deviceId e) = Some u"
      and k: "publicIdentityReference u = publicIdentityReference e" "algorithm u = algorithm e"
        "isValidDeviceLifecycleTransition (state e) (state u)"
      by (auto simp: list_all_iff trust_change_ok_def isValidDeviceLifecycleTransition_def split: option.splits)
    from find_by_id [OF u] k reaches.further [OF reaches.here k(3)] show ?thesis by blast
  qed
  with assms show ?thesis by (simp add: evolves_def)
qed

lemma trust_step:
  assumes ok: "store_ok sha s" and r: "readRecord sha s sc = Inr (Some r)"
  shows "store_ok sha (fst (installTrustUpdate sha s sc (rec_state r) nxt d j)) \<and>
    device_grows sha s (fst (installTrustUpdate sha s sc (rec_state r) nxt d j))"
proof -
  define r' where "r' = r\<lparr>rec_state := nxt, highestEpoch := epoch (snap_list nxt),
    commitmentHistory := push_history (commitmentHistory r) (history_item (epoch (snap_list nxt)) (commitment nxt))\<rparr>"
  obtain x where x: "installTrustUpdate sha s sc (rec_state r) nxt d j = run_plan s x"
    and p: "\<And>p u. x = Inr (Some p, u) \<Longrightarrow> \<exists>i. canonicalIdentityRecordId sha sc = Inr i \<and>
      identityReference (snap_list nxt) = sc \<and> epoch (snap_list nxt) = epoch (snap_list (rec_state r)) + 1 \<and>
      deviceListCommitment sha (list_value (snap_list nxt)) = Inr (commitment nxt) \<and>
      list_all (trust_change_ok (snap_list nxt)) (devices (snap_list (rec_state r))) \<and>
      p = write_both s i (record_value r') (highwater_value (epoch (snap_list nxt)) (commitment nxt))"
    unfolding installTrustUpdate_def r'_def using r by fastforce
  note sr = read_stored_record [OF r]
  from stored_record_ok [OF ok sr] have rok: "record_ok sha r" "record_scope r = sc" by auto
  from run_plan_same [of s x] show ?thesis
  proof
    assume "\<exists>q u. x = Inr (Some q, u) \<and> cells (fst (run_plan s x)) = plan_cells s q"
    with p obtain i where i: "canonicalIdentityRecordId sha sc = Inr i" "identityReference (snap_list nxt) = sc"
      "epoch (snap_list nxt) = epoch (snap_list (rec_state r)) + 1"
      "deviceListCommitment sha (list_value (snap_list nxt)) = Inr (commitment nxt)"
      "list_all (trust_change_ok (snap_list nxt)) (devices (snap_list (rec_state r)))"
      and t: "cells (fst (run_plan s x)) = plan_cells s (write_both s i (record_value r')
        (highwater_value (epoch (snap_list nxt)) (commitment nxt)))" by blast
    have sel: "rec_state r' = nxt" "authorizations r' = authorizations r" "record_scope r' = sc"
      by (simp_all add: r'_def record_scope_def i(2))
    have r'ok: "record_ok sha r'"
      using record_ok_next [OF rok(1) commitment_ok [OF i(4)] i(4,3), of "authorizations r"]
      by (cases nxt) (simp add: r'_def)
    note w = store_ok_write [OF ok r'ok _ t, unfolded sel, OF i(1)]
    have frame: "stored_record sha (fst (run_plan s x)) sc' = Some r0"
      if "sc' \<noteq> sc" "stored_record sha s sc' = Some r0" for sc' r0
      by (rule stored_frame [OF t r'ok that(2) _ _ _ ok]) (use that sel sr i in auto)
    have ev: "evolves (snap_list (rec_state r)) (snap_list nxt)"
      using trust_evolves [OF i(5)] i(2,3) rok(2) by (simp add: record_scope_def)
    have "device_grows sha s (fst (run_plan s x))"
      unfolding device_grows_def
    proof (intro conjI allI impI)
      fix sc' st
      assume "stored sha s sc' = Some st"
      with w(2) sr frame ev sel show "\<exists>st'. stored sha (fst (run_plan s x)) sc' = Some st' \<and> evolves (snap_list st) (snap_list st')"
        by (cases "sc' = sc") (auto simp: stored_def)
    next
      fix sc'
      show "used_nonces sha s sc' \<subseteq> used_nonces sha (fst (run_plan s x)) sc'"
        using w(2) sr frame sel by (cases "sc' = sc"; cases "stored_record sha s sc'") (auto simp: used_nonces_def)
    qed
    with w(1) show ?thesis by (simp add: x)
  qed (use ok device_grows_refl in \<open>simp add: x\<close>)
qed

lemma adopt_step:
  assumes "store_ok sha s"
  shows "store_ok sha (fst (adopt sha s sc nxt d i)) \<and> device_grows sha s (fst (adopt sha s sc nxt d i))"
proof (cases "\<exists>r. readRecord sha s sc = Inr (Some r)")
  case True
  then obtain r where "readRecord sha s sc = Inr (Some r)" by blast
  with trust_step [OF assms this] show ?thesis by (simp add: adopt_def read_lifecycle_def)
next
  case False
  then have "fst (adopt sha s sc nxt d i) = s"
    by (cases "readRecord sha s sc") (auto simp: adopt_def read_lifecycle_def split: option.splits)
  with assms device_grows_refl show ?thesis by simp
qed

lemma service_grows:
  assumes "\<And>sc st. stored sha s sc = Some st \<Longrightarrow> \<exists>st'. stored sha t sc = Some st' \<and> evolves (snap_list st) (snap_list st')"
    and "\<And>sc. used_nonces sha s sc \<subseteq> used_nonces sha t sc"
  shows "device_grows sha s t"
  using assms by (simp add: device_grows_def)

lemma service_step:
  assumes ok: "store_ok sha s"
    and c: "\<And>i. x = Inr i \<Longrightarrow> \<exists>st. read_lifecycle sha s (scope i) = Inr (Some st) \<and> list_follows st (nextList i)"
  shows "store_ok sha (fst (commit_with (commit sha) s x)) \<and>
    device_grows sha s (fst (commit_with (commit sha) s x))"
proof
  show "store_ok sha (fst (commit_with (commit sha) s x))" by (rule lifecycle.step_inv [OF ok])
  show "device_grows sha s (fst (commit_with (commit sha) s x))"
  proof (rule service_grows)
    fix sc st
    assume "stored sha s sc = Some st"
    from lifecycle.step_evolves [OF ok prod.collapse [symmetric] c this]
    show "\<exists>st'. stored sha (fst (commit_with (commit sha) s x)) sc = Some st' \<and> evolves (snap_list st) (snap_list st')"
      by blast
  qed (rule lifecycle.step_keeps [OF ok])
qed

lemma device_step_ok:
  assumes "store_ok sha s"
  shows "store_ok sha (fst (device_step sha s ev)) \<and> device_grows sha s (fst (device_step sha s ev))"
proof (cases ev)
  case (ApplyEnrollment env a ctx)
  have "store_ok sha (fst (applyEnrollment (read_lifecycle sha) (commit sha) env s a ctx)) \<and>
      device_grows sha s (fst (applyEnrollment (read_lifecycle sha) (commit sha) env s a ctx))"
    unfolding applyEnrollment_def
    by (rule service_step [OF assms]) (use check_enrollment_ok [of env "read_lifecycle sha s" a ctx, OF _ lifecycle.read_list_ok] in blast)
  with ApplyEnrollment show ?thesis by (simp add: void_def)
next
  case (ConfirmEnrollment env a ctx c)
  have "store_ok sha (fst (confirmEnrollment (read_lifecycle sha) (readAuthorization sha) (commit sha) env s a ctx c)) \<and>
      device_grows sha s (fst (confirmEnrollment (read_lifecycle sha) (readAuthorization sha) (commit sha) env s a ctx c))"
    unfolding confirmEnrollment_def
    by (rule service_step [OF assms]) (use check_confirmation_ok [of env "read_lifecycle sha s" "readAuthorization sha s" a ctx c,
        OF _ lifecycle.read_list_ok] in blast)
  with ConfirmEnrollment show ?thesis by (simp add: void_def)
next
  case (ApplyRevocation env a ctx c)
  have "store_ok sha (fst (applyRevocation (read_lifecycle sha) (commit sha) env s a ctx c)) \<and>
      device_grows sha s (fst (applyRevocation (read_lifecycle sha) (commit sha) env s a ctx c))"
    unfolding applyRevocation_def
    by (rule service_step [OF assms]) (use check_revocation_ok [of env "read_lifecycle sha s" a ctx c, OF _ lifecycle.read_list_ok] in blast)
  with ApplyRevocation show ?thesis by (simp add: void_def)
qed (use assms initialize_step approval_step adopt_step suspend_step in \<open>simp_all add: void_def\<close>)

interpretation devices: monotone_machine "device_step sha" "store_ok sha" "device_grows sha"
  for sha
proof unfold_locales
  fix s t u
  assume st: "device_grows sha s t" and tu: "device_grows sha t u"
  show "device_grows sha s u"
  proof (rule service_grows)
    fix sc v
    assume "stored sha s sc = Some v"
    with st obtain v' where v': "stored sha t sc = Some v'" "evolves (snap_list v) (snap_list v')"
      unfolding device_grows_def by blast
    with tu obtain v'' where "stored sha u sc = Some v''" "evolves (snap_list v') (snap_list v'')"
      unfolding device_grows_def by blast
    with v' show "\<exists>st'. stored sha u sc = Some st' \<and> evolves (snap_list v) (snap_list st')"
      using evolves_trans by blast
  next
    fix sc
    show "used_nonces sha s sc \<subseteq> used_nonces sha u sc" using st tu unfolding device_grows_def by blast
  qed
qed (use device_step_ok device_grows_refl in auto)

text \<open>A store that holds nothing yet.\<close>

definition fresh_store :: store where
  "fresh_store = \<lparr>cells = \<lambda>_. None, casAvailable = True\<rparr>"

lemma fresh_ok [simp]: "store_ok sha fresh_store"
  by (simp add: store_ok_def fresh_store_def)

lemmas run_ok = devices.run_inv [OF fresh_ok]

text \<open>The scope and nonce that a service operation claims when it succeeds.\<close>

fun claims :: "device_event \<Rightarrow> (string \<times> string) option" where
  "claims (ApplyEnrollment env a ctx) = Some (userScope ctx, transactionNonce a)"
| "claims (ConfirmEnrollment env a ctx c) = Some (userScope ctx, confirmationNonce c)"
| "claims (ApplyRevocation env a ctx c) = Some (userScope ctx, transactionNonce a)"
| "claims _ = None"

lemma void_ok: "snd (void x) = Inr u \<Longrightarrow> \<exists>s a. x = (s, Inr a)"
  by (cases x; cases "snd x") (auto simp: void_def)

lemma claimed:
  assumes ok: "store_ok sha s" and c: "claims ev = Some (sc, n)" and r: "snd (device_step sha s ev) = Inr u"
  shows "n \<in> used_nonces sha (fst (device_step sha s ev)) sc - used_nonces sha s sc"
proof (cases ev)
  case (ApplyEnrollment env a ctx)
  with r void_ok obtain t st where t: "applyEnrollment (read_lifecycle sha) (commit sha) env s a ctx = (t, Inr st)"
    by fastforce
  from lifecycle.applyEnrollment_claims [OF ok t] c ApplyEnrollment t show ?thesis by (simp add: void_def)
next
  case (ConfirmEnrollment env a ctx d)
  with r void_ok obtain t st where
    t: "confirmEnrollment (read_lifecycle sha) (readAuthorization sha) (commit sha) env s a ctx d = (t, Inr st)"
    by fastforce
  from lifecycle.confirmEnrollment_claims [OF ok t] c ConfirmEnrollment t show ?thesis by (simp add: void_def)
next
  case (ApplyRevocation env a ctx d)
  with r void_ok obtain t st where t: "applyRevocation (read_lifecycle sha) (commit sha) env s a ctx d = (t, Inr st)"
    by fastforce
  from lifecycle.applyRevocation_claims [OF ok t] c ApplyRevocation t show ?thesis by (simp add: void_def)
qed (use c in simp_all)

lemma run_grows_append:
  "device_grows sha (final (device_step sha) fresh_store es) (final (device_step sha) fresh_store (es @ fs))"
  by (simp add: final_append devices.run_grows [OF run_ok])

lemma initialize_fresh:
  assumes "list_ok l" and "canonicalIdentityRecordId sha (identityReference l) = Inr i"
    and "deviceListCommitment sha (list_value l) = Inr c"
  shows "initialize sha fresh_store (identityReference l) (list_value l) =
    (fst (initialize sha fresh_store (identityReference l) (list_value l)), Inr \<lparr>snap_list = l, commitment = c\<rparr>) \<and>
   readRecord sha (fst (initialize sha fresh_store (identityReference l) (list_value l))) (identityReference l) =
     Inr (Some \<lparr>rec_state = \<lparr>snap_list = l, commitment = c\<rparr>, authorizations = [], highestEpoch = epoch l,
       commitmentHistory = [history_item (epoch l) c]\<rparr>)"
proof -
  let ?r = "\<lparr>rec_state = \<lparr>snap_list = l, commitment = c\<rparr>, authorizations = [], highestEpoch = epoch l,
       commitmentHistory = [history_item (epoch l) c]\<rparr>"
  have none: "readRecord sha fresh_store (identityReference l) = Inr None"
    using assms(2) by (simp add: readRecord_def readHighwater_def read_cell_def fresh_store_def)
  let ?p = "write_both fresh_store i (record_value ?r) (highwater_value (epoch l) c)"
  have init: "initialize sha fresh_store (identityReference l) (list_value l) =
      run_plan fresh_store (Inr (Some ?p, \<lparr>snap_list = l, commitment = c\<rparr>))"
    using assms none by (simp add: initialize_def createDeviceList_value)
  have w: "\<exists>t. writeAtomic fresh_store ?p = (t, Inr ()) \<and> cells t = plan_cells fresh_store ?p"
    by (simp add: writeAtomic_def compareAndSwapRecords_def write_both_def plan_cells_def fresh_store_def read_cell_def)
  have rok: "record_ok sha ?r" using single_record_ok [of "\<lparr>snap_list = l, commitment = c\<rparr>"] assms by simp
  from w obtain t where t: "writeAtomic fresh_store ?p = (t, Inr ())" "cells t = plan_cells fresh_store ?p" by blast
  from readRecord_after_write [OF rok, of i t fresh_store] t(2) assms(2)
  have "readRecord sha t (identityReference l) = Inr (Some ?r)" by (simp add: record_scope_def)
  with t init show ?thesis by (simp add: run_plan_def)
qed

end
