(* ===== verification/DeviceProperties.thy ===== *)
theory DeviceProperties
  imports DeviceStore
begin

text \<open>
  What the device lifecycle guarantees of the program's own store, over whole
  runs: permanence of revocation and identity, single use of authorizations,
  detection of rolled-back records, and the effect of a revocation. The
  witnesses run the operations on a concrete scope with a constant hash.
\<close>

section \<open>A concrete run\<close>

definition zero_hash :: "u8 list \<Rightarrow> u8 list" where
  "zero_hash b = replicate 32 0"

definition zeros :: string where
  "zeros = replicate 64 (CHR ''0'')"

definition desk :: device_entry where
  "desk = \<lparr>deviceId = ''desk'', publicIdentityReference = ''desk-key'', algorithm = ''vodozemac'',
     state = Active, createdAt = 1, revokedAt = None, label = None\<rparr>"

definition lost :: device_entry where
  "lost = \<lparr>deviceId = ''lost'', publicIdentityReference = ''lost-key'', algorithm = ''vodozemac'',
     state = Revoked, createdAt = 1, revokedAt = Some 2, label = None\<rparr>"

definition scope_list :: device_list where
  "scope_list = \<lparr>identityReference = ''acct'', epoch = 0, previousCommitment = None, devices = [desk, lost]\<rparr>"

definition desk_context :: device_context where
  "desk_context = \<lparr>contextRef = 0, cryptoSession = 0, conversationId = ''room'', userScope = ''acct'',
     authenticatedSender = \<lparr>senderDeviceId = ''desk'', senderIdentityReference = ''desk-key'',
       senderScope = ''acct'', verified = True\<rparr>\<rparr>"

definition desk_env :: service_env where
  "desk_env = \<lparr>hash = zero_hash, verify = \<lambda>_ _. Inr (), clock = \<lambda>_. 10,
     world = \<lparr>issued = \<lambda>_. Some \<lparr>proof_session = 0, proof_payload = None\<rparr>,
       sessions = \<lambda>_. \<lparr>ready = True, encrypted = True\<rparr>, next_ref = 1\<rparr>\<rparr>"

definition enroll_phone :: authorization where
  "enroll_phone = \<lparr>authVersion = 1, operation = Enroll, authScope = ''acct'', authorDeviceId = ''desk'',
     authorIdentityReference = ''desk-key'', targetDeviceId = ''phone'',
     targetPublicIdentityReference = Some ''phone-key'', targetAlgorithm = Some ''vodozemac'',
     previousEpoch = 0, authPreviousCommitment = zeros, transactionNonce = ''nonce-0123456789'',
     sequence = 1, authCreatedAt = 5, authExpiresAt = 50, authorizationDigest = zeros\<rparr>"

definition phone :: device_entry where
  "phone = \<lparr>deviceId = ''phone'', publicIdentityReference = ''phone-key'', algorithm = ''vodozemac'',
     state = Approved_pending_confirmation, createdAt = 5, revokedAt = None, label = None\<rparr>"

definition enrolled_list :: device_list where
  "enrolled_list = \<lparr>identityReference = ''acct'', epoch = 1, previousCommitment = Some zeros,
     devices = [desk, lost, phone]\<rparr>"

definition phone_commit :: commit_input where
  "phone_commit = \<lparr>scope = ''acct'', expectedEpoch = 0, commit_previous = zeros, nextList = enrolled_list,
     nextCommitment = zeros, commit_authorization = record_of enroll_phone\<rparr>"

lemma zero_digest [simp]: "digest_hex zero_hash t = zeros"
proof -
  have "concat (map hex_byte (replicate 32 0)) = zeros" by code_simp
  then show ?thesis by (simp add: digest_hex_def zero_hash_def)
qed

lemma zeros_hex [simp]: "hex64 zeros"
  by code_simp

lemma entries_text_ok:
  "text_ok 256 ''desk''" "text_ok 256 ''desk-key''" "text_ok 256 ''lost''" "text_ok 256 ''lost-key''"
  "text_ok 256 ''phone''" "text_ok 256 ''phone-key''" "text_ok 256 ''acct''" "text_ok 128 ''vodozemac''"
  "id_16_128 ''nonce-0123456789''"
  by code_simp+

lemma sample_times: "time_ok 0" "time_ok 1" "time_ok 2" "time_ok 5" "safe_int 5" "safe_int 50"
  by (simp_all add: time_ok_def safe_int_def MAX_SAFE_INTEGER_def)

lemma concrete_entries_ok: "entry_ok desk" "entry_ok lost" "entry_ok phone"
  by (simp_all add: entry_ok_def desk_def lost_def phone_def entries_text_ok sample_times)

lemma concrete_lists_ok: "list_ok scope_list" "list_ok enrolled_list"
  using concrete_entries_ok
  by (simp_all add: list_ok_def scope_list_def enrolled_list_def entries_text_ok sample_times)
    (simp_all add: desk_def lost_def phone_def)

lemma zero_commitment [simp]: "list_ok l \<Longrightarrow> deviceListCommitment zero_hash (list_value l) = Inr zeros"
  by (simp add: deviceListCommitment_def canonicalDeviceListJson_value)

lemma acct_id: "canonicalIdentityRecordId zero_hash ''acct'' = Inr ''acct''"
  by (simp add: canonicalIdentityRecordId_def is_control_def is_record_char_def is_id_char_def is_digit_def code_def)

lemma scope_identity [simp]: "identityReference scope_list = ''acct''" "epoch scope_list = 0"
  "devices scope_list = [desk, lost]"
  by (simp_all add: scope_list_def)

definition started :: store where
  "started = fst (initialize zero_hash fresh_store ''acct'' (list_value scope_list))"

definition started_record :: lifecycle_record where
  "started_record = \<lparr>rec_state = \<lparr>snap_list = scope_list, commitment = zeros\<rparr>, authorizations = [],
     highestEpoch = 0, commitmentHistory = [history_item 0 zeros]\<rparr>"

lemma started_read: "readRecord zero_hash started ''acct'' = Inr (Some started_record)"
  using initialize_fresh [OF concrete_lists_ok(1), of zero_hash "''acct''" zeros] acct_id concrete_lists_ok(1)
  by (simp add: started_def started_record_def)

lemma started_run:
  "final (device_step zero_hash) fresh_store [StartScope ''acct'' (list_value scope_list)] = started"
  by (simp add: started_def void_def)

lemma started_ok: "store_ok zero_hash started"
  using run_ok [of zero_hash "[StartScope ''acct'' (list_value scope_list)]"] by (simp only: started_run)

lemma started_state: "read_lifecycle zero_hash started ''acct'' = Inr (Some \<lparr>snap_list = scope_list, commitment = zeros\<rparr>)"
  by (simp add: read_lifecycle_def started_read started_record_def)

lemma desk_env_select:
  "hash desk_env = zero_hash" "verify desk_env c a = Inr ()" "clock desk_env n = 10"
  "issued (world desk_env) r = Some \<lparr>proof_session = 0, proof_payload = None\<rparr>"
  "ready (sessions (world desk_env) k)" "encrypted (sessions (world desk_env) k)"
  by (simp_all add: desk_env_def)

lemma desk_context_select:
  "cryptoSession desk_context = 0" "conversationId desk_context = ''room''" "userScope desk_context = ''acct''"
  "senderDeviceId (authenticatedSender desk_context) = ''desk''" "verified (authenticatedSender desk_context)"
  "senderIdentityReference (authenticatedSender desk_context) = ''desk-key''"
  "senderScope (authenticatedSender desk_context) = ''acct''"
  by (simp_all add: desk_context_def)

lemma enroll_checks:
  "check_enrollment desk_env (read_lifecycle zero_hash started) enroll_phone desk_context = Inr phone_commit"
proof -
  have ctx: "assertContext (world desk_env) desk_context v = Inr ()" for v
    unfolding assertContext_def assertIssuedDeviceContext_def Let_def
    by (simp add: desk_env_select desk_context_select)
  have dig: "verifyAuthorizationDigest (hash desk_env) enroll_phone"
    by (simp add: verifyAuthorizationDigest_def compute_authorization_digest_def desk_env_select enroll_phone_def)
  have win: "assertWindow (authCreatedAt enroll_phone) (authExpiresAt enroll_phone) (clock desk_env 0) = Inr ()"
    by (simp add: assertWindow_def enroll_phone_def desk_env_select sample_times)
  have auth: "assertAuthor \<lparr>snap_list = scope_list, commitment = zeros\<rparr> enroll_phone = Inr ()"
    by (simp add: assertAuthor_def deviceEntryById_def assertDeviceCanAuthorize_def enroll_phone_def
        entries_text_ok desk_def)
  have "createDeviceEntry (canonicalEntry phone) = Inr phone"
    by (rule createDeviceEntry_canonical [OF concrete_entries_ok(3)])
  then have entry: "createDeviceEntry (VObj [(''deviceId'', VStr (targetDeviceId enroll_phone)),
          (''publicIdentityReference'', opt_str (targetPublicIdentityReference enroll_phone)),
          (''algorithm'', opt_str (targetAlgorithm enroll_phone)),
          (''state'', VStr ''approved_pending_confirmation''),
          (''createdAt'', VInt (authCreatedAt enroll_phone))]) = Inr phone"
    by (simp add: canonicalEntry_def phone_def enroll_phone_def opt_prop_def opt_str_def)
  have new: "next_list_value \<lparr>snap_list = scope_list, commitment = zeros\<rparr>
      (map canonicalEntry [desk, lost] @ [canonicalEntry phone]) = list_value enrolled_list"
    by (simp add: next_list_value_def list_value_def enrolled_list_def)
  have step: "assertNextEpoch (list_value scope_list) (list_value enrolled_list) = Inr ()"
    by (simp add: assertNextEpoch_def createDeviceList_value concrete_lists_ok) (simp add: enrolled_list_def)
  have prep: "prepare_commit desk_env ''acct'' \<lparr>snap_list = scope_list, commitment = zeros\<rparr>
      (map canonicalEntry [desk, lost] @ [canonicalEntry phone]) (record_of enroll_phone) = Inr phone_commit"
    unfolding prepare_commit_def new
    by (simp add: createDeviceList_value concrete_lists_ok step phone_commit_def desk_env_select)
  have sel: "operation enroll_phone = Enroll" "authScope enroll_phone = ''acct''" "userScope desk_context = ''acct''"
    "authorDeviceId enroll_phone = senderDeviceId (authenticatedSender desk_context)"
    "authorIdentityReference enroll_phone = senderIdentityReference (authenticatedSender desk_context)"
    "previousEpoch enroll_phone = 0" "authPreviousCommitment enroll_phone = zeros"
    "targetDeviceId enroll_phone = ''phone''" "verify desk_env desk_context enroll_phone = Inr ()"
    by (simp_all add: enroll_phone_def desk_context_select desk_env_select)
  have none: "deviceEntryById scope_list ''phone'' = None"
    by (simp add: deviceEntryById_def desk_def lost_def)
  show ?thesis
    unfolding check_enrollment_def read_state_def
    using entry prep dig win auth none by (simp add: ctx sel started_state)
qed

lemma phone_plan: "\<exists>y. commit_plan zero_hash started phone_commit = Inr y"
  using acct_id started_read concrete_lists_ok(2)
  by (simp add: commit_plan_def phone_commit_def createDeviceList_value started_record_def)
    (simp add: enrolled_list_def)

lemma started_cas: "casAvailable started"
  by (simp add: started_def initialize_def fresh_store_def)

lemma phone_committed: "\<exists>t. commit zero_hash started phone_commit = (t, Inr ())"
  using commit_succeeds [OF started_ok started_cas] phone_plan by blast

lemma enroll_succeeds: "snd (device_step zero_hash started (ApplyEnrollment desk_env enroll_phone desk_context)) = Inr ()"
  using phone_committed by (auto simp: void_def applyEnrollment_def enroll_checks commit_with_def)

text \<open>No operation changes what the storage offers.\<close>

lemma step_cas: "casAvailable (fst (device_step sha s ev)) = casAvailable s"
proof -
  have c: "casAvailable (fst (commit_with (commit sha) s x)) = casAvailable s" for x
    by (cases x) (simp_all add: commit_with_def split_beta Let_def commit_fst)
  show ?thesis
    by (cases ev)
      (simp_all add: void_def applyEnrollment_def confirmEnrollment_def applyRevocation_def c initialize_def
        installEnrollmentApproval_def installTrustUpdate_def suspendTrust_def adopt_def split: sum.split option.split)
qed

lemma run_cas: "casAvailable (final (device_step sha) fresh_store es)"
proof -
  have "casAvailable s \<Longrightarrow> casAvailable (final (device_step sha) s es)" for s
    by (induction es arbitrary: s) (simp_all add: step_cas)
  then show ?thesis by (simp add: fresh_store_def)
qed

section \<open>Properties\<close>

text \<open>
  C1. Revocation is permanent, and so is device identity. Over every sequence of
  enrollments, confirmations, revocations, received approvals and trust states,
  and suspensions, from an empty store: whatever a read of a scope returned
  before, a later successful read returns a list that evolved from it. Epochs do
  not decrease, no device disappears or changes its identity, every state is
  reached along permitted transitions, and a revoked device is still revoked.
\<close>

theorem revocation_is_permanent:
  assumes "read_lifecycle sha (final (device_step sha) fresh_store es) sc = Inr (Some st)"
    and "read_lifecycle sha (final (device_step sha) fresh_store (es @ fs)) sc = Inr (Some st')"
  shows "evolves (snap_list st) (snap_list st') \<and>
    (\<forall>e\<in>set (devices (snap_list st)). state e = Revoked \<longrightarrow>
      (\<exists>e'\<in>set (devices (snap_list st')). deviceId e' = deviceId e \<and>
         publicIdentityReference e' = publicIdentityReference e \<and> state e' = Revoked))"
proof -
  from lifecycle.read_stored [OF assms(1)] lifecycle.read_stored [OF assms(2)] run_grows_append [of sha es fs]
  have "evolves (snap_list st) (snap_list st')" unfolding device_grows_def by fastforce
  then show ?thesis unfolding evolves_def using reaches_revoked by metis
qed

theorem revocation_is_permanent_witness:
  "evolves scope_list scope_list \<and>
    (\<exists>e'\<in>set (devices scope_list). deviceId e' = ''lost'' \<and>
       publicIdentityReference e' = ''lost-key'' \<and> state e' = Revoked)"
proof -
  let ?start = "StartScope ''acct'' (list_value scope_list)"
  have "fst (initialize zero_hash started ''acct'' v) = started" for v
    by (simp add: initialize_def acct_id started_read run_plan_def)
  then have "final (device_step zero_hash) fresh_store ([?start] @ [?start]) = started"
    by (simp only: final_append started_run) (simp add: void_def)
  with started_state have "read_lifecycle zero_hash (final (device_step zero_hash) fresh_store ([?start] @ [?start]))
      ''acct'' = Inr (Some \<lparr>snap_list = scope_list, commitment = zeros\<rparr>)"
    by (simp only:)
  from revocation_is_permanent [OF started_state [folded started_run] this] show ?thesis
    by (simp add: desk_def lost_def)
qed

text \<open>
  C3. An authorization nonce is good for one operation: after an enrollment, a
  confirmation or a revocation with a nonce succeeded in a scope, no further
  operation of that scope with the same nonce succeeds, whatever happened in
  between.
\<close>

theorem authorization_used_once:
  assumes "snd (device_step sha (final (device_step sha) fresh_store es) ev) = Inr ()"
    and "claims ev = Some (sc, n)" and "claims ev' = Some (sc, n)"
  shows "snd (device_step sha (final (device_step sha) fresh_store (es @ ev # fs)) ev') \<noteq> Inr ()"
proof
  assume again: "snd (device_step sha (final (device_step sha) fresh_store (es @ ev # fs)) ev') = Inr ()"
  have "n \<in> used_nonces sha (final (device_step sha) fresh_store (es @ [ev])) sc"
    using claimed [OF run_ok assms(2,1)] by (simp add: final_append)
  with run_grows_append [of sha "es @ [ev]" fs]
  have "n \<in> used_nonces sha (final (device_step sha) fresh_store (es @ ev # fs)) sc"
    by (auto simp: device_grows_def)
  with claimed [OF run_ok assms(3) again] show False by simp
qed

theorem authorization_used_once_witness:
  "snd (device_step zero_hash (final (device_step zero_hash) fresh_store
      ([StartScope ''acct'' (list_value scope_list)] @ ApplyEnrollment desk_env enroll_phone desk_context # []))
      (ApplyEnrollment desk_env enroll_phone desk_context)) \<noteq> Inr ()"
  by (rule authorization_used_once [where sc = "''acct''" and n = "''nonce-0123456789''"])
    (simp_all only: started_run enroll_succeeds claims.simps desk_context_select,
      simp_all add: enroll_phone_def)

text \<open>
  C2. Rollback of the stored device list is detected. After a commit succeeded,
  an attacker may replace or delete lifecycle records at will, interleaved with
  any operations of the program: as long as the high-water records are out of
  reach, a read of the scope never again returns an epoch below the committed
  one. It fails instead.
\<close>

theorem rollback_is_detected:
  assumes "commit sha s x = (t, Inr ())"
    and "read_lifecycle sha (final (store_step sha) t evs) (scope x) = Inr (Some st)"
  shows "expectedEpoch x < epoch (snap_list st)"
proof -
  obtain e cm where y: "run_plan s (commit_plan sha s x) = (t, Inr (e, cm))"
    using assms(1) by (auto simp: commit_def split: prod.splits sum.splits)
  with run_plan_cases [OF y, of "(e, cm)"] commit_plan_ok [of sha s x None e cm] obtain p where
    p: "commit_plan sha s x = Inr (Some p, e, cm)" "cells t = plan_cells s p" by auto
  from commit_plan_ok [OF p(1)] obtain i v where i: "canonicalIdentityRecordId sha (scope x) = Inr i"
    and q: "p = write_both s i v (highwater_value e cm)" and e: "e = expectedEpoch x + 1" "time_ok e"
    by (auto simp: list_ok_def)
  have t: "cells t (HIGHWATER_RECORD_TYPE, i) = Some (JsonText (highwater_value e cm))"
    using p(2) q by (simp add: write_both_def)
  from assms(2) obtain r where r: "readRecord sha (final (store_step sha) t evs) (scope x) = Inr (Some r)"
    "rec_state r = st"
    by (cases "readRecord sha (final (store_step sha) t evs) (scope x)") (auto simp: read_lifecycle_def)
  from hw.run_grows [of t sha evs] t
  have "hw_le (Some (JsonText (highwater_value e cm))) (cells (final (store_step sha) t evs) (HIGHWATER_RECORD_TYPE, i))"
    by (metis hw_grows_def)
  moreover have "hw_bound (final (store_step sha) t evs) i (epoch (snap_list st))"
    using readRecord_some [OF r(1)] i r(2) by auto
  ultimately show ?thesis
    using hw_le_bound [OF _ parse_highwater_value(1) [OF e(2)]] e(1) by fastforce
qed

theorem rollback_is_detected_witness:
  "\<exists>t. commit zero_hash started phone_commit = (t, Inr ()) \<and>
     expectedEpoch phone_commit < epoch (snap_list \<lparr>snap_list = enrolled_list, commitment = zeros\<rparr>)"
proof -
  from phone_committed obtain t where t: "commit zero_hash started phone_commit = (t, Inr ())" by blast
  have "read_lifecycle zero_hash (final (store_step zero_hash) t []) (scope phone_commit) =
      Inr (Some \<lparr>snap_list = enrolled_list, commitment = zeros\<rparr>)"
    using commit_read_back [OF started_ok t] by (simp add: phone_commit_def)
  from rollback_is_detected [OF t this] t show ?thesis by blast
qed

text \<open>
  C16. The store makes progress: a list that is one epoch on, chained to the
  current commitment, with its own commitment and a nonce that was not used
  before, is committed and read back. In particular the verification read at
  the end of a commit never fails on a store the program wrote.
\<close>

theorem commit_accepts_next_epoch:
  assumes s: "s = final (device_step sha) fresh_store es"
    and r: "readRecord sha s (scope x) = Inr (Some r)"
    and l: "list_ok (nextList x)" "identityReference (nextList x) = scope x"
      "deviceListCommitment sha (list_value (nextList x)) = Inr (nextCommitment x)"
      "epoch (nextList x) = epoch (snap_list (rec_state r)) + 1"
      "previousCommitment (nextList x) = Some (commitment (rec_state r))"
    and e: "expectedEpoch x = epoch (snap_list (rec_state r))" "commit_previous x = commitment (rec_state r)"
    and n: "find_prop ''transactionNonce'' (rec_nonce (commit_authorization x)) (authorizations r) = Inr None"
  shows "\<exists>t. commit sha s x = (t, Inr ()) \<and>
    read_lifecycle sha t (scope x) = Inr (Some \<lparr>snap_list = nextList x, commitment = nextCommitment x\<rparr>)"
proof -
  have ok: "store_ok sha s" unfolding s by (rule run_ok)
  from readRecord_some [OF r] obtain i c where i: "canonicalIdentityRecordId sha (scope x) = Inr i"
    and "parse_record sha (scope x) c = Inr r" by blast
  then have "highestEpoch r = epoch (snap_list (rec_state r))" using parse_record_ok by blast
  then have "\<exists>y. commit_plan sha s x = Inr y"
    unfolding commit_plan_def using i r l e n by (simp add: createDeviceList_value)
  with commit_succeeds [OF ok] run_cas [of sha es] commit_read_back [OF ok] show ?thesis
    unfolding s by blast
qed

theorem commit_accepts_next_epoch_witness:
  "\<exists>t. commit zero_hash started phone_commit = (t, Inr ()) \<and>
    read_lifecycle zero_hash t (scope phone_commit) =
      Inr (Some \<lparr>snap_list = nextList phone_commit, commitment = nextCommitment phone_commit\<rparr>)"
  by (rule commit_accepts_next_epoch [OF started_run [symmetric], where r = started_record])
    (simp_all add: phone_commit_def started_read started_record_def concrete_lists_ok, simp_all add: enrolled_list_def)

end
