(* ===== verification/DeviceTrust.thy ===== *)
theory DeviceTrust
  imports DeviceProperties "HOL-Library.Multiset"
begin

text \<open>
  Trust enforcement on top of the lifecycle store: the freshness gate
  (\<open>service/src/devices/freshness.ts\<close>), the enforcer and the coordinator of trust
  notifications (\<open>trust.ts\<close>), and the reserve of one-time signalling proofs
  (\<open>signalProofReserve.ts\<close>). The enforcer is written over the persistence
  operations it calls.
\<close>

section \<open>Freshness\<close>

record freshness_evidence =
  ev_version :: int
  ev_deviceId :: string
  ev_identityReference :: string
  ev_epoch :: int
  ev_commitment :: string
  evidenceId :: string

record freshness_admission =
  localDeviceId :: string
  maxMembers :: nat
  evidence :: "(string \<times> freshness_evidence) list"

text \<open>\<open>Map.set\<close> on a map in insertion order: an existing key keeps its place.\<close>

definition put :: "'k \<Rightarrow> 'v \<Rightarrow> ('k \<times> 'v) list \<Rightarrow> ('k \<times> 'v) list" where
  "put k v m = (if k \<in> fst ` set m then map (\<lambda>(k', v'). (k', if k' = k then v else v')) m else m @ [(k, v)])"

definition recordAuthenticatedEvidence ::
  "freshness_admission \<Rightarrow> freshness_evidence \<Rightarrow> snapshot \<Rightarrow> freshness_admission \<times> unit outcome"
where
  "recordAuthenticatedEvidence f ev st =
     (if ev_version ev \<noteq> 1 \<or> ev_deviceId ev = [] \<or> ev_identityReference ev = [] \<or> evidenceId ev = []
        \<or> \<not> safe_int (ev_epoch ev) \<or> ev_epoch ev < 0 \<or> \<not> hex64 (ev_commitment ev)
      then (f, Inl ''Trust freshness evidence rejected.'')
      else case deviceEntryById (snap_list st) (ev_deviceId ev) of
        None \<Rightarrow> (f, Inl ''Trust freshness evidence rejected.'')
      | Some device \<Rightarrow>
          if state device \<noteq> Active \<or> publicIdentityReference device \<noteq> ev_identityReference ev
          then (f, Inl ''Trust freshness evidence rejected.'')
          else if ev_epoch ev \<noteq> epoch (snap_list st) \<or> ev_commitment ev \<noteq> commitment st
          then (f, Inl ''Trust freshness evidence is stale.'')
          else if (case map_of (evidence f) (ev_deviceId ev) of
              None \<Rightarrow> False
            | Some prior \<Rightarrow> evidenceId prior \<noteq> evidenceId ev \<or> ev_commitment prior \<noteq> ev_commitment ev)
          then (f, Inl ''Trust freshness evidence conflicts.'')
          else
            let f' = f\<lparr>evidence := put (ev_deviceId ev) ev (evidence f)\<rparr>
            in (f', require (length (evidence f') \<le> maxMembers f) ''Trust freshness evidence unavailable.''))"

definition fresh_member :: "freshness_admission \<Rightarrow> snapshot \<Rightarrow> string \<Rightarrow> unit outcome" where
  "fresh_member f st i =
     (case find (\<lambda>e. deviceId e = i \<and> state e = Active) (devices (snap_list st)) of
        None \<Rightarrow> Inl ''Trust freshness membership rejected.''
      | Some entry \<Rightarrow>
          if i = localDeviceId f then Inr ()
          else require (case map_of (evidence f) i of
              None \<Rightarrow> False
            | Some ev \<Rightarrow> ev_identityReference ev = publicIdentityReference entry \<and>
                ev_epoch ev = epoch (snap_list st) \<and> ev_commitment ev = commitment st)
            ''Trust freshness is unavailable.'')"

fun all_fresh :: "freshness_admission \<Rightarrow> snapshot \<Rightarrow> string list \<Rightarrow> unit outcome" where
  "all_fresh f st [] = Inr ()"
| "all_fresh f st (i # ids) = and_then (fresh_member f st i) (\<lambda>_. all_fresh f st ids)"

definition assertCurrent :: "freshness_admission \<Rightarrow> snapshot \<Rightarrow> string list \<Rightarrow> unit outcome" where
  "assertCurrent f st members =
     (if members = [] \<or> maxMembers f < length members \<or> \<not> distinct members
      then Inl ''Trust freshness membership rejected.''
      else all_fresh f st members)"

definition clear_evidence :: "freshness_admission \<Rightarrow> freshness_admission" where
  "clear_evidence f = f\<lparr>evidence := []\<rparr>"

section \<open>Enforcement\<close>

datatype trust_decision = Trusted | Revoked_device | Unavailable

record enforcer =
  suspended :: bool
  freshnessMembers :: "string list option"
  freshness :: freshness_admission
  enf_scope :: string
  enf_deviceId :: string
  enf_identityReference :: string

definition new_enforcer :: "string \<Rightarrow> string \<Rightarrow> string \<Rightarrow> enforcer" where
  "new_enforcer sc i ident = \<lparr>suspended = False, freshnessMembers = None,
     freshness = \<lparr>localDeviceId = i, maxMembers = 8, evidence = []\<rparr>,
     enf_scope = sc, enf_deviceId = i, enf_identityReference = ident\<rparr>"

definition suspend ::
  "('s \<Rightarrow> string \<Rightarrow> int \<Rightarrow> string \<Rightarrow> 's \<times> unit outcome) \<Rightarrow> 's \<Rightarrow> enforcer \<Rightarrow> int \<Rightarrow> string \<Rightarrow> 's \<times> enforcer \<times> unit outcome"
where
  "suspend store_suspend s en e c =
     (let (s', r) = store_suspend s (enf_scope en) e c in (s', en\<lparr>suspended := True\<rparr>, r))"

definition configureFreshnessMembers :: "enforcer \<Rightarrow> string list \<Rightarrow> enforcer" where
  "configureFreshnessMembers en members = en\<lparr>freshnessMembers := Some members\<rparr>"

definition trust_snapshot :: "(u8 list \<Rightarrow> u8 list) \<Rightarrow> reader \<Rightarrow> enforcer \<Rightarrow> snapshot outcome" where
  "trust_snapshot sha read en =
     (if suspended en then Inl ''Device trust is unavailable: freshness conflicts.''
      else and_then (read (enf_scope en)) (\<lambda>x.
        and_then (some_or ''Device trust is unavailable.'' x) (\<lambda>st.
        and_then (deviceListCommitment sha (list_value (snap_list st))) (\<lambda>c.
        and_then (require (c = commitment st) ''Device trust state is corrupted.'') (\<lambda>_. Inr st)))))"

definition recordFreshnessEvidence ::
  "(u8 list \<Rightarrow> u8 list) \<Rightarrow> reader \<Rightarrow> enforcer \<Rightarrow> freshness_evidence \<Rightarrow> enforcer \<times> unit outcome"
where
  "recordFreshnessEvidence sha read en ev =
     (case trust_snapshot sha read en of
        Inl e \<Rightarrow> (en, Inl e)
      | Inr st \<Rightarrow> let (f, r) = recordAuthenticatedEvidence (freshness en) ev st in (en\<lparr>freshness := f\<rparr>, r))"

definition decision :: "(u8 list \<Rightarrow> u8 list) \<Rightarrow> reader \<Rightarrow> enforcer \<Rightarrow> trust_decision" where
  "decision sha read en =
     (case trust_snapshot sha read en of
        Inl _ \<Rightarrow> Unavailable
      | Inr st \<Rightarrow>
          (case deviceEntryById (snap_list st) (enf_deviceId en) of
             None \<Rightarrow> Unavailable
           | Some device \<Rightarrow>
               if publicIdentityReference device \<noteq> enf_identityReference en then Unavailable
               else if state device = Active then Trusted
               else if state device = Revoked then Revoked_device else Unavailable))"

definition assertTrusted :: "(u8 list \<Rightarrow> u8 list) \<Rightarrow> reader \<Rightarrow> enforcer \<Rightarrow> unit outcome" where
  "assertTrusted sha read en = require (decision sha read en = Trusted) ''Device trust is unavailable.''"

definition assertTrustedAt :: "(u8 list \<Rightarrow> u8 list) \<Rightarrow> reader \<Rightarrow> enforcer \<Rightarrow> int \<Rightarrow> unit outcome" where
  "assertTrustedAt sha read en e =
     and_then (trust_snapshot sha read en) (\<lambda>st.
     and_then (require (epoch (snap_list st) = e) ''Device trust is stale.'') (\<lambda>_.
     and_then (case freshnessMembers en of None \<Rightarrow> Inr () | Some ms \<Rightarrow> assertCurrent (freshness en) st ms) (\<lambda>_.
       require (case deviceEntryById (snap_list st) (enf_deviceId en) of
           None \<Rightarrow> False
         | Some d \<Rightarrow> publicIdentityReference d = enf_identityReference en \<and> state d = Active)
         ''Device trust is unavailable.'')))"

section \<open>Trust notifications\<close>

record trust_event =
  te_version :: int
  eventId :: string
  te_scope :: string
  te_epoch :: jsnum
  te_commitment :: string
  te_deviceId :: string
  te_identityReference :: string
  te_state :: string
  te_createdAt :: jsnum

record coordinator =
  co_enforcer :: enforcer
  co_scope :: string
  maxSeen :: nat
  seen_events :: "string list"

definition remember :: "nat \<Rightarrow> string list \<Rightarrow> string \<Rightarrow> string list" where
  "remember limit ids i = (let ids' = ids @ [i] in if limit < length ids' then tl ids' else ids')"

definition well_formed_event :: "coordinator \<Rightarrow> trust_event \<Rightarrow> bool" where
  "well_formed_event co ev \<longleftrightarrow>
     te_version ev = 1 \<and> te_scope ev = co_scope co \<and> eventId ev \<noteq> [] \<and> isSafeInteger (te_epoch ev) \<and>
     0 \<le> whole (te_epoch ev) \<and> isSafeInteger (te_createdAt ev) \<and> hex64 (te_commitment ev) \<and>
     te_deviceId ev \<noteq> [] \<and> te_identityReference ev \<noteq> [] \<and> (te_state ev = ''active'' \<or> te_state ev = ''revoked'')"

definition accept_event ::
  "(u8 list \<Rightarrow> u8 list) \<Rightarrow> ('s \<Rightarrow> reader) \<Rightarrow> ('s \<Rightarrow> string \<Rightarrow> int \<Rightarrow> string \<Rightarrow> 's \<times> unit outcome) \<Rightarrow> 's \<Rightarrow>
    coordinator \<Rightarrow> trust_event \<Rightarrow> 's \<times> coordinator \<times> snapshot outcome"
where
  "accept_event sha read store_suspend s co ev =
     (if \<not> well_formed_event co ev
      then (s, co, Inl ''Trust state event is invalid.'')
      else if eventId ev \<in> set (seen_events co) then (s, co, Inl ''Trust state event replayed.'')
      else case trust_snapshot sha (read s) (co_enforcer co) of
        Inl e \<Rightarrow> (s, co, Inl e)
      | Inr current \<Rightarrow>
          let e = whole (te_epoch ev);
              stop = (\<lambda>message. let (s', en, r) = suspend store_suspend s (co_enforcer co) e (te_commitment ev)
                in (s', co\<lparr>co_enforcer := en\<rparr>, and_then r (\<lambda>_. Inl message)))
          in
          if e < epoch (snap_list current) then (s, co, Inl ''Trust state event is stale.'')
          else if e > epoch (snap_list current) then stop ''Trust state event is unavailable.''
          else if te_commitment ev \<noteq> commitment current then stop ''Trust state event conflicts with current state.''
          else if (case deviceEntryById (snap_list current) (te_deviceId ev) of
              None \<Rightarrow> False
            | Some d \<Rightarrow> publicIdentityReference d = te_identityReference ev \<and> state_name (state d) = te_state ev)
          then (s, co\<lparr>seen_events := remember (maxSeen co) (seen_events co) (eventId ev)\<rparr>, Inr current)
          else (s, co, Inl ''Trust state event does not match current state.''))"

section \<open>The signal-proof reserve\<close>

text \<open>
  Resources are objects: a reference and the text \<open>JSON.stringify\<close> gives. A proof
  is its identifier and expiry. A fetch remembers the object it was started for;
  it settles (the proof arrives or the fetch fails) and only in a later
  microtask lowers \<open>inFlight\<close>, so the two are separate events. The lists of open
  and settled fetches stand for the promises.
\<close>

type_synonym resource = "nat \<times> string"
type_synonym proof_carrier = "nat \<times> int"

definition RESERVE_SIZE :: nat where
  "RESERVE_SIZE = 4"

definition MINIMUM_REMAINING_MS :: int where
  "MINIMUM_REMAINING_MS = 8000"

record reserve =
  held :: "proof_carrier list"
  warmResource :: "resource option"
  inFlight :: nat
  timer :: bool
  open_fetches :: "resource list"
  settled :: nat

definition dropStale :: "int \<Rightarrow> reserve \<Rightarrow> reserve" where
  "dropStale now r = r\<lparr>held := filter (\<lambda>p. MINIMUM_REMAINING_MS < snd p - now) (held r)\<rparr>"

definition missing :: "reserve \<Rightarrow> nat" where
  "missing r = RESERVE_SIZE - length (held r) - inFlight r"

definition refill :: "reserve \<Rightarrow> reserve" where
  "refill r =
     (case warmResource r of
        None \<Rightarrow> r
      | Some x \<Rightarrow> r\<lparr>inFlight := inFlight r + missing r, open_fetches := open_fetches r @ replicate (missing r) x\<rparr>)"

text \<open>A signal for the warm resource takes from the reserve; \<open>None\<close> means a direct fetch.\<close>

definition acquire :: "reserve \<Rightarrow> bool \<Rightarrow> string \<Rightarrow> int \<Rightarrow> reserve \<times> proof_carrier option" where
  "acquire r is_signal resource_text now =
     (if \<not> is_signal \<or> map_option snd (warmResource r) \<noteq> Some resource_text then (r, None)
      else
        let r1 = dropStale now r
        in (refill (r1\<lparr>held := tl (held r1)\<rparr>), case held r1 of [] \<Rightarrow> None | p # _ \<Rightarrow> Some p))"

definition warm :: "reserve \<Rightarrow> resource option \<Rightarrow> reserve" where
  "warm r x =
     (case x of
        None \<Rightarrow> r
      | Some y \<Rightarrow>
          (refill (r\<lparr>held := (if map_option snd (warmResource r) = Some (snd y) then held r else []),
             warmResource := Some y\<rparr>))\<lparr>timer := True\<rparr>)"

definition cool :: "reserve \<Rightarrow> reserve" where
  "cool r = r\<lparr>timer := False, warmResource := None, held := []\<rparr>"

text \<open>A fetch settles: the proof is kept when its resource object is still the warm one.\<close>

definition fetched :: "reserve \<Rightarrow> nat \<Rightarrow> proof_carrier option \<Rightarrow> reserve" where
  "fetched r i p =
     (if i \<ge> length (open_fetches r) then r
      else r\<lparr>open_fetches := take i (open_fetches r) @ drop (Suc i) (open_fetches r),
        settled := Suc (settled r),
        held := (case p of
            None \<Rightarrow> held r
          | Some q \<Rightarrow> if warmResource r = Some (open_fetches r ! i) then held r @ [q] else held r)\<rparr>)"

definition finished :: "reserve \<Rightarrow> reserve" where
  "finished r = (if settled r = 0 then r else r\<lparr>settled := settled r - 1, inFlight := inFlight r - 1\<rparr>)"

datatype reserve_event =
    Acquire bool string int
  | Warm "resource option"
  | Cool
  | Tick int
  | Fetched nat "proof_carrier option"
  | Finished

fun reserve_step :: "reserve \<Rightarrow> reserve_event \<Rightarrow> reserve \<times> proof_carrier option" where
  "reserve_step r (Acquire sig resource_text now) = acquire r sig resource_text now"
| "reserve_step r (Warm x) = (warm r x, None)"
| "reserve_step r Cool = (cool r, None)"
| "reserve_step r (Tick now) = (if timer r then refill (dropStale now r) else r, None)"
| "reserve_step r (Fetched i p) = (fetched r i p, None)"
| "reserve_step r Finished = (finished r, None)"

definition empty_reserve :: reserve where
  "empty_reserve = \<lparr>held = [], warmResource = None, inFlight = 0, timer = False, open_fetches = [], settled = 0\<rparr>"

section \<open>The reserve stays within its size\<close>

definition reserve_ok :: "reserve \<Rightarrow> bool" where
  "reserve_ok r \<longleftrightarrow> length (held r) + length (open_fetches r) \<le> RESERVE_SIZE
     \<and> inFlight r = length (open_fetches r) + settled r \<and> (warmResource r = None \<longrightarrow> held r = [])"

lemma reserve_ok_fewer:
  "reserve_ok r \<Longrightarrow> length ps \<le> length (held r) \<Longrightarrow> reserve_ok (r\<lparr>held := ps\<rparr>)"
  by (auto simp: reserve_ok_def)

lemma refill_ok: "reserve_ok r \<Longrightarrow> reserve_ok (refill r)"
  by (auto simp: reserve_ok_def refill_def missing_def split: option.split)

lemma refill_held [simp]: "held (refill r) = held r"
  by (simp add: refill_def split: option.split)

lemma dropStale_ok: "reserve_ok r \<Longrightarrow> reserve_ok (dropStale now r)"
  unfolding dropStale_def by (rule reserve_ok_fewer) (simp_all add: length_filter_le)

lemma acquire_ok: "reserve_ok r \<Longrightarrow> reserve_ok (fst (acquire r sig resource_text now))"
  unfolding acquire_def Let_def by (auto intro!: refill_ok reserve_ok_fewer dropStale_ok)

lemma warm_ok: "reserve_ok r \<Longrightarrow> reserve_ok (warm r x)"
proof (cases x)
  case (Some y)
  assume ok: "reserve_ok r"
  have timer: "reserve_ok (r'\<lparr>timer := b\<rparr>) = reserve_ok r'" for r' b by (simp add: reserve_ok_def)
  have "reserve_ok (r\<lparr>held := (if map_option snd (warmResource r) = Some (snd y) then held r else []),
      warmResource := Some y\<rparr>)" using ok by (auto simp: reserve_ok_def)
  then show ?thesis by (simp add: warm_def Some timer refill_ok)
qed (simp add: warm_def)

lemma fetched_ok: "reserve_ok r \<Longrightarrow> reserve_ok (fetched r i p)"
  by (auto simp: fetched_def reserve_ok_def split: option.split)

lemma cool_ok: "reserve_ok r \<Longrightarrow> reserve_ok (cool r)"
  by (auto simp: cool_def reserve_ok_def)

lemma finished_ok: "reserve_ok r \<Longrightarrow> reserve_ok (finished r)"
  by (auto simp: finished_def reserve_ok_def)

lemma reserve_step_ok: "reserve_ok r \<Longrightarrow> reserve_ok (fst (reserve_step r ev))"
  by (cases ev) (simp_all add: acquire_ok warm_ok cool_ok fetched_ok finished_ok refill_ok dropStale_ok)

interpretation proofs: invariant_machine reserve_step reserve_ok
  by unfold_locales (rule reserve_step_ok)

lemma empty_reserve_ok: "reserve_ok empty_reserve"
  by (simp add: reserve_ok_def empty_reserve_def)

text \<open>The proofs a run's fetches delivered, and those its acquisitions took from the reserve.\<close>

fun delivered :: "reserve_event \<Rightarrow> proof_carrier list" where
  "delivered (Fetched i (Some p)) = [p]"
| "delivered _ = []"

definition handed_out :: "reserve \<Rightarrow> reserve_event list \<Rightarrow> proof_carrier list" where
  "handed_out r es = List.map_filter id (outputs reserve_step r es)"

definition taken :: "reserve \<times> proof_carrier option \<Rightarrow> proof_carrier list" where
  "taken x = (case snd x of None \<Rightarrow> [] | Some p \<Rightarrow> [p])"

lemma handed_out_simps [simp]:
  "handed_out r [] = []"
  "handed_out r (e # es) = taken (reserve_step r e) @ handed_out (fst (reserve_step r e)) es"
  by (simp_all add: handed_out_def taken_def map_filter_simps split: option.split)

lemma acquire_conserves:
  "mset (held (fst (acquire r sig t now))) + mset (taken (acquire r sig t now)) \<subseteq># mset (held r)"
proof (cases "\<not> sig \<or> map_option snd (warmResource r) \<noteq> Some t")
  case False
  have "mset (held (dropStale now r)) \<subseteq># mset (held r)" by (simp add: dropStale_def multiset_filter_subset)
  with False show ?thesis
    by (cases "held (dropStale now r)") (auto simp: acquire_def taken_def Let_def)
qed (auto simp: acquire_def taken_def)

lemma reserve_step_conserves:
  "mset (held (fst (reserve_step r e))) + mset (taken (reserve_step r e)) \<subseteq># mset (held r) + mset (delivered e)"
proof (cases e)
  case (Acquire sig t now)
  with acquire_conserves [of r sig t now] show ?thesis by simp
next
  case (Fetched i p)
  then show ?thesis by (cases p) (auto simp: fetched_def taken_def)
qed (auto simp: taken_def warm_def cool_def finished_def dropStale_def multiset_filter_subset split: option.split)

lemma run_conserves:
  "mset (handed_out r es) + mset (held (final reserve_step r es)) \<subseteq># mset (held r) + mset (concat (map delivered es))"
proof (induction es arbitrary: r)
  case (Cons e es)
  let ?r' = "fst (reserve_step r e)"
  have "mset (taken (reserve_step r e)) + (mset (handed_out ?r' es) + mset (held (final reserve_step ?r' es)))
      \<subseteq># mset (taken (reserve_step r e)) + (mset (held ?r') + mset (concat (map delivered es)))"
    using Cons.IH by simp
  also have "\<dots> \<subseteq># mset (held r) + mset (delivered e) + mset (concat (map delivered es))"
    using subset_mset.add_right_mono [OF reserve_step_conserves [of r e], of "mset (concat (map delivered es))"]
    by (simp only: ac_simps)
  finally show ?case by (simp add: ac_simps)
qed simp

lemma acquire_fresh: "snd (acquire r sig t now) = Some p \<Longrightarrow> MINIMUM_REMAINING_MS < snd p - now"
proof -
  assume "snd (acquire r sig t now) = Some p"
  then have "p \<in> set (held (dropStale now r))"
    by (auto simp: acquire_def Let_def split: if_splits list.splits)
  then show ?thesis by (simp add: dropStale_def)
qed

text \<open>
  C37. The reserve of signalling proofs. Over every run from the empty reserve,
  the proofs handed out together with those still held are, counted with
  multiplicity, among the proofs the fetches delivered, so no proof is handed
  out twice; the reserve never holds more than four proofs, fetches under way
  included; and a proof is handed out only with more than eight seconds left.
\<close>
theorem signal_proofs_used_once:
  "mset (handed_out empty_reserve es) + mset (held (final reserve_step empty_reserve es))
     \<subseteq># mset (concat (map delivered es)) \<and>
   length (held (final reserve_step empty_reserve es)) + length (open_fetches (final reserve_step empty_reserve es)) \<le> 4 \<and>
   (snd (acquire r sig t now) = Some p \<longrightarrow> 8000 < snd p - now)"
  using run_conserves [of empty_reserve es] proofs.run_inv [OF empty_reserve_ok, of es] acquire_fresh [of r sig t now p]
  by (simp add: empty_reserve_def reserve_ok_def RESERVE_SIZE_def MINIMUM_REMAINING_MS_def)

theorem signal_proofs_used_once_witness:
  "\<exists>r. snd (acquire r True ''room'' 1000) = Some (7, 31000) \<and> 8000 < snd (7 :: nat, 31000 :: int) - 1000"
proof -
  define r where "r = empty_reserve\<lparr>held := [(7, 31000)], warmResource := Some (0, ''room'')\<rparr>"
  have "snd (acquire r True ''room'' 1000) = Some (7, 31000)"
    by (simp add: r_def acquire_def dropStale_def MINIMUM_REMAINING_MS_def empty_reserve_def)
  with signal_proofs_used_once [of "[]" r True "''room''" 1000 "(7, 31000)"] show ?thesis by blast
qed

section \<open>Notifications and suspension\<close>

datatype 's trust_step = Notify trust_event | Store_becomes 's

text \<open>
  A coordinator beside a store that other operations change: notifications and
  changes of the store in any order.
\<close>

fun coordinator_step ::
  "(u8 list \<Rightarrow> u8 list) \<Rightarrow> ('s \<Rightarrow> reader) \<Rightarrow> ('s \<Rightarrow> string \<Rightarrow> int \<Rightarrow> string \<Rightarrow> 's \<times> unit outcome) \<Rightarrow>
    's \<times> coordinator \<Rightarrow> 's trust_step \<Rightarrow> ('s \<times> coordinator) \<times> snapshot outcome option"
where
  "coordinator_step sha read store_suspend (s, co) (Notify ev) =
     (let (s', co', r) = accept_event sha read store_suspend s co ev in ((s', co'), Some r))"
| "coordinator_step sha read store_suspend (s, co) (Store_becomes s') = ((s', co), None)"

definition is_suspended :: "'s \<times> coordinator \<Rightarrow> bool" where
  "is_suspended x = suspended (co_enforcer (snd x))"

lemma suspended_snapshot: "suspended en \<Longrightarrow> trust_snapshot sha read en = Inl ''Device trust is unavailable: freshness conflicts.''"
  by (simp add: trust_snapshot_def)

lemma coordinator_step_suspended:
  "is_suspended x \<Longrightarrow> is_suspended (fst (coordinator_step sha read sus x e))"
  by (cases x; cases e) (auto simp: is_suspended_def accept_event_def suspended_snapshot)

interpretation suspension: invariant_machine "coordinator_step sha read sus" is_suspended for sha read sus
  by unfold_locales (rule coordinator_step_suspended)

lemma accept_event_suspends:
  assumes "well_formed_event co ev" "eventId ev \<notin> set (seen_events co)"
    "trust_snapshot sha (read s) (co_enforcer co) = Inr current"
    "epoch (snap_list current) < whole (te_epoch ev) \<or>
     epoch (snap_list current) = whole (te_epoch ev) \<and> commitment current \<noteq> te_commitment ev"
  shows "is_suspended (fst (coordinator_step sha read sus (s, co) (Notify ev)))"
  using assms(4)
proof
  assume "epoch (snap_list current) < whole (te_epoch ev)"
  with assms(1-3) show ?thesis by (simp add: is_suspended_def accept_event_def suspend_def Let_def split_beta)
next
  assume "epoch (snap_list current) = whole (te_epoch ev) \<and> commitment current \<noteq> te_commitment ev"
  then have "epoch (snap_list current) = whole (te_epoch ev)" "te_commitment ev \<noteq> commitment current" by auto
  with assms(1-3) show ?thesis by (simp add: is_suspended_def accept_event_def suspend_def Let_def split_beta)
qed

text \<open>
  C17. A notification that shows a later epoch, or another commitment for the
  current epoch, ends trust for good: after it, whatever the store becomes and
  whatever notifications follow, the enforcer's decision is \<open>unavailable\<close>, every
  trust assertion throws and no notification is accepted.
\<close>
theorem forked_notification_ends_trust:
  assumes "well_formed_event co ev" "eventId ev \<notin> set (seen_events co)"
    "trust_snapshot sha (read s) (co_enforcer co) = Inr current"
    "epoch (snap_list current) < whole (te_epoch ev) \<or>
     epoch (snap_list current) = whole (te_epoch ev) \<and> commitment current \<noteq> te_commitment ev"
    "final (coordinator_step sha read sus) (s, co) (Notify ev # es) = (s', co')"
  shows "decision sha read' (co_enforcer co') = Unavailable \<and>
    (\<exists>m. assertTrusted sha read' (co_enforcer co') = Inl m) \<and>
    (\<exists>m. assertTrustedAt sha read' (co_enforcer co') n = Inl m) \<and>
    (\<exists>m. snd (snd (accept_event sha read sus s' co' ev')) = Inl m)"
proof -
  have "is_suspended (fst (coordinator_step sha read sus (s, co) (Notify ev)))"
    by (rule accept_event_suspends) (rule assms)+
  from suspension.run_inv [OF this, of sha read sus es] have "is_suspended (s', co')" using assms(5) by simp
  then have "trust_snapshot sha r (co_enforcer co') = Inl ''Device trust is unavailable: freshness conflicts.''" for r
    by (simp add: is_suspended_def suspended_snapshot)
  then show ?thesis
    by (simp add: decision_def assertTrusted_def assertTrustedAt_def accept_event_def)
qed

text \<open>A later epoch announced to the desk of the sample scope.\<close>

definition later_epoch :: trust_event where
  "later_epoch = \<lparr>te_version = 1, eventId = ''event'', te_scope = ''acct'', te_epoch = Whole 5, te_commitment = zeros,
     te_deviceId = ''lost'', te_identityReference = ''lost-key'', te_state = ''revoked'', te_createdAt = Whole 1\<rparr>"

definition desk_coordinator :: coordinator where
  "desk_coordinator = \<lparr>co_enforcer = new_enforcer ''acct'' ''desk'' ''desk-key'', co_scope = ''acct'',
     maxSeen = 1024, seen_events = []\<rparr>"

lemma later_epoch_ok: "well_formed_event desk_coordinator later_epoch"
  by (simp add: well_formed_event_def later_epoch_def desk_coordinator_def sample_times)

lemma desk_snapshot:
  "trust_snapshot zero_hash (read_lifecycle zero_hash started) (co_enforcer desk_coordinator)
     = Inr \<lparr>snap_list = scope_list, commitment = zeros\<rparr>"
  by (simp add: trust_snapshot_def desk_coordinator_def new_enforcer_def started_state concrete_lists_ok)

theorem forked_notification_ends_trust_witness:
  "\<exists>s' co'. final (coordinator_step zero_hash (read_lifecycle zero_hash) (suspendTrust zero_hash))
       (started, desk_coordinator) [Notify later_epoch, Store_becomes fresh_store] = (s', co') \<and>
     decision zero_hash (read_lifecycle zero_hash started) (co_enforcer desk_coordinator) = Trusted \<and>
     decision zero_hash (read_lifecycle zero_hash started) (co_enforcer co') = Unavailable"
proof -
  obtain s' co' where run: "final (coordinator_step zero_hash (read_lifecycle zero_hash) (suspendTrust zero_hash))
       (started, desk_coordinator) [Notify later_epoch, Store_becomes fresh_store] = (s', co')"
    by (rule prod.exhaust)
  have before: "decision zero_hash (read_lifecycle zero_hash started) (co_enforcer desk_coordinator) = Trusted"
    unfolding decision_def desk_snapshot
    by (simp add: desk_coordinator_def new_enforcer_def deviceEntryById_def scope_list_def desk_def)
  have "decision zero_hash (read_lifecycle zero_hash started) (co_enforcer co') = Unavailable"
    using forked_notification_ends_trust [where sus = "suspendTrust zero_hash" and read = "read_lifecycle zero_hash"
        and es = "[Store_becomes fresh_store]" and read' = "read_lifecycle zero_hash started", OF later_epoch_ok _ desk_snapshot _ run]
    by (simp add: desk_coordinator_def later_epoch_def scope_list_def)
  with run before show ?thesis by blast
qed

end
