(* ===== verification/SyncProtocol.thy ===== *)
theory SyncProtocol
  imports DeviceTrust
begin

text \<open>
  Device-to-device synchronisation, the protocol of one transfer: the two state
  machines (\<open>service/src/sync/stateMachine.ts\<close>), fences and conflicts
  (\<open>fencing.ts\<close>), the package codec and digests (\<open>codec.ts\<close>), authorization
  (\<open>authorization.ts\<close>) and the transfer controller (\<open>transfer.ts\<close>). Packages are
  JSON values throughout, since a digest covers their whole text.
\<close>

section \<open>State machines\<close>

datatype device_sync = Sync_pending | Sync_approved | Sync_syncing | Sync_suspended | Sync_revoked

datatype transfer_state = Created | Authorized | Transferring | Verified_transfer | Completed | Failed

fun deviceTransitions :: "device_sync \<Rightarrow> device_sync list" where
  "deviceTransitions Sync_pending = [Sync_approved, Sync_suspended, Sync_revoked]"
| "deviceTransitions Sync_approved = [Sync_syncing, Sync_suspended, Sync_revoked]"
| "deviceTransitions Sync_syncing = [Sync_approved, Sync_suspended, Sync_revoked]"
| "deviceTransitions Sync_suspended = [Sync_pending, Sync_approved, Sync_revoked]"
| "deviceTransitions Sync_revoked = []"

fun transferTransitions :: "transfer_state \<Rightarrow> transfer_state list" where
  "transferTransitions Created = [Authorized, Failed]"
| "transferTransitions Authorized = [Transferring, Failed]"
| "transferTransitions Transferring = [Verified_transfer, Failed]"
| "transferTransitions Verified_transfer = [Completed, Failed]"
| "transferTransitions Completed = []"
| "transferTransitions Failed = []"

definition assertDeviceTransition :: "device_sync \<Rightarrow> device_sync \<Rightarrow> unit outcome" where
  "assertDeviceTransition x y = require (x = y \<or> y \<in> set (deviceTransitions x)) ''Invalid sync device transition.''"

definition assertTransferTransition :: "transfer_state \<Rightarrow> transfer_state \<Rightarrow> unit outcome" where
  "assertTransferTransition x y =
     require (x = y \<or> y \<in> set (transferTransitions x)) ''Invalid sync transfer transition.''"

record sync_machine =
  sync_device :: device_sync
  sync_transfer :: transfer_state

definition transitionDevice :: "sync_machine \<Rightarrow> device_sync \<Rightarrow> sync_machine \<times> unit outcome" where
  "transitionDevice m y =
     (case assertDeviceTransition (sync_device m) y of Inl e \<Rightarrow> (m, Inl e) | Inr _ \<Rightarrow> (m\<lparr>sync_device := y\<rparr>, Inr ()))"

definition transitionTransfer :: "sync_machine \<Rightarrow> transfer_state \<Rightarrow> sync_machine \<times> unit outcome" where
  "transitionTransfer m y =
     (case assertTransferTransition (sync_transfer m) y of Inl e \<Rightarrow> (m, Inl e) | Inr _ \<Rightarrow> (m\<lparr>sync_transfer := y\<rparr>, Inr ()))"

definition suspend_machine :: "sync_machine \<Rightarrow> sync_machine" where
  "suspend_machine m =
     \<lparr>sync_device = (if sync_device m \<noteq> Sync_revoked then Sync_suspended else sync_device m),
      sync_transfer = (if sync_transfer m \<notin> {Completed, Failed} then Failed else sync_transfer m)\<rparr>"

text \<open>Statements in order: the second runs only when the first did not throw.\<close>

definition then_do :: "'s \<times> unit outcome \<Rightarrow> ('s \<Rightarrow> 's \<times> unit outcome) \<Rightarrow> 's \<times> unit outcome" where
  "then_do x f = (case snd x of Inl e \<Rightarrow> (fst x, Inl e) | Inr _ \<Rightarrow> f (fst x))"

section \<open>Fences and conflicts\<close>

record checkpoint =
  cp_epoch :: int
  cp_commitment :: string

record fence =
  fence_attempt :: string
  fence_scope :: string
  fence_checkpoint :: checkpoint
  fence_device :: string
  ledgerDigest :: string
  fence_createdAt :: int

record conflict =
  conflict_attempt :: string
  conflict_scope :: string
  conflict_checkpoint :: checkpoint
  proposals :: "string list"
  reason :: string

record fence_coordinator =
  fences :: "(string \<times> fence) list"
  conflicts :: "(string \<times> conflict) list"
  blocked :: bool
  fc_scope :: string
  fc_checkpoint :: checkpoint
  fc_members :: "string list"

definition recordFence :: "fence_coordinator \<Rightarrow> fence \<Rightarrow> fence_coordinator \<times> unit outcome" where
  "recordFence f r =
     (if fence_scope r \<noteq> fc_scope f \<or> length (fence_attempt r) < 16 \<or> fence_checkpoint r \<noteq> fc_checkpoint f
        \<or> fence_device r \<notin> set (fc_members f)
      then (f, Inl ''Sync fence rejected.'')
      else if (case map_of (fences f) (fence_device r) of None \<Rightarrow> False | Some p \<Rightarrow> ledgerDigest p \<noteq> ledgerDigest r)
      then (f, Inl ''Conflicting sync fence.'')
      else (f\<lparr>fences := put (fence_device r) r (fences f), blocked := True\<rparr>, Inr ()))"

definition recordConflict :: "fence_coordinator \<Rightarrow> conflict \<Rightarrow> fence_coordinator \<times> unit outcome" where
  "recordConflict f r =
     (if conflict_scope r \<noteq> fc_scope f \<or> conflict_checkpoint r \<noteq> fc_checkpoint f
      then (f, Inl ''Sync conflict rejected.'')
      else if proposals r = [] \<or> list_ex (\<lambda>p. \<not> hex64 p) (sort (proposals r))
      then (f, Inl ''Sync conflict rejected.'')
      else (f\<lparr>conflicts := put (conflict_attempt r) (r\<lparr>proposals := sort (proposals r)\<rparr>) (conflicts f),
        blocked := True\<rparr>, Inr ()))"

definition hasAllFences :: "fence_coordinator \<Rightarrow> bool" where
  "hasAllFences f = list_all (\<lambda>m. map_of (fences f) m \<noteq> None) (fc_members f)"

definition canResume :: "fence_coordinator \<Rightarrow> bool" where
  "canResume f \<longleftrightarrow> hasAllFences f \<and> conflicts f = []"

definition clearAfterResolution :: "fence_coordinator \<Rightarrow> string \<Rightarrow> fence_coordinator \<times> unit outcome" where
  "clearAfterResolution f a =
     (if map_of (conflicts f) a = None \<or> \<not> hasAllFences f then (f, Inl ''Sync resolution is incomplete.'')
      else let rest = filter (\<lambda>p. fst p \<noteq> a) (conflicts f)
           in (f\<lparr>conflicts := rest, blocked := rest \<noteq> []\<rparr>, Inr ()))"

datatype fence_event = Record_fence fence | Record_conflict conflict | Clear_resolution string

fun fence_step :: "fence_coordinator \<Rightarrow> fence_event \<Rightarrow> fence_coordinator \<times> unit outcome" where
  "fence_step f (Record_fence r) = recordFence f r"
| "fence_step f (Record_conflict r) = recordConflict f r"
| "fence_step f (Clear_resolution a) = clearAfterResolution f a"

definition new_fence_coordinator :: "string \<Rightarrow> checkpoint \<Rightarrow> string list \<Rightarrow> fence_coordinator" where
  "new_fence_coordinator sc cp ms = \<lparr>fences = [], conflicts = [], blocked = False, fc_scope = sc,
     fc_checkpoint = cp, fc_members = ms\<rparr>"

section \<open>The package codec\<close>

text \<open>
  A message on the wire as its decoder sees it: the number of bytes, the prefix
  the text starts with, and the JSON text after it.
\<close>

record wire =
  byteLength :: nat
  wire_prefix :: string
  wire_body :: cell

definition SYNC_PREFIX :: string where
  "SYNC_PREFIX = ''k3ncrypt-sync-v1:''"

definition syncDigest :: "(u8 list \<Rightarrow> u8 list) \<Rightarrow> jsval \<Rightarrow> string" where
  "syncDigest sha v = digest_hex sha (stringify v)"

definition chunk_value :: "int \<times> string \<Rightarrow> jsval" where
  "chunk_value c = VObj [(''sequence'', VInt (fst c)), (''digest'', VStr (snd c))]"

definition syncContentCommitment :: "(u8 list \<Rightarrow> u8 list) \<Rightarrow> string \<Rightarrow> (int \<times> string) list \<Rightarrow> string" where
  "syncContentCommitment sha t chunks = syncDigest sha
     (VObj [(''version'', VInt 1), (''transferId'', VStr t), (''chunks'', VArr (map chunk_value (sort_key fst chunks)))])"

definition verifySyncDigest :: "(u8 list \<Rightarrow> u8 list) \<Rightarrow> jsval \<Rightarrow> string \<Rightarrow> bool" where
  "verifySyncDigest sha v e \<longleftrightarrow> hex64 e \<and> syncDigest sha v = e"

definition encodeSyncPackage :: "jsval \<Rightarrow> wire" where
  "encodeSyncPackage v =
     \<lparr>byteLength = utf8_length (SYNC_PREFIX @ stringify v), wire_prefix = SYNC_PREFIX, wire_body = JsonText (json_image v)\<rparr>"

definition allowed :: "string list" where
  "allowed = [''version'', ''purpose'', ''scope'', ''sender'', ''senderIdentity'', ''receiver'', ''receiverIdentity'',
     ''checkpoint'', ''streamId'', ''sequence'', ''messageId'', ''transferId'', ''payload'']"

fun truthy :: "jsval \<Rightarrow> bool" where
  "truthy VUndefined = False"
| "truthy VNull = False"
| "truthy (VBool b) = b"
| "truthy (VNum n) = (n \<noteq> Whole 0)"
| "truthy (VStr s) = (s \<noteq> [])"
| "truthy _ = True"

fun is_object :: "jsval \<Rightarrow> bool" where
  "is_object (VObj _) = True"
| "is_object (VArr _) = True"
| "is_object _ = False"

definition valid_header :: "jsval \<Rightarrow> bool" where
  "valid_header v \<longleftrightarrow>
     list_all (\<lambda>k. k \<in> set allowed) (object_keys v) \<and> get_prop v ''version'' = VInt 1 \<and>
     is_string (get_prop v ''scope'') \<and> is_string (get_prop v ''sender'') \<and> is_string (get_prop v ''receiver'') \<and>
     is_string (get_prop v ''senderIdentity'') \<and> is_string (get_prop v ''receiverIdentity'') \<and>
     is_string (get_prop v ''streamId'') \<and> is_string (get_prop v ''messageId'') \<and>
     is_safe_num (get_prop v ''sequence'') \<and> 1 \<le> num_of (get_prop v ''sequence'') \<and> is_object (get_prop v ''checkpoint'')"

definition valid_ids :: "jsval \<Rightarrow> bool" where
  "valid_ids v \<longleftrightarrow>
     id_16_128 (str_of (get_prop v ''streamId'')) \<and> id_16_128 (str_of (get_prop v ''messageId'')) \<and>
     (get_prop v ''transferId'' = VUndefined \<or>
      is_string (get_prop v ''transferId'') \<and> id_16_128 (str_of (get_prop v ''transferId'')))"

definition valid_checkpoint :: "jsval \<Rightarrow> bool" where
  "valid_checkpoint c \<longleftrightarrow>
     is_safe_num (get_prop c ''epoch'') \<and> 0 \<le> num_of (get_prop c ''epoch'') \<and>
     is_string (get_prop c ''commitment'') \<and> hex64 (str_of (get_prop c ''commitment''))"

definition valid_manifest :: "jsval \<Rightarrow> bool" where
  "valid_manifest m \<longleftrightarrow>
     truthy m \<and> join (sort (object_keys m)) = ''expectedChunkCount,finalContentCommitment,version'' \<and>
     get_prop m ''version'' = VInt 1 \<and> is_safe_num (get_prop m ''expectedChunkCount'') \<and>
     1 \<le> num_of (get_prop m ''expectedChunkCount'') \<and> num_of (get_prop m ''expectedChunkCount'') \<le> 10000 \<and>
     is_string (get_prop m ''finalContentCommitment'') \<and> hex64 (str_of (get_prop m ''finalContentCommitment''))"

definition purposes :: "string list" where
  "purposes = [''sync-manifest'', ''sync-chunk'', ''sync-delta'', ''sync-ack'', ''sync-reconcile'']"

text \<open>Overwriting a property keeps its place; a new one comes last.\<close>

fun set_prop :: "jsval \<Rightarrow> string \<Rightarrow> jsval \<Rightarrow> jsval" where
  "set_prop (VObj ps) k v = VObj (put k v ps)"
| "set_prop x k v = x"

definition checkpoint_value :: "int \<Rightarrow> string \<Rightarrow> jsval" where
  "checkpoint_value e c = VObj [(''epoch'', VInt e), (''commitment'', VStr c)]"

definition decodeSyncPackage :: "wire \<Rightarrow> jsval outcome" where
  "decodeSyncPackage w =
     and_then (require (byteLength w \<le> 65536) ''Sync package is too large.'') (\<lambda>_.
     and_then (require (wire_prefix w = SYNC_PREFIX) ''Invalid sync package.'') (\<lambda>_.
     and_then (parse_cell ''Invalid sync package.'' (wire_body w)) (\<lambda>v.
     and_then (require (is_plain_object v) ''Invalid sync package.'') (\<lambda>_.
     and_then (require (valid_header v) ''Invalid sync package.'') (\<lambda>_.
     and_then (require (valid_ids v) ''Invalid sync package.'') (\<lambda>_.
     let cp = get_prop v ''checkpoint'' in
     and_then (require (valid_checkpoint cp) ''Invalid sync checkpoint.'') (\<lambda>_.
     and_then (require (is_string (get_prop v ''purpose'') \<and> str_of (get_prop v ''purpose'') \<in> set purposes)
         ''Invalid sync purpose.'') (\<lambda>_.
     and_then (require (get_prop v ''purpose'' = VStr ''sync-manifest'' \<longrightarrow> valid_manifest (get_prop v ''payload''))
         ''Invalid sync manifest.'') (\<lambda>_.
       Inr (set_prop v ''checkpoint''
         (checkpoint_value (num_of (get_prop cp ''epoch'')) (str_of (get_prop cp ''commitment'')))))))))))))"

definition verifyDeviceListCheckpoint ::
  "(u8 list \<Rightarrow> u8 list) \<Rightarrow> device_list \<Rightarrow> checkpoint \<Rightarrow> unit outcome"
where
  "verifyDeviceListCheckpoint sha l cp =
     and_then (require (epoch l = cp_epoch cp) ''Sync checkpoint mismatch.'') (\<lambda>_.
     and_then (deviceListCommitment sha (list_value l)) (\<lambda>c.
       require (c = cp_commitment cp) ''Sync checkpoint mismatch.''))"

section \<open>Authorization\<close>

record sync_authorization =
  sa_version :: int
  sa_scope :: string
  sourceDeviceId :: string
  sa_targetDeviceId :: string
  sourceIdentityReference :: string
  targetIdentityReference :: string
  sa_checkpoint :: checkpoint
  sa_transferId :: string
  sa_expiresAt :: jsnum
  activeMemberDeviceIds :: "string list option"
  freshnessRequired :: bool
  freshnessEvidence :: "freshness_evidence list"

text \<open>The trust boundary: what the enforcer answers at the time of the call.\<close>

record trust_boundary =
  boundary_snapshot :: "snapshot outcome"
  boundary_assertTrustedAt :: "int \<Rightarrow> unit outcome"

definition boundary_of :: "(u8 list \<Rightarrow> u8 list) \<Rightarrow> reader \<Rightarrow> enforcer \<Rightarrow> trust_boundary" where
  "boundary_of sha read en =
     \<lparr>boundary_snapshot = trust_snapshot sha read en, boundary_assertTrustedAt = assertTrustedAt sha read en\<rparr>"

definition members :: "sync_authorization \<Rightarrow> string list" where
  "members a = (case activeMemberDeviceIds a of Some ms \<Rightarrow> ms | None \<Rightarrow> [sourceDeviceId a, sa_targetDeviceId a])"

definition active_as :: "device_list \<Rightarrow> string \<Rightarrow> string \<Rightarrow> bool" where
  "active_as l i ident =
     (case deviceEntryById l i of
        None \<Rightarrow> False
      | Some e \<Rightarrow> state e = Active \<and> publicIdentityReference e = ident)"

definition authorizeSync ::
  "(u8 list \<Rightarrow> u8 list) \<Rightarrow> sync_authorization \<Rightarrow> trust_boundary \<Rightarrow> int \<Rightarrow> unit outcome"
where
  "authorizeSync sha a tb now =
     and_then (require (sa_version a = 1 \<and> sa_scope a \<noteq> [] \<and> sourceDeviceId a \<noteq> [] \<and> sa_targetDeviceId a \<noteq> [] \<and>
         sourceDeviceId a \<noteq> sa_targetDeviceId a \<and> isSafeInteger (sa_expiresAt a) \<and> now \<le> whole (sa_expiresAt a) \<and>
         sourceDeviceId a \<in> set (members a) \<and> sa_targetDeviceId a \<in> set (members a) \<and> distinct (members a))
         ''Sync authorization rejected.'') (\<lambda>_.
     and_then (boundary_snapshot tb) (\<lambda>snap.
     and_then (verifyDeviceListCheckpoint sha (snap_list snap) (sa_checkpoint a)) (\<lambda>_.
     and_then (boundary_assertTrustedAt tb (cp_epoch (sa_checkpoint a))) (\<lambda>_.
       require (active_as (snap_list snap) (sourceDeviceId a) (sourceIdentityReference a) \<and>
           active_as (snap_list snap) (sa_targetDeviceId a) (targetIdentityReference a))
         ''Sync authorization rejected.''))))"

section \<open>The transfer controller\<close>

record transfer =
  machine :: sync_machine
  received_digests :: "(int \<times> string) list"
  chunks :: "(int \<times> string) list"
  manifest :: "jsval option"
  transfer_auth :: sync_authorization

definition new_transfer :: "sync_authorization \<Rightarrow> transfer" where
  "new_transfer a = \<lparr>machine = \<lparr>sync_device = Sync_pending, sync_transfer = Created\<rparr>, received_digests = [],
     chunks = [], manifest = None, transfer_auth = a\<rparr>"

definition on_machine :: "transfer \<Rightarrow> (sync_machine \<Rightarrow> sync_machine \<times> unit outcome) \<Rightarrow> transfer \<times> unit outcome" where
  "on_machine t f = (let (m, r) = f (machine t) in (t\<lparr>machine := m\<rparr>, r))"

definition authorize_transfer ::
  "(u8 list \<Rightarrow> u8 list) \<Rightarrow> transfer \<Rightarrow> trust_boundary \<Rightarrow> int \<Rightarrow> transfer \<times> unit outcome"
where
  "authorize_transfer sha t tb now =
     (case authorizeSync sha (transfer_auth t) tb now of
        Inl e \<Rightarrow> (t, Inl e)
      | Inr _ \<Rightarrow> on_machine t (\<lambda>m. then_do (transitionDevice m Sync_approved) (\<lambda>m. transitionTransfer m Authorized)))"

definition begin_transfer :: "transfer \<Rightarrow> transfer \<times> unit outcome" where
  "begin_transfer t = on_machine t (\<lambda>m. then_do (transitionDevice m Sync_syncing) (\<lambda>m. transitionTransfer m Transferring))"

definition addressed :: "sync_authorization \<Rightarrow> jsval \<Rightarrow> bool" where
  "addressed a p \<longleftrightarrow>
     get_prop p ''scope'' = VStr (sa_scope a) \<and> get_prop p ''sender'' = VStr (sourceDeviceId a) \<and>
     get_prop p ''receiver'' = VStr (sa_targetDeviceId a) \<and> get_prop p ''transferId'' = VStr (sa_transferId a) \<and>
     get_prop (get_prop p ''checkpoint'') ''epoch'' = VInt (cp_epoch (sa_checkpoint a)) \<and>
     get_prop (get_prop p ''checkpoint'') ''commitment'' = VStr (cp_commitment (sa_checkpoint a))"

definition check_package :: "transfer \<Rightarrow> trust_boundary \<Rightarrow> int \<Rightarrow> jsval \<Rightarrow> jsval outcome" where
  "check_package t tb now pkg =
     (let a = transfer_auth t in
     and_then (decodeSyncPackage (encodeSyncPackage pkg)) (\<lambda>p.
     and_then (require (get_prop p ''senderIdentity'' = VStr (sourceIdentityReference a) \<and>
         get_prop p ''receiverIdentity'' = VStr (targetIdentityReference a) \<and> now < whole (sa_expiresAt a))
         ''Sync identity or expiry rejected.'') (\<lambda>_.
     and_then (require (sync_device (machine t) = Sync_syncing \<and> sync_transfer (machine t) = Transferring)
         ''Sync transfer is unavailable.'') (\<lambda>_.
     and_then (require (addressed a p) ''Sync package authorization rejected.'') (\<lambda>_.
     and_then (boundary_assertTrustedAt tb (cp_epoch (sa_checkpoint a))) (\<lambda>_. Inr p))))))"

definition accept_package ::
  "(u8 list \<Rightarrow> u8 list) \<Rightarrow> transfer \<Rightarrow> trust_boundary \<Rightarrow> int \<Rightarrow> jsval \<Rightarrow> transfer \<times> (int \<times> string) outcome"
where
  "accept_package sha t tb now pkg =
     (case check_package t tb now pkg of
        Inl e \<Rightarrow> (t, Inl e)
      | Inr p \<Rightarrow>
          let digest = syncDigest sha p; n = num_of (get_prop p ''sequence'') in
          if (case map_of (received_digests t) n of None \<Rightarrow> False | Some prior \<Rightarrow> prior \<noteq> digest)
          then (t\<lparr>machine := suspend_machine (machine t)\<rparr>, Inl ''Sync sequence conflict.'')
          else if get_prop p ''purpose'' = VStr ''sync-manifest'' \<and> manifest t \<noteq> None
          then (t, Inl ''Sync manifest replayed.'')
          else
            (t\<lparr>manifest := (if get_prop p ''purpose'' = VStr ''sync-manifest'' then Some (get_prop p ''payload'') else manifest t),
               chunks := (if get_prop p ''purpose'' \<in> {VStr ''sync-chunk'', VStr ''sync-delta''}
                 then put n digest (chunks t) else chunks t),
               received_digests := put n digest (received_digests t)\<rparr>, Inr (n, digest)))"

definition manifest_count :: "jsval \<Rightarrow> int" where
  "manifest_count m = num_of (get_prop m ''expectedChunkCount'')"

definition complete_transfer :: "(u8 list \<Rightarrow> u8 list) \<Rightarrow> transfer \<Rightarrow> transfer \<times> unit outcome" where
  "complete_transfer sha t =
     (case manifest t of
        None \<Rightarrow> (t, Inl ''Sync transfer is incomplete.'')
      | Some m \<Rightarrow>
          if int (length (chunks t)) \<noteq> manifest_count m then (t, Inl ''Sync transfer is incomplete.'')
          else if get_prop m ''finalContentCommitment'' \<noteq> VStr (syncContentCommitment sha (sa_transferId (transfer_auth t)) (chunks t))
          then (t\<lparr>machine := suspend_machine (machine t)\<rparr>, Inl ''Sync content commitment rejected.'')
          else on_machine t (\<lambda>m. then_do (then_do (transitionTransfer m Verified_transfer)
            (\<lambda>m. transitionTransfer m Completed)) (\<lambda>m. transitionDevice m Sync_approved)))"

definition fail_transfer :: "transfer \<Rightarrow> transfer \<times> unit outcome" where
  "fail_transfer t = on_machine t (\<lambda>m.
     then_do (if sync_transfer m \<noteq> Completed then transitionTransfer m Failed else (m, Inr ()))
       (\<lambda>m. transitionDevice m Sync_suspended))"

datatype transfer_event =
    Authorize_transfer trust_boundary int
  | Begin_transfer
  | Accept_package trust_boundary int jsval
  | Complete_transfer
  | Fail_transfer

fun transfer_step :: "(u8 list \<Rightarrow> u8 list) \<Rightarrow> transfer \<Rightarrow> transfer_event \<Rightarrow> transfer \<times> unit outcome" where
  "transfer_step sha t (Authorize_transfer tb now) = authorize_transfer sha t tb now"
| "transfer_step sha t Begin_transfer = begin_transfer t"
| "transfer_step sha t (Accept_package tb now p) = (let (t', r) = accept_package sha t tb now p in (t', and_then r (\<lambda>_. Inr ())))"
| "transfer_step sha t Complete_transfer = complete_transfer sha t"
| "transfer_step sha t Fail_transfer = fail_transfer t"

section \<open>Maps in insertion order\<close>

lemma map_of_replace:
  "map_of (map (\<lambda>(k', v'). (k', if k' = k then v else v')) m) k'' =
     (if k'' = k then map_option (\<lambda>_. v) (map_of m k) else map_of m k'')"
  by (induction m) auto

lemma map_of_put [simp]: "map_of (put k v m) k' = (if k' = k then Some v else map_of m k')"
proof (cases "k \<in> fst ` set m")
  case True
  then have "map_of m k \<noteq> None" by (simp add: map_of_eq_None_iff)
  with True show ?thesis by (auto simp: put_def map_of_replace)
next
  case False
  then have "map_of m k = None" by (simp add: map_of_eq_None_iff)
  with False show ?thesis by (auto simp: put_def map_add_def split: option.split)
qed

lemma keys_put: "map fst (put k v m) = (if k \<in> fst ` set m then map fst m else map fst m @ [k])"
  by (auto simp: put_def)

lemma distinct_put: "distinct (map fst m) \<Longrightarrow> distinct (map fst (put k v m))"
  unfolding keys_put by auto

lemma set_put: "distinct (map fst m) \<Longrightarrow> set (put k v m) = insert (k, v) {p \<in> set m. fst p \<noteq> k}"
  by (auto simp: put_def split: if_splits) force+

lemma get_set_prop: "get_prop (set_prop (VObj ps) k v) k' = (if k' = k then v else get_prop (VObj ps) k')"
  by simp

section \<open>A finished transfer holds what its manifest announced\<close>

definition content_ok :: "(u8 list \<Rightarrow> u8 list) \<Rightarrow> transfer \<Rightarrow> bool" where
  "content_ok sha t = (case manifest t of
       None \<Rightarrow> False
     | Some m \<Rightarrow> int (length (chunks t)) = manifest_count m \<and>
         get_prop m ''finalContentCommitment'' = VStr (syncContentCommitment sha (sa_transferId (transfer_auth t)) (chunks t)))"

definition transfer_ok :: "(u8 list \<Rightarrow> u8 list) \<Rightarrow> transfer \<Rightarrow> bool" where
  "transfer_ok sha t \<longleftrightarrow>
     distinct (map fst (received_digests t)) \<and> distinct (map fst (chunks t)) \<and>
     set (chunks t) \<subseteq> set (received_digests t) \<and>
     (sync_transfer (machine t) = Completed \<longrightarrow> content_ok sha t)"

lemma content_ok_machine [simp]: "content_ok sha (t\<lparr>machine := m\<rparr>) = content_ok sha t"
  by (simp add: content_ok_def split: option.split)

lemma transfer_ok_machine:
  "transfer_ok sha t \<Longrightarrow> (sync_transfer m = Completed \<Longrightarrow> sync_transfer (machine t) = Completed) \<Longrightarrow>
   transfer_ok sha (t\<lparr>machine := m\<rparr>)"
  by (auto simp: transfer_ok_def)

lemma suspended_ok: "transfer_ok sha t \<Longrightarrow> transfer_ok sha (t\<lparr>machine := suspend_machine (machine t)\<rparr>)"
  by (rule transfer_ok_machine) (auto simp: suspend_machine_def split: if_splits)

lemma transition_simps [simp]:
  "sync_transfer (fst (transitionDevice m y)) = sync_transfer m"
  "sync_transfer (fst (transitionTransfer m z)) =
     (if sync_transfer m = z \<or> z \<in> set (transferTransitions (sync_transfer m)) then z else sync_transfer m)"
  by (simp_all add: transitionDevice_def transitionTransfer_def assertTransferTransition_def require_def split: sum.split)

lemma suspend_machine_transfer [simp]:
  "sync_transfer (suspend_machine m) = (if sync_transfer m = Completed then Completed else Failed)"
  by (auto simp: suspend_machine_def)

lemma fst_then_do: "fst (then_do x f) = (case snd x of Inl _ \<Rightarrow> fst x | Inr _ \<Rightarrow> fst (f (fst x)))"
  by (simp add: then_do_def split: sum.split)

lemma on_machine_ok:
  "transfer_ok sha t \<Longrightarrow> (sync_transfer (fst (f (machine t))) = Completed \<Longrightarrow> sync_transfer (machine t) = Completed) \<Longrightarrow>
   transfer_ok sha (fst (on_machine t f))"
  by (simp add: on_machine_def split_beta transfer_ok_machine)

lemma new_transfer_ok: "transfer_ok sha (new_transfer a)"
  by (simp add: transfer_ok_def new_transfer_def)

lemma authorize_transfer_ok: "transfer_ok sha t \<Longrightarrow> transfer_ok sha (fst (authorize_transfer sha t tb now))"
  unfolding authorize_transfer_def
  by (cases "authorizeSync sha (transfer_auth t) tb now")
    (auto intro!: on_machine_ok simp: fst_then_do split: sum.splits if_splits)

lemma begin_transfer_ok: "transfer_ok sha t \<Longrightarrow> transfer_ok sha (fst (begin_transfer t))"
  unfolding begin_transfer_def by (auto intro!: on_machine_ok simp: fst_then_do split: sum.splits if_splits)

lemma fail_transfer_ok: "transfer_ok sha t \<Longrightarrow> transfer_ok sha (fst (fail_transfer t))"
  unfolding fail_transfer_def by (auto intro!: on_machine_ok simp: fst_then_do split: sum.splits if_splits)

lemma put_fresh_chunk:
  assumes "distinct (map fst r)" "distinct (map fst c)" "set c \<subseteq> set r"
    and "map_of r n = None \<or> map_of r n = Some d"
  shows "set (put n d c) \<subseteq> set (put n d r)" "set c \<subseteq> set (put n d r)"
proof -
  have "fst p = n \<longrightarrow> snd p = d" if "p \<in> set c" for p
    using that assms by (metis map_of_eq_Some_iff option.distinct(1) option.inject prod.collapse subsetD)
  then show "set c \<subseteq> set (put n d r)" using assms(3) by (force simp: set_put [OF assms(1)])
  then show "set (put n d c) \<subseteq> set (put n d r)" by (auto simp: set_put [OF assms(1)] set_put [OF assms(2)])
qed

lemma check_package_open: "check_package t tb now pkg = Inr p \<Longrightarrow> sync_transfer (machine t) = Transferring"
  by (auto simp: check_package_def Let_def)

lemma accept_package_ok: "transfer_ok sha t \<Longrightarrow> transfer_ok sha (fst (accept_package sha t tb now pkg))"
proof (cases "check_package t tb now pkg")
  case (Inr p)
  assume ok: "transfer_ok sha t"
  let ?n = "num_of (get_prop p ''sequence'')" and ?d = "syncDigest sha p"
  have transferring: "sync_transfer (machine t) = Transferring" using Inr by (rule check_package_open)
  show ?thesis
  proof (cases "map_of (received_digests t) ?n = None \<or> map_of (received_digests t) ?n = Some ?d")
    case True
    have d: "distinct (map fst (received_digests t))" "distinct (map fst (chunks t))" "set (chunks t) \<subseteq> set (received_digests t)"
      using ok by (simp_all add: transfer_ok_def)
    note put_fresh_chunk [OF d True]
    then show ?thesis using True ok transferring d
      by (auto simp: accept_package_def Inr Let_def transfer_ok_def distinct_put split: option.split)
  next
    case False
    then obtain d' where "map_of (received_digests t) ?n = Some d'" "d' \<noteq> ?d" by auto
    then show ?thesis using ok transferring
      by (simp add: accept_package_def Inr Let_def suspended_ok)
  qed
qed (simp add: accept_package_def)

lemma complete_transfer_ok: "transfer_ok sha t \<Longrightarrow> transfer_ok sha (fst (complete_transfer sha t))"
proof -
  assume ok: "transfer_ok sha t"
  show ?thesis
  proof (cases "content_ok sha t")
    case True
    then obtain m where m: "manifest t = Some m" "int (length (chunks t)) = manifest_count m"
      "get_prop m ''finalContentCommitment'' = VStr (syncContentCommitment sha (sa_transferId (transfer_auth t)) (chunks t))"
      by (auto simp: content_ok_def split: option.splits)
    have "transfer_ok sha (t\<lparr>machine := x\<rparr>)" for x
      using ok True by (simp add: transfer_ok_def)
    then show ?thesis by (simp add: complete_transfer_def m on_machine_def split_beta)
  next
    case False
    then have "manifest t = None \<or> (\<exists>m. manifest t = Some m \<and> (int (length (chunks t)) \<noteq> manifest_count m \<or>
        get_prop m ''finalContentCommitment'' \<noteq> VStr (syncContentCommitment sha (sa_transferId (transfer_auth t)) (chunks t))))"
      by (auto simp: content_ok_def split: option.splits)
    with ok show ?thesis by (auto simp: complete_transfer_def suspended_ok)
  qed
qed

lemma transfer_step_ok: "transfer_ok sha t \<Longrightarrow> transfer_ok sha (fst (transfer_step sha t e))"
  by (cases e) (simp_all add: authorize_transfer_ok begin_transfer_ok accept_package_ok complete_transfer_ok
      fail_transfer_ok split_beta)

text \<open>A finished transfer is frozen.\<close>

definition transfer_frozen :: "transfer \<Rightarrow> transfer \<Rightarrow> bool" where
  "transfer_frozen t t' \<longleftrightarrow> transfer_auth t' = transfer_auth t \<and>
     (sync_transfer (machine t) \<in> {Completed, Failed} \<longrightarrow>
       sync_transfer (machine t') = sync_transfer (machine t) \<and> chunks t' = chunks t \<and> manifest t' = manifest t)"

lemma on_machine_frozen:
  "(sync_transfer (machine t) \<in> {Completed, Failed} \<Longrightarrow>
     sync_transfer (fst (f (machine t))) = sync_transfer (machine t)) \<Longrightarrow> transfer_frozen t (fst (on_machine t f))"
  by (simp add: on_machine_def split_beta transfer_frozen_def)

lemma transfer_step_frozen: "transfer_frozen t (fst (transfer_step sha t e))"
proof (cases e)
  case (Authorize_transfer tb now)
  then show ?thesis
    by (cases "authorizeSync sha (transfer_auth t) tb now")
      (auto simp: authorize_transfer_def transfer_frozen_def [of t t] fst_then_do
        intro!: on_machine_frozen split: sum.splits)
next
  case (Accept_package tb now pkg)
  show ?thesis
  proof (cases "check_package t tb now pkg")
    case (Inr p)
    from check_package_open [OF this] show ?thesis
      unfolding Accept_package transfer_frozen_def by (simp add: accept_package_def Inr Let_def split_beta split: option.split)
  qed (simp add: Accept_package accept_package_def transfer_frozen_def)
next
  case Complete_transfer
  have "transfer_frozen t (t\<lparr>machine := suspend_machine (machine t)\<rparr>)" by (auto simp: transfer_frozen_def)
  then show ?thesis unfolding Complete_transfer transfer_step.simps complete_transfer_def
    by (auto simp: transfer_frozen_def [of t t] fst_then_do intro!: on_machine_frozen split: sum.splits option.splits)
qed (auto simp: begin_transfer_def fail_transfer_def fst_then_do intro!: on_machine_frozen split: sum.splits)

interpretation transfers: monotone_machine "transfer_step sha" "transfer_ok sha" transfer_frozen for sha
proof
  fix s t u e
  show "transfer_ok sha s \<Longrightarrow> transfer_ok sha (fst (transfer_step sha s e))" by (rule transfer_step_ok)
  show "transfer_frozen s s" by (simp add: transfer_frozen_def)
  show "transfer_frozen s t \<Longrightarrow> transfer_frozen t u \<Longrightarrow> transfer_frozen s u" by (auto simp: transfer_frozen_def)
  show "transfer_frozen s (fst (transfer_step sha s e))" by (rule transfer_step_frozen)
qed

definition transfer_run :: "(u8 list \<Rightarrow> u8 list) \<Rightarrow> sync_authorization \<Rightarrow> transfer_event list \<Rightarrow> transfer" where
  "transfer_run sha a es = final (transfer_step sha) (new_transfer a) es"

lemma transfer_run_ok: "transfer_ok sha (transfer_run sha a es)"
  unfolding transfer_run_def by (rule transfers.run_inv) (rule new_transfer_ok)

lemma transfer_run_append: "transfer_run sha a (es @ fs) = final (transfer_step sha) (transfer_run sha a es) fs"
  by (simp add: transfer_run_def final_append)

lemma completed_content:
  assumes "sync_transfer (machine (transfer_run sha a es)) = Completed"
  shows "content_ok sha (transfer_run sha a es)"
  using assms transfer_run_ok [of sha a es] by (simp add: transfer_ok_def)

lemma run_auth: "transfer_auth (transfer_run sha a es) = a"
  unfolding transfer_run_def
  by (induction es rule: rev_induct)
    (use transfer_step_frozen in \<open>auto simp: new_transfer_def final_append transfer_frozen_def\<close>)

lemma chunk_value_inj: "map chunk_value xs = map chunk_value ys \<Longrightarrow> xs = ys"
  by (rule map_injective) (auto simp: inj_def chunk_value_def prod_eq_iff)

lemma json_ok_chunks: "json_ok (VObj [(''version'', VInt 1), (''transferId'', VStr t), (''chunks'', VArr (map chunk_value cs))])"
  by (simp add: list_all_iff chunk_value_def)

lemma syncContentCommitment_binds:
  assumes "syncContentCommitment sha t xs = syncContentCommitment sha t' ys"
  shows "t = t' \<and> sort_key fst xs = sort_key fst ys \<or> (\<exists>a b. a \<noteq> b \<and> sha a = sha b)"
proof -
  let ?v = "\<lambda>t cs. VObj [(''version'', VInt 1), (''transferId'', VStr t), (''chunks'', VArr (map chunk_value cs))]"
  have "t = t' \<and> sort_key fst xs = sort_key fst ys"
    if "stringify (?v t (sort_key fst xs)) = stringify (?v t' (sort_key fst ys))"
    using stringify_inj [OF that json_ok_chunks json_ok_chunks] chunk_value_inj by simp
  then show ?thesis
    using assms digest_hex_binds [of sha "stringify (?v t (sort_key fst xs))" "stringify (?v t' (sort_key fst ys))"]
    unfolding syncContentCommitment_def syncDigest_def by blast
qed

text \<open>
  C19. A transfer that completes holds exactly the content its manifest announced:
  as many chunks as announced, all of them received packages, whose commitment
  is the manifest's, and nothing that happens afterwards changes its chunks.
  Two receivers that complete on manifests with the same commitment hold the
  same chunks, or SHA-256 has a collision.
\<close>
theorem completed_transfer_content:
  assumes "sync_transfer (machine (transfer_run sha a es)) = Completed"
  shows "(\<exists>m. manifest (transfer_run sha a es) = Some m \<and> int (length (chunks (transfer_run sha a es))) = manifest_count m \<and>
      get_prop m ''finalContentCommitment'' = VStr (syncContentCommitment sha (sa_transferId a) (chunks (transfer_run sha a es)))) \<and>
    set (chunks (transfer_run sha a es)) \<subseteq> set (received_digests (transfer_run sha a es)) \<and>
    chunks (transfer_run sha a (es @ fs)) = chunks (transfer_run sha a es) \<and> sync_transfer (machine (transfer_run sha a (es @ fs))) = Completed \<and>
    (sync_transfer (machine (transfer_run sha b gs)) = Completed \<longrightarrow>
      get_prop (the (manifest (transfer_run sha b gs))) ''finalContentCommitment'' =
        get_prop (the (manifest (transfer_run sha a es))) ''finalContentCommitment'' \<longrightarrow>
      sort_key fst (chunks (transfer_run sha b gs)) = sort_key fst (chunks (transfer_run sha a es)) \<or> (\<exists>x y. x \<noteq> y \<and> sha x = sha y))"
proof -
  have content: "content_ok sha (transfer_run sha a es)" using completed_content assms by simp
  then have announced: "\<exists>m. manifest (transfer_run sha a es) = Some m \<and> int (length (chunks (transfer_run sha a es))) = manifest_count m \<and>
      get_prop m ''finalContentCommitment'' = VStr (syncContentCommitment sha (sa_transferId a) (chunks (transfer_run sha a es)))"
    by (auto simp: content_ok_def run_auth split: option.splits)
  moreover have "set (chunks (transfer_run sha a es)) \<subseteq> set (received_digests (transfer_run sha a es))"
    using transfer_run_ok [of sha a es] by (simp add: transfer_ok_def)
  moreover have "chunks (transfer_run sha a (es @ fs)) = chunks (transfer_run sha a es) \<and> sync_transfer (machine (transfer_run sha a (es @ fs))) = Completed"
    using transfers.run_grows [OF transfer_run_ok, of sha a es fs] assms
    by (simp add: transfer_frozen_def transfer_run_append)
  moreover have "sort_key fst (chunks (transfer_run sha b gs)) = sort_key fst (chunks (transfer_run sha a es)) \<or> (\<exists>x y. x \<noteq> y \<and> sha x = sha y)"
    if "sync_transfer (machine (transfer_run sha b gs)) = Completed"
      and "get_prop (the (manifest (transfer_run sha b gs))) ''finalContentCommitment'' =
        get_prop (the (manifest (transfer_run sha a es))) ''finalContentCommitment''"
  proof -
    from that(1) have "content_ok sha (transfer_run sha b gs)" using completed_content by simp
    with announced that(2) have "syncContentCommitment sha (sa_transferId b) (chunks (transfer_run sha b gs))
        = syncContentCommitment sha (sa_transferId a) (chunks (transfer_run sha a es))"
      by (auto simp: content_ok_def run_auth split: option.splits)
    then show ?thesis using syncContentCommitment_binds by blast
  qed
  ultimately show ?thesis by blast
qed

text \<open>A transfer of one chunk between two active devices.\<close>

definition tablet :: device_entry where
  "tablet = \<lparr>deviceId = ''tablet'', publicIdentityReference = ''tablet-key'', algorithm = ''vodozemac'',
     state = Active, createdAt = 1, revokedAt = None, label = None\<rparr>"

definition pair_list :: device_list where
  "pair_list = \<lparr>identityReference = ''acct'', epoch = 0, previousCommitment = None, devices = [desk, tablet]\<rparr>"

definition pair_boundary :: trust_boundary where
  "pair_boundary = \<lparr>boundary_snapshot = Inr \<lparr>snap_list = pair_list, commitment = zeros\<rparr>,
     boundary_assertTrustedAt = \<lambda>_. Inr ()\<rparr>"

definition pair_transfer :: sync_authorization where
  "pair_transfer = \<lparr>sa_version = 1, sa_scope = ''acct'', sourceDeviceId = ''desk'', sa_targetDeviceId = ''tablet'',
     sourceIdentityReference = ''desk-key'', targetIdentityReference = ''tablet-key'',
     sa_checkpoint = \<lparr>cp_epoch = 0, cp_commitment = zeros\<rparr>, sa_transferId = ''transfer-00000001'',
     sa_expiresAt = Whole 50, activeMemberDeviceIds = None, freshnessRequired = False, freshnessEvidence = []\<rparr>"

definition sample_package :: "string \<Rightarrow> int \<Rightarrow> jsval \<Rightarrow> jsval" where
  "sample_package what n content = VObj
     [(''version'', VInt 1), (''purpose'', VStr what), (''scope'', VStr ''acct''), (''sender'', VStr ''desk''),
      (''senderIdentity'', VStr ''desk-key''), (''receiver'', VStr ''tablet''), (''receiverIdentity'', VStr ''tablet-key''),
      (''checkpoint'', checkpoint_value 0 zeros), (''streamId'', VStr ''stream-000000001''), (''sequence'', VInt n),
      (''messageId'', VStr ''message-00000001''), (''transferId'', VStr ''transfer-00000001''), (''payload'', content)]"

definition sample_manifest :: jsval where
  "sample_manifest = VObj [(''version'', VInt 1), (''expectedChunkCount'', VInt 1), (''finalContentCommitment'', VStr zeros)]"

definition sample_run :: "transfer_event list" where
  "sample_run = [Authorize_transfer pair_boundary 10, Begin_transfer,
     Accept_package pair_boundary 10 (sample_package ''sync-manifest'' 1 sample_manifest),
     Accept_package pair_boundary 10 (sample_package ''sync-chunk'' 2 VNull), Complete_transfer]"

lemma sample_lengths:
  "length (stringify (sample_package ''sync-manifest'' 1 sample_manifest)) \<le> 1000"
  "length (stringify (sample_package ''sync-chunk'' 2 VNull)) \<le> 1000"
  by (simp_all add: sample_package_def sample_manifest_def checkpoint_value_def join_def quote_def escape_char_def zeros_def
      show_int_def show_nat.simps code_def)

lemma pair_list_ok: "list_ok pair_list"
  using concrete_entries_ok
  by (simp add: list_ok_def pair_list_def entries_text_ok sample_times)
    (simp add: entry_ok_def tablet_def desk_def entries_text_ok sample_times, code_simp)

lemma pair_authorized: "authorizeSync zero_hash pair_transfer pair_boundary 10 = Inr ()"
  by (simp add: authorizeSync_def pair_transfer_def pair_boundary_def members_def verifyDeviceListCheckpoint_def
      pair_list_ok sample_times) (simp add: pair_list_def active_as_def deviceEntryById_def desk_def tablet_def)

lemma short_package: "length (stringify p) \<le> 1000 \<Longrightarrow> utf8_length (SYNC_PREFIX @ stringify p) \<le> 65536"
  using utf8_length_le [of "stringify p"] utf8_length_le [of SYNC_PREFIX] by (simp add: SYNC_PREFIX_def)

lemma sample_packages_ok:
  "json_ok (sample_package ''sync-manifest'' 1 sample_manifest)" "json_ok (sample_package ''sync-chunk'' 2 VNull)"
  by code_simp+

lemma sample_decodes:
  "decodeSyncPackage (encodeSyncPackage (sample_package ''sync-manifest'' 1 sample_manifest))
     = Inr (sample_package ''sync-manifest'' 1 sample_manifest)"
  "decodeSyncPackage (encodeSyncPackage (sample_package ''sync-chunk'' 2 VNull)) = Inr (sample_package ''sync-chunk'' 2 VNull)"
  unfolding decodeSyncPackage_def encodeSyncPackage_def wire.simps json_image_id [OF sample_packages_ok(1)] json_image_id [OF sample_packages_ok(2)]
  unfolding short_package [OF sample_lengths(1)] short_package [OF sample_lengths(2)] eqTrueI [OF short_package [OF sample_lengths(1)]]
    eqTrueI [OF short_package [OF sample_lengths(2)]]
  by code_simp+

lemma sample_addressed:
  "check_package t pair_boundary 10 (sample_package ''sync-manifest'' 1 sample_manifest) = Inr (sample_package ''sync-manifest'' 1 sample_manifest)"
  "check_package t pair_boundary 10 (sample_package ''sync-chunk'' 2 VNull) = Inr (sample_package ''sync-chunk'' 2 VNull)"
  if "transfer_auth t = pair_transfer" "sync_device (machine t) = Sync_syncing" "sync_transfer (machine t) = Transferring"
  unfolding check_package_def sample_decodes Let_def that
  by (simp_all add: sample_package_def pair_transfer_def pair_boundary_def addressed_def checkpoint_value_def)

lemma sample_fields:
  "num_of (get_prop (sample_package k n v) ''sequence'') = n" "get_prop (sample_package k n v) ''purpose'' = VStr k"
  "get_prop (sample_package k n v) ''payload'' = v" "syncDigest zero_hash p = zeros"
  by (simp_all add: sample_package_def syncDigest_def)

lemma sample_completes: "sync_transfer (machine (transfer_run zero_hash pair_transfer sample_run)) = Completed"
proof -
  define t0 where "t0 = \<lparr>machine = \<lparr>sync_device = Sync_syncing, sync_transfer = Transferring\<rparr>, received_digests = [],
     chunks = [], manifest = None, transfer_auth = pair_transfer\<rparr>"
  define t1 where "t1 = t0\<lparr>manifest := Some sample_manifest, received_digests := [(1, zeros)]\<rparr>"
  define t2 where "t2 = t1\<lparr>chunks := [(2, zeros)], received_digests := [(1, zeros), (2, zeros)]\<rparr>"
  have "fst (transfer_step zero_hash (fst (transfer_step zero_hash (new_transfer pair_transfer) (Authorize_transfer pair_boundary 10))) Begin_transfer) = t0"
    by (simp add: authorize_transfer_def new_transfer_def pair_authorized begin_transfer_def on_machine_def then_do_def
        transitionDevice_def transitionTransfer_def assertDeviceTransition_def assertTransferTransition_def t0_def)
  moreover have "fst (transfer_step zero_hash t0 (Accept_package pair_boundary 10 (sample_package ''sync-manifest'' 1 sample_manifest))) = t1"
    by (simp add: accept_package_def sample_addressed t0_def t1_def sample_fields put_def)
  moreover have "fst (transfer_step zero_hash t1 (Accept_package pair_boundary 10 (sample_package ''sync-chunk'' 2 VNull))) = t2"
    by (simp add: accept_package_def sample_addressed t0_def t1_def t2_def sample_fields put_def)
  moreover have "sync_transfer (machine (fst (transfer_step zero_hash t2 Complete_transfer))) = Completed"
    by (simp add: complete_transfer_def t0_def t1_def t2_def sample_manifest_def manifest_count_def syncContentCommitment_def
        syncDigest_def on_machine_def then_do_def transitionDevice_def transitionTransfer_def assertTransferTransition_def
        assertDeviceTransition_def)
  ultimately show ?thesis by (simp add: transfer_run_def sample_run_def)
qed

theorem completed_transfer_content_witness:
  "\<exists>t. t = transfer_run zero_hash pair_transfer sample_run \<and> sync_transfer (machine t) = Completed \<and>
     (\<exists>m. manifest t = Some m \<and> int (length (chunks t)) = manifest_count m \<and>
       get_prop m ''finalContentCommitment'' = VStr (syncContentCommitment zero_hash (sa_transferId pair_transfer) (chunks t)))"
  using conjunct1 [OF completed_transfer_content [OF sample_completes, of "[]"]] sample_completes by metis

end
