(* ===== verification/SyncStore.thy ===== *)
theory SyncStore
  imports SyncProtocol
begin

text \<open>
  Durable synchronisation state: validation of imported records
  (\<open>service/src/sync/stateRecords.ts\<close>) and the transactional store of checkpoint,
  progress, replay claims and imported records (\<open>persistence.ts\<close>), which writes
  the application records in the same compare-and-swap. Parsed records are JSON
  values; a transaction works on the copy it read.
\<close>

section \<open>JavaScript details\<close>

text \<open>\<open>String(v)\<close>, which regular-expression tests apply to their argument.\<close>

fun js_string :: "jsval \<Rightarrow> string" where
  "js_string VUndefined = ''undefined''"
| "js_string VNull = ''null''"
| "js_string (VBool b) = (if b then ''true'' else ''false'')"
| "js_string (VNum NotWhole) = ''NaN''"
| "js_string (VNum (Whole n)) = show_int n"
| "js_string (VStr s) = s"
| "js_string (VArr vs) = join (map (\<lambda>v. if v = VUndefined \<or> v = VNull then [] else js_string v) vs)"
| "js_string (VObj _) = ''[object Object]''"

text \<open>\<open>a === b\<close> on parsed values: objects of different texts are never the same object.\<close>

definition strict_eq :: "jsval \<Rightarrow> jsval \<Rightarrow> bool" where
  "strict_eq v w \<longleftrightarrow> v = w \<and> \<not> is_object v"

fun array_of :: "jsval \<Rightarrow> jsval list" where
  "array_of (VArr vs) = vs"
| "array_of _ = []"

fun is_array :: "jsval \<Rightarrow> bool" where
  "is_array (VArr _) = True"
| "is_array _ = False"

definition has_prop :: "jsval \<Rightarrow> string \<Rightarrow> bool" where
  "has_prop v k \<longleftrightarrow> k \<in> set (object_keys v)"

section \<open>Record validation\<close>

definition requiredString :: "jsval \<Rightarrow> bool" where
  "requiredString v \<longleftrightarrow> is_string v \<and> 0 < length (str_of v) \<and> length (str_of v) \<le> 256"

definition conversation_ok :: "jsval \<Rightarrow> bool" where
  "conversation_ok p \<longleftrightarrow> requiredString (get_prop p ''conversationId'') \<and> get_prop p ''protocol'' = VStr ''modern'' \<and>
     list_all (\<lambda>k. get_prop p k = VUndefined \<or> requiredString (get_prop p k)) [''sessionId'', ''localAddress'', ''remoteAddress'']"

definition contact_ok :: "jsval \<Rightarrow> bool" where
  "contact_ok p \<longleftrightarrow> list_all (\<lambda>k. requiredString (get_prop p k)) [''contactId'', ''identityId'', ''algorithm'', ''publicKey''] \<and>
     js_string (get_prop p ''verification'') \<in> {''unknown'', ''unverified'', ''verified''} \<and>
     get_prop p ''changeStatus'' = VStr ''unchanged''"

definition device_record_ok :: "string \<Rightarrow> jsval \<Rightarrow> bool" where
  "device_record_ok sc p \<longleftrightarrow>
     (let st = get_prop p ''state''; l = get_prop st ''list'' in
      truthy st \<and> truthy l \<and> get_prop l ''identityReference'' = VStr sc \<and> is_array (get_prop l ''devices'') \<and>
      requiredString (get_prop st ''commitment''))"

definition settings_ok :: "jsval \<Rightarrow> bool" where
  "settings_ok p \<longleftrightarrow> js_string (get_prop p ''theme'') \<in> {''paper-ink'', ''slate-dusk''} \<and>
     list_all (\<lambda>k. get_prop p k = VUndefined \<or> get_prop p k = VBool False) [''analytics'', ''backgroundCapture'', ''externalMedia'']"

definition validatePayload :: "string \<Rightarrow> jsval \<Rightarrow> string \<Rightarrow> unit outcome" where
  "validatePayload kind p sc =
     and_then (require (is_plain_object p) ''Sync record rejected.'') (\<lambda>_.
     and_then (require (has_prop p ''owner'' \<longrightarrow> get_prop p ''owner'' = VStr sc) ''Sync record owner rejected.'') (\<lambda>_.
     and_then (require (kind = ''conversation'' \<longrightarrow> conversation_ok p) ''Sync record rejected.'') (\<lambda>_.
     and_then (require (kind = ''contact'' \<longrightarrow> contact_ok p) ''Sync record rejected.'') (\<lambda>_.
     and_then (require (kind = ''device'' \<longrightarrow> device_record_ok sc p) ''Sync record rejected.'') (\<lambda>_.
       require (kind = ''settings'' \<longrightarrow> settings_ok p) ''Sync record rejected.'')))))"

definition record_kinds :: "string list" where
  "record_kinds = [''conversation'', ''contact'', ''device'', ''settings'']"

definition validateSyncRecord :: "jsval \<Rightarrow> jsval \<Rightarrow> unit outcome" where
  "validateSyncRecord r cp =
     and_then (require (get_prop r ''version'' = VInt 1 \<and> truthy (get_prop r ''scope'') \<and>
         id_16_128 (js_string (get_prop r ''recordId'')) \<and>
         is_string (get_prop r ''kind'') \<and> str_of (get_prop r ''kind'') \<in> set record_kinds \<and>
         strict_eq (get_prop r ''epoch'') (get_prop cp ''epoch'') \<and>
         strict_eq (get_prop r ''commitment'') (get_prop cp ''commitment'') \<and>
         hex64 (js_string (get_prop r ''commitment''))) ''Sync record rejected.'') (\<lambda>_.
       validatePayload (str_of (get_prop r ''kind'')) (get_prop r ''payload'') (str_of (get_prop r ''scope'')))"

fun validate_each :: "string \<Rightarrow> jsval \<Rightarrow> jsval list \<Rightarrow> jsval list \<Rightarrow> unit outcome" where
  "validate_each sc cp seen [] = Inr ()"
| "validate_each sc cp seen (r # rs) =
     and_then (member r ''scope'') (\<lambda>s.
     and_then (require (s = VStr sc \<and> \<not> list_ex (strict_eq (get_prop r ''recordId'')) seen) ''Sync record rejected.'') (\<lambda>_.
     and_then (validateSyncRecord r cp) (\<lambda>_. validate_each sc cp (seen @ [get_prop r ''recordId'']) rs)))"

definition validateSyncRecords :: "string \<Rightarrow> jsval \<Rightarrow> jsval list \<Rightarrow> unit outcome" where
  "validateSyncRecords sc cp rs =
     and_then (require (sc \<noteq> [] \<and> rs \<noteq> []) ''Sync records rejected.'') (\<lambda>_. validate_each sc cp [] rs)"

section \<open>The stored record\<close>

definition same :: "jsval \<Rightarrow> jsval \<Rightarrow> bool" where
  "same a b \<longleftrightarrow> strict_eq (get_prop a ''epoch'') (get_prop b ''epoch'') \<and>
     strict_eq (get_prop a ''commitment'') (get_prop b ''commitment'')"

definition checkpointValid :: "jsval \<Rightarrow> bool" where
  "checkpointValid v \<longleftrightarrow> truthy v \<and> is_safe_num (get_prop v ''epoch'') \<and> 0 \<le> num_of (get_prop v ''epoch'') \<and>
     hex64 (js_string (get_prop v ''commitment''))"

definition membersValid :: "jsval \<Rightarrow> bool" where
  "membersValid v \<longleftrightarrow> v = VUndefined \<or>
     is_array v \<and> length (array_of v) \<le> 8 \<and>
     list_all (\<lambda>m. is_string m \<and> 0 < length (str_of m) \<and> length (str_of m) \<le> 2048) (array_of v) \<and> distinct (array_of v)"

definition validateState :: "string \<Rightarrow> jsval \<Rightarrow> jsval \<Rightarrow> unit outcome" where
  "validateState sc st cp = require
     (truthy st \<and> get_prop st ''scope'' = VStr sc \<and> get_prop st ''version'' = VInt 1 \<and>
      checkpointValid (get_prop st ''checkpoint'') \<and> same (get_prop st ''checkpoint'') cp \<and>
      is_string (get_prop st ''admission'') \<and>
      str_of (get_prop st ''admission'') \<in> {''idle'', ''prepare'', ''prepared'', ''ready'', ''transfer''} \<and>
      is_array (get_prop st ''receivedSequences'') \<and> length (array_of (get_prop st ''receivedSequences'')) \<le> 100000 \<and>
      list_all (\<lambda>n. is_safe_num n \<and> 1 \<le> num_of n) (array_of (get_prop st ''receivedSequences'')) \<and>
      distinct (array_of (get_prop st ''receivedSequences'')) \<and>
      membersValid (get_prop st ''preparedMembers'') \<and> membersValid (get_prop st ''readyMembers'') \<and>
      list_all (\<lambda>m. m \<in> set (array_of (get_prop st ''preparedMembers''))) (array_of (get_prop st ''readyMembers'')) \<and>
      (get_prop st ''terminal'' = VUndefined \<or>
       get_prop st ''terminal'' \<in> {VStr ''completed'', VStr ''failed''} \<and> get_prop st ''admission'' = VStr ''idle''))
     ''Sync persistence corrupted.''"

definition claims_of :: "jsval \<Rightarrow> jsval list" where
  "claims_of r = array_of (get_prop r ''claims'')"

definition record_shape :: "string \<Rightarrow> jsval \<Rightarrow> bool" where
  "record_shape sc r \<longleftrightarrow>
     truthy r \<and> get_prop r ''version'' = VInt 1 \<and> get_prop r ''scope'' = VStr sc \<and>
     is_safe_num (get_prop r ''revision'') \<and> 1 \<le> num_of (get_prop r ''revision'') \<and>
     is_array (get_prop r ''claims'') \<and> length (claims_of r) \<le> 100000 \<and>
     list_all (\<lambda>k. is_string k \<and> str_of k \<noteq> [] \<and> length (str_of k) \<le> 2048) (claims_of r) \<and> distinct (claims_of r) \<and>
     (truthy (get_prop r ''checkpoint'') \<longrightarrow> checkpointValid (get_prop r ''checkpoint'')) \<and>
     (get_prop r ''records'' \<noteq> VUndefined \<longrightarrow>
       is_array (get_prop r ''records'') \<and> length (array_of (get_prop r ''records'')) \<le> 10000)"

definition fresh_record :: "string \<Rightarrow> jsval" where
  "fresh_record sc = VObj [(''version'', VInt 1), (''scope'', VStr sc), (''revision'', VInt 0), (''claims'', VArr [])]"

definition load :: "(u8 list \<Rightarrow> u8 list) \<Rightarrow> store \<Rightarrow> string \<Rightarrow> (string \<times> cell option \<times> jsval) outcome" where
  "load sha s sc =
     and_then (canonicalIdentityRecordId sha sc) (\<lambda>i.
       case read_cell s ''sync-runtime'' i of
         None \<Rightarrow> Inr (i, None, fresh_record sc)
       | Some raw \<Rightarrow>
           and_then (parse_cell ''Sync persistence corrupted.'' raw) (\<lambda>r.
           and_then (require (record_shape sc r) ''Sync persistence corrupted.'') (\<lambda>_.
           and_then (if get_prop r ''state'' \<noteq> VUndefined
             then validateState sc (get_prop r ''state'') (get_prop r ''checkpoint'') else Inr ()) (\<lambda>_.
           and_then (if get_prop r ''records'' \<noteq> VUndefined \<and> truthy (get_prop r ''checkpoint'')
             then validateSyncRecords sc (get_prop r ''checkpoint'') (array_of (get_prop r ''records'')) else Inr ()) (\<lambda>_.
             Inr (i, Some raw, r))))))"

definition read_checkpoint :: "(u8 list \<Rightarrow> u8 list) \<Rightarrow> store \<Rightarrow> string \<Rightarrow> jsval outcome" where
  "read_checkpoint sha s sc = and_then (load sha s sc) (\<lambda>(i, raw, r). Inr (get_prop r ''checkpoint''))"

definition readState :: "(u8 list \<Rightarrow> u8 list) \<Rightarrow> store \<Rightarrow> string \<Rightarrow> jsval outcome" where
  "readState sha s sc = and_then (load sha s sc) (\<lambda>(i, raw, r). Inr (get_prop r ''state''))"

definition readRecords :: "(u8 list \<Rightarrow> u8 list) \<Rightarrow> store \<Rightarrow> string \<Rightarrow> jsval outcome" where
  "readRecords sha s sc = and_then (load sha s sc) (\<lambda>(i, raw, r). Inr (nullish (get_prop r ''records'') (VArr [])))"

section \<open>Application records\<close>

definition update_of :: "store \<Rightarrow> string \<Rightarrow> string \<Rightarrow> jsval \<Rightarrow> record_update" where
  "update_of s t i v = \<lparr>update_key = (t, i), expected = read_cell s t i, next_cell = JsonText (json_image v)\<rparr>"

definition optional_prop :: "jsval \<Rightarrow> string \<Rightarrow> (string \<times> jsval) list" where
  "optional_prop p k = (if truthy (get_prop p k) then [(k, get_prop p k)] else [])"

definition conversation_updates :: "store \<Rightarrow> jsval \<Rightarrow> record_update list" where
  "conversation_updates s p =
     [update_of s ''conversation-protocol'' (str_of (get_prop p ''conversationId''))
       (VObj ([(''version'', VInt 1), (''mode'', VStr ''modern'')] @ optional_prop p ''sessionId'' @
          optional_prop p ''localAddress'' @ optional_prop p ''remoteAddress''))]"

text \<open>The stored contact: absent or empty is no contact, and text that does not parse ends the import of it.\<close>

fun current_contact :: "cell option \<Rightarrow> jsval option" where
  "current_contact None = Some VUndefined"
| "current_contact (Some (RawText [])) = Some VUndefined"
| "current_contact (Some (RawText _)) = None"
| "current_contact (Some (JsonText v)) = Some v"

fun object_props :: "jsval \<Rightarrow> (string \<times> jsval) list" where
  "object_props (VObj ps) = ps"
| "object_props _ = []"

definition next_contact :: "jsval \<Rightarrow> jsval \<Rightarrow> jsval" where
  "next_contact current p =
     (let verification = (if get_prop current ''verification'' = VStr ''verified'' \<and> get_prop p ''verification'' = VStr ''verified''
          then ''verified'' else ''unverified'');
          next = fold (\<lambda>(k, v) ps. put k v ps)
            [(''contactId'', get_prop p ''contactId''), (''identityId'', get_prop p ''identityId''),
             (''algorithm'', get_prop p ''algorithm''), (''publicKey'', get_prop p ''publicKey''),
             (''verification'', VStr verification), (''changeStatus'', VStr ''unchanged'')] (object_props current)
      in VObj (if verification \<noteq> ''verified'' then filter (\<lambda>q. fst q \<noteq> ''verifiedAt'') next else next))"

definition contact_updates :: "store \<Rightarrow> jsval \<Rightarrow> record_update list" where
  "contact_updates s p =
     (let i = str_of (get_prop p ''contactId'') in
      case current_contact (read_cell s ''contact-identity'' i) of
        None \<Rightarrow> []
      | Some current \<Rightarrow>
          if truthy current \<and> (\<not> strict_eq (get_prop current ''identityId'') (get_prop p ''identityId'')
              \<or> get_prop current ''changeStatus'' \<noteq> VStr ''unchanged'')
          then [] else [update_of s ''contact-identity'' i (next_contact current p)])"

definition settings_updates :: "store \<Rightarrow> jsval \<Rightarrow> record_update list" where
  "settings_updates s p = [update_of s ''application-settings'' ''local''
     (VObj [(''version'', VInt 1), (''theme'', get_prop p ''theme''),
       (''privacy'', VObj [(''analytics'', VBool False), (''backgroundCapture'', VBool False), (''externalMedia'', VBool False),
          (''minimizeMetadata'', VBool (get_prop p ''minimizeMetadata'' \<noteq> VBool False))])])]"

definition device_updates :: "(u8 list \<Rightarrow> u8 list) \<Rightarrow> store \<Rightarrow> string \<Rightarrow> jsval \<Rightarrow> record_update list outcome" where
  "device_updates sha s sc p =
     (let st = get_prop p ''state'' in
     and_then (createDeviceList (get_prop st ''list'')) (\<lambda>l.
     and_then (require (identityReference l = sc) ''Sync device record rejected.'') (\<lambda>_.
     and_then (deviceListCommitment sha (list_value l)) (\<lambda>c.
     and_then (require (get_prop st ''commitment'' = VStr c) ''Sync device record rejected.'') (\<lambda>_.
     and_then (canonicalIdentityRecordId sha sc) (\<lambda>i.
       Inr [update_of s RECORD_TYPE i (record_value \<lparr>rec_state = \<lparr>snap_list = l, commitment = c\<rparr>, authorizations = [],
              highestEpoch = epoch l, commitmentHistory = [history_item (epoch l) c]\<rparr>),
            update_of s HIGHWATER_RECORD_TYPE i (highwater_value (epoch l) c)]))))))"

definition applicationUpdates :: "(u8 list \<Rightarrow> u8 list) \<Rightarrow> store \<Rightarrow> string \<Rightarrow> jsval \<Rightarrow> record_update list outcome" where
  "applicationUpdates sha s sc r =
     (let p = get_prop r ''payload''; kind = get_prop r ''kind'' in
      if kind = VStr ''conversation'' then Inr (conversation_updates s p)
      else if kind = VStr ''contact'' then Inr (contact_updates s p)
      else if kind = VStr ''settings'' then Inr (settings_updates s p)
      else device_updates sha s sc p)"

section \<open>Transactions\<close>

record sync_tx =
  tx_record :: jsval
  tx_updates :: "record_update list"

definition requireScope :: "string \<Rightarrow> string \<Rightarrow> unit outcome" where
  "requireScope sc candidate = require (candidate = sc) ''Sync persistence scope rejected.''"

definition checkpoint_forward :: "jsval \<Rightarrow> jsval \<Rightarrow> bool" where
  "checkpoint_forward old cp \<longleftrightarrow> (truthy old \<longrightarrow>
     num_of (get_prop old ''epoch'') < num_of (get_prop cp ''epoch'') \<or>
     num_of (get_prop old ''epoch'') = num_of (get_prop cp ''epoch'') \<and>
     strict_eq (get_prop cp ''commitment'') (get_prop old ''commitment''))"

definition putCheckpoint :: "jsval \<Rightarrow> jsval \<Rightarrow> jsval outcome" where
  "putCheckpoint r cp =
     and_then (require (checkpointValid cp \<and> checkpoint_forward (get_prop r ''checkpoint'') cp) ''Sync checkpoint rejected.'')
       (\<lambda>_. Inr (set_prop r ''checkpoint'' cp))"

definition tx_claim :: "string \<Rightarrow> string \<Rightarrow> string \<Rightarrow> sync_tx \<Rightarrow> (sync_tx \<times> bool) outcome" where
  "tx_claim sc candidate key tx =
     and_then (requireScope sc candidate) (\<lambda>_.
     and_then (require (key \<noteq> [] \<and> length key \<le> 2048 \<and> length (claims_of (tx_record tx)) < 100000)
         ''Sync replay storage unavailable.'') (\<lambda>_.
       if VStr key \<in> set (claims_of (tx_record tx)) then Inr (tx, False)
       else Inr (tx\<lparr>tx_record := set_prop (tx_record tx) ''claims'' (VArr (claims_of (tx_record tx) @ [VStr key]))\<rparr>, True)))"

definition tx_write :: "string \<Rightarrow> string \<Rightarrow> jsval \<Rightarrow> sync_tx \<Rightarrow> sync_tx outcome" where
  "tx_write sc candidate cp tx =
     and_then (requireScope sc candidate) (\<lambda>_.
     and_then (putCheckpoint (tx_record tx) cp) (\<lambda>r. Inr (tx\<lparr>tx_record := r\<rparr>)))"

definition tx_writeState :: "string \<Rightarrow> string \<Rightarrow> jsval \<Rightarrow> sync_tx \<Rightarrow> sync_tx outcome" where
  "tx_writeState sc candidate st tx =
     and_then (requireScope sc candidate) (\<lambda>_.
     and_then (validateState sc st (get_prop st ''checkpoint'')) (\<lambda>_.
     and_then (putCheckpoint (tx_record tx) (get_prop st ''checkpoint'')) (\<lambda>r.
       Inr (tx\<lparr>tx_record := set_prop r ''state'' (json_image st)\<rparr>))))"

fun all_updates :: "(u8 list \<Rightarrow> u8 list) \<Rightarrow> store \<Rightarrow> string \<Rightarrow> jsval list \<Rightarrow> record_update list outcome" where
  "all_updates sha s sc [] = Inr []"
| "all_updates sha s sc (r # rs) =
     and_then (applicationUpdates sha s sc r) (\<lambda>us. and_then (all_updates sha s sc rs) (\<lambda>vs. Inr (us @ vs)))"

definition update_name :: "record_update \<Rightarrow> string" where
  "update_name u = fst (update_key u) @ '':'' @ snd (update_key u)"

definition tx_importRecords ::
  "(u8 list \<Rightarrow> u8 list) \<Rightarrow> store \<Rightarrow> string \<Rightarrow> string \<Rightarrow> jsval \<Rightarrow> jsval list \<Rightarrow> sync_tx \<Rightarrow> sync_tx outcome"
where
  "tx_importRecords sha s sc candidate cp rs tx =
     and_then (requireScope sc candidate) (\<lambda>_.
     and_then (validateSyncRecords sc cp rs) (\<lambda>_.
     and_then (require (truthy (get_prop (tx_record tx) ''checkpoint'') \<longrightarrow> same (get_prop (tx_record tx) ''checkpoint'') cp)
         ''Sync record checkpoint rejected.'') (\<lambda>_.
     let existing = array_of (get_prop (tx_record tx) ''records'') in
     and_then (require (\<not> list_ex (\<lambda>r. list_ex (\<lambda>e. strict_eq (get_prop e ''recordId'') (get_prop r ''recordId'')) existing) rs)
         ''Sync record already imported.'') (\<lambda>_.
     and_then (require (length existing + length rs \<le> 10000) ''Sync record storage unavailable.'') (\<lambda>_.
     and_then (all_updates sha s sc rs) (\<lambda>us.
     and_then (require (distinct (map update_name (tx_updates tx @ us))) ''Sync records target the same application state.'') (\<lambda>_.
       Inr (tx\<lparr>tx_record := set_prop (tx_record tx) ''records'' (VArr (existing @ map json_image rs)),
         tx_updates := tx_updates tx @ us\<rparr>))))))))"

definition transaction ::
  "(u8 list \<Rightarrow> u8 list) \<Rightarrow> store \<Rightarrow> string \<Rightarrow> jsval \<Rightarrow> (sync_tx \<Rightarrow> (sync_tx \<times> 'a) outcome) \<Rightarrow> store \<times> 'a outcome"
where
  "transaction sha s sc expected_cp body =
     (case and_then (load sha s sc) (\<lambda>(i, raw, r).
        and_then (require (same (get_prop r ''checkpoint'') expected_cp) ''Sync persistence conflict.'') (\<lambda>_.
        and_then (body \<lparr>tx_record = r, tx_updates = []\<rparr>) (\<lambda>(tx, result).
        and_then (if get_prop (tx_record tx) ''state'' \<noteq> VUndefined
          then validateState sc (get_prop (tx_record tx) ''state'') (get_prop (tx_record tx) ''checkpoint'') else Inr ()) (\<lambda>_.
        and_then (require (num_of (get_prop (tx_record tx) ''revision'') < MAX_SAFE_INTEGER) ''Sync persistence exhausted.'') (\<lambda>_.
          Inr (\<lparr>update_key = (''sync-runtime'', i), expected = raw, next_cell = JsonText (json_image
              (set_prop (tx_record tx) ''revision'' (VInt (num_of (get_prop (tx_record tx) ''revision'') + 1))))\<rparr>
              # tx_updates tx, result)))))) of
        Inl e \<Rightarrow> (s, Inl e)
      | Inr (us, result) \<Rightarrow>
          let (s', ok) = compareAndSwapRecords s us in (s', if ok then Inr result else Inl ''Sync persistence conflict.''))"

text \<open>Transaction bodies built from the operations, with the answer of every claim.\<close>

datatype tx_op = Claim_key string string | Write_checkpoint string jsval | Write_state string jsval | Import_records string jsval "jsval list"

fun run_op :: "(u8 list \<Rightarrow> u8 list) \<Rightarrow> store \<Rightarrow> string \<Rightarrow> tx_op \<Rightarrow> sync_tx \<Rightarrow> (sync_tx \<times> (string \<times> bool) list) outcome" where
  "run_op sha s sc (Claim_key cand key) tx = and_then (tx_claim sc cand key tx) (\<lambda>(tx', b). Inr (tx', [(key, b)]))"
| "run_op sha s sc (Write_checkpoint cand cp) tx = and_then (tx_write sc cand cp tx) (\<lambda>tx'. Inr (tx', []))"
| "run_op sha s sc (Write_state cand st) tx = and_then (tx_writeState sc cand st tx) (\<lambda>tx'. Inr (tx', []))"
| "run_op sha s sc (Import_records cand cp rs) tx = and_then (tx_importRecords sha s sc cand cp rs tx) (\<lambda>tx'. Inr (tx', []))"

fun run_ops :: "(u8 list \<Rightarrow> u8 list) \<Rightarrow> store \<Rightarrow> string \<Rightarrow> tx_op list \<Rightarrow> sync_tx \<Rightarrow> (sync_tx \<times> (string \<times> bool) list) outcome" where
  "run_ops sha s sc [] tx = Inr (tx, [])"
| "run_ops sha s sc (x # xs) tx =
     and_then (run_op sha s sc x tx) (\<lambda>(tx1, as). and_then (run_ops sha s sc xs tx1) (\<lambda>(tx2, bs). Inr (tx2, as @ bs)))"

record sync_call =
  call_scope :: string
  call_expected :: jsval
  call_ops :: "tx_op list"

definition sync_step :: "(u8 list \<Rightarrow> u8 list) \<Rightarrow> store \<Rightarrow> sync_call \<Rightarrow> store \<times> (string \<times> bool) list outcome" where
  "sync_step sha s c = transaction sha s (call_scope c) (call_expected c) (run_ops sha s (call_scope c) (call_ops c))"

section \<open>What a transaction changes\<close>

lemma get_prop_obj: "get_prop v k \<noteq> VUndefined \<Longrightarrow> \<exists>ps. v = VObj ps"
  by (cases v) simp_all

lemma get_set_obj [simp]: "is_plain_object v \<Longrightarrow> get_prop (set_prop v k x) k' = (if k' = k then x else get_prop v k')"
  by (cases v) simp_all

lemma set_prop_obj [simp]: "is_plain_object (set_prop v k x) = is_plain_object v"
  by (cases v) simp_all

lemma map_of_filter_kept: "map_of ps k = Some x \<Longrightarrow> P (k, x) \<Longrightarrow> map_of (filter P ps) k = Some x"
  by (induction ps) (auto split: if_splits)

lemma get_json_image: "get_prop v k \<noteq> VUndefined \<Longrightarrow> get_prop (json_image v) k = json_image (get_prop v k)"
proof -
  assume defined: "get_prop v k \<noteq> VUndefined"
  then obtain ps where v: "v = VObj ps" using get_prop_obj by blast
  with defined obtain x where x: "map_of ps k = Some x" "x \<noteq> VUndefined" by (auto split: option.splits)
  then have "map_of (filter (\<lambda>p. snd p \<noteq> VUndefined) ps) k = Some x" by (simp add: map_of_filter_kept)
  moreover have "map_of (map (\<lambda>p. (fst p, f (snd p))) qs) k = map_option f (map_of qs k)" for f :: "jsval \<Rightarrow> jsval" and qs
    by (induction qs) auto
  ultimately show ?thesis by (simp add: v x)
qed

text \<open>
  What every operation keeps of a transaction: the record stays an object of
  its scope whose claims are strings and only grow, and the checkpoint only
  moves forward. The application records it queues are none of the store's own.
\<close>

definition claims_ok :: "jsval \<Rightarrow> bool" where
  "claims_ok r \<longleftrightarrow> is_plain_object r \<and> is_array (get_prop r ''claims'') \<and> list_all is_string (claims_of r) \<and>
     (get_prop r ''checkpoint'' = VUndefined \<longrightarrow> ''checkpoint'' \<notin> fst ` set (object_props r)) \<and>
     (truthy (get_prop r ''checkpoint'') \<longrightarrow> is_safe_num (get_prop (get_prop r ''checkpoint'') ''epoch''))"

definition stored_epoch :: "jsval \<Rightarrow> int" where
  "stored_epoch r = (if truthy (get_prop r ''checkpoint'') then num_of (get_prop (get_prop r ''checkpoint'') ''epoch'') else -1)"

definition tx_le :: "sync_tx \<Rightarrow> sync_tx \<Rightarrow> bool" where
  "tx_le tx tx' \<longleftrightarrow> claims_ok (tx_record tx') \<and> set (claims_of (tx_record tx)) \<subseteq> set (claims_of (tx_record tx')) \<and>
     stored_epoch (tx_record tx) \<le> stored_epoch (tx_record tx') \<and>
     get_prop (tx_record tx') ''scope'' = get_prop (tx_record tx) ''scope'' \<and>
     (\<forall>u \<in> set (tx_updates tx'). u \<in> set (tx_updates tx) \<or> fst (update_key u) \<noteq> ''sync-runtime'')"

lemma tx_le_refl: "claims_ok (tx_record tx) \<Longrightarrow> tx_le tx tx"
  by (simp add: tx_le_def)

lemma tx_le_trans: "tx_le a b \<Longrightarrow> tx_le b c \<Longrightarrow> tx_le a c"
  unfolding tx_le_def by (elim conjE, intro conjI) (force+)

lemma claims_of_set [simp]:
  "is_plain_object r \<Longrightarrow> k \<noteq> ''claims'' \<Longrightarrow> claims_of (set_prop r k v) = claims_of r"
  "is_plain_object r \<Longrightarrow> claims_of (set_prop r ''claims'' v) = array_of v"
  by (simp_all add: claims_of_def)

lemma set_prop_keys:
  "is_plain_object r \<Longrightarrow> fst ` set (object_props (set_prop r k v)) = insert k (fst ` set (object_props r))"
  by (cases r) (simp_all add: put_def image_image split_beta insert_absorb)

lemma claims_ok_set [simp]: "k \<noteq> ''claims'' \<Longrightarrow> k \<noteq> ''checkpoint'' \<Longrightarrow> claims_ok r \<Longrightarrow> claims_ok (set_prop r k v)"
  by (auto simp: claims_ok_def set_prop_keys)

lemma claims_ok_claims [simp]: "claims_ok r \<Longrightarrow> list_all is_string vs \<Longrightarrow> claims_ok (set_prop r ''claims'' (VArr vs))"
  by (auto simp: claims_ok_def set_prop_keys)

lemma stored_epoch_set [simp]: "is_plain_object r \<Longrightarrow> k \<noteq> ''checkpoint'' \<Longrightarrow> stored_epoch (set_prop r k v) = stored_epoch r"
  by (simp add: stored_epoch_def)

lemma tx_claim_le:
  assumes "claims_ok (tx_record tx)" and "tx_claim sc cand key tx = Inr (tx', b)"
  shows "tx_le tx tx' \<and> VStr key \<in> set (claims_of (tx_record tx')) \<and> (b \<longrightarrow> VStr key \<notin> set (claims_of (tx_record tx)))"
proof -
  have strings: "list_all is_string (claims_of (tx_record tx))" and obj: "is_plain_object (tx_record tx)"
    using assms(1) by (simp_all add: claims_ok_def)
  with assms show ?thesis by (auto simp: tx_claim_def tx_le_def split: if_splits)
qed

lemma putCheckpoint_le:
  assumes "claims_ok r" and "putCheckpoint r cp = Inr r'"
  shows "claims_ok r' \<and> claims_of r' = claims_of r \<and> stored_epoch r \<le> stored_epoch r' \<and>
    get_prop r' ''scope'' = get_prop r ''scope''"
proof -
  have obj: "is_plain_object r" using assms(1) by (simp add: claims_ok_def)
  from assms(2) have cp: "checkpointValid cp" "checkpoint_forward (get_prop r ''checkpoint'') cp"
    and r': "r' = set_prop r ''checkpoint'' cp" by (auto simp: putCheckpoint_def)
  from cp(1) have "cp \<noteq> VUndefined" "truthy cp" "is_safe_num (get_prop cp ''epoch'')" "0 \<le> num_of (get_prop cp ''epoch'')"
    by (auto simp: checkpointValid_def)
  with obj assms(1) cp(2) show ?thesis
    unfolding r' by (auto simp: claims_ok_def stored_epoch_def checkpoint_forward_def)
qed

lemma tx_write_le: "claims_ok (tx_record tx) \<Longrightarrow> tx_write sc cand cp tx = Inr tx' \<Longrightarrow> tx_le tx tx'"
  using putCheckpoint_le [of "tx_record tx" cp] by (auto simp: tx_write_def tx_le_def)

lemma tx_writeState_le: "claims_ok (tx_record tx) \<Longrightarrow> tx_writeState sc cand st tx = Inr tx' \<Longrightarrow> tx_le tx tx'"
proof -
  assume ok: "claims_ok (tx_record tx)" and "tx_writeState sc cand st tx = Inr tx'"
  then obtain r where r: "putCheckpoint (tx_record tx) (get_prop st ''checkpoint'') = Inr r"
    and tx': "tx' = tx\<lparr>tx_record := set_prop r ''state'' (json_image st)\<rparr>"
    by (auto simp: tx_writeState_def)
  from putCheckpoint_le [OF ok r] show ?thesis
    unfolding tx_le_def tx' by (auto simp: claims_ok_def [of r])
qed

lemma applicationUpdates_type:
  "applicationUpdates sha s sc r = Inr us \<Longrightarrow> u \<in> set us \<Longrightarrow> fst (update_key u) \<noteq> ''sync-runtime''"
  by (auto simp: applicationUpdates_def Let_def conversation_updates_def contact_updates_def settings_updates_def
      device_updates_def update_of_def RECORD_TYPE_def HIGHWATER_RECORD_TYPE_def split: if_splits option.splits)

lemma all_updates_type: "all_updates sha s sc rs = Inr us \<Longrightarrow> u \<in> set us \<Longrightarrow> fst (update_key u) \<noteq> ''sync-runtime''"
  by (induction rs arbitrary: us) (auto dest: applicationUpdates_type)

lemma tx_importRecords_le:
  "claims_ok (tx_record tx) \<Longrightarrow> tx_importRecords sha s sc cand cp rs tx = Inr tx' \<Longrightarrow> tx_le tx tx'"
  by (auto simp: tx_importRecords_def Let_def tx_le_def claims_ok_def [of "tx_record tx"] dest: all_updates_type)

definition answers_ok :: "sync_tx \<Rightarrow> sync_tx \<Rightarrow> (string \<times> bool) list \<Rightarrow> bool" where
  "answers_ok tx tx' as \<longleftrightarrow> (\<forall>(k, b) \<in> set as. VStr k \<in> set (claims_of (tx_record tx')) \<and>
     (b \<longrightarrow> VStr k \<notin> set (claims_of (tx_record tx))))"

lemma run_op_le:
  assumes ok: "claims_ok (tx_record tx)" and run: "run_op sha s sc x tx = Inr (tx', as)"
  shows "tx_le tx tx' \<and> answers_ok tx tx' as"
proof (cases x)
  case (Claim_key cand key)
  with run obtain b where "tx_claim sc cand key tx = Inr (tx', b)" "as = [(key, b)]" by auto
  with tx_claim_le [OF ok] show ?thesis by (auto simp: answers_ok_def)
qed (use ok run in \<open>auto simp: answers_ok_def dest: tx_write_le tx_writeState_le tx_importRecords_le\<close>)

lemma run_ops_le:
  "claims_ok (tx_record tx) \<Longrightarrow> run_ops sha s sc xs tx = Inr (tx', as) \<Longrightarrow> tx_le tx tx' \<and> answers_ok tx tx' as"
proof (induction xs arbitrary: tx as)
  case Nil
  then show ?case by (simp add: tx_le_refl answers_ok_def)
next
  case (Cons x xs)
  from Cons.prems(2) obtain tx1 as1 as2 where x: "run_op sha s sc x tx = Inr (tx1, as1)"
    and xs: "run_ops sha s sc xs tx1 = Inr (tx', as2)" and as: "as = as1 @ as2" by auto
  from run_op_le [OF Cons.prems(1) x] have le1: "tx_le tx tx1" and a1: "answers_ok tx tx1 as1" by auto
  moreover from le1 have "claims_ok (tx_record tx1)" by (simp add: tx_le_def)
  with Cons.IH xs have "tx_le tx1 tx'" "answers_ok tx1 tx' as2" by auto
  moreover from this le1 a1 have "answers_ok tx tx' as" unfolding as answers_ok_def tx_le_def by auto
  ultimately show ?case using tx_le_trans by blast
qed

section \<open>The store over runs\<close>

definition cell_record :: "store \<Rightarrow> string \<Rightarrow> jsval" where
  "cell_record s i = (case read_cell s ''sync-runtime'' i of Some (JsonText v) \<Rightarrow> v | _ \<Rightarrow> VUndefined)"

definition sync_store_ok :: "store \<Rightarrow> bool" where
  "sync_store_ok s \<longleftrightarrow> (\<forall>i v. read_cell s ''sync-runtime'' i = Some (JsonText v) \<longrightarrow> json_ok v)"

definition sync_grows :: "store \<Rightarrow> store \<Rightarrow> bool" where
  "sync_grows s s' \<longleftrightarrow> (\<forall>i. set (claims_of (cell_record s i)) \<subseteq> set (claims_of (cell_record s' i)) \<and>
     stored_epoch (cell_record s i) \<le> stored_epoch (cell_record s' i))"

lemma json_ok_undefined: "json_ok v \<Longrightarrow> get_prop v k = VUndefined \<Longrightarrow> k \<notin> fst ` set (object_props v)"
proof (cases v)
  case (VObj ps)
  assume ok: "json_ok v" and undef: "get_prop v k = VUndefined"
  have "map_of ps k \<noteq> Some VUndefined"
    using ok map_of_SomeD [of ps k VUndefined] by (force simp: VObj list_all_iff)
  with undef have "map_of ps k = None" by (auto simp: VObj split: option.splits)
  then show ?thesis by (simp add: VObj map_of_eq_None_iff)
qed simp_all

lemma load_ok:
  assumes "load sha s sc = Inr (i, raw, r)" and "sync_store_ok s"
  shows "canonicalIdentityRecordId sha sc = Inr i" "raw = read_cell s ''sync-runtime'' i" "claims_ok r"
    "set (claims_of (cell_record s i)) = set (claims_of r)" "stored_epoch (cell_record s i) = stored_epoch r"
proof -
  from assms(1) have i: "canonicalIdentityRecordId sha sc = Inr i" by (auto simp: load_def split: option.splits)
  then show "canonicalIdentityRecordId sha sc = Inr i" .
  have "raw = read_cell s ''sync-runtime'' i \<and> (raw = None \<and> r = fresh_record sc \<or>
      (raw = Some (JsonText r) \<and> record_shape sc r))"
  proof (cases "read_cell s ''sync-runtime'' i")
    case None
    with assms(1) i show ?thesis by (simp add: load_def)
  next
    case (Some c)
    with assms(1) i show ?thesis by (cases c) (auto simp: load_def)
  qed
  then show "raw = read_cell s ''sync-runtime'' i" "claims_ok r"
    "set (claims_of (cell_record s i)) = set (claims_of r)" "stored_epoch (cell_record s i) = stored_epoch r"
    using assms(2) json_ok_undefined [of r "''checkpoint''"] get_prop_obj [of r "''version''"]
    by (auto simp: claims_ok_def fresh_record_def claims_of_def stored_epoch_def cell_record_def record_shape_def
        checkpointValid_def sync_store_ok_def list_all_iff)
qed

lemma cells_cas_other:
  "k \<notin> update_key ` set us \<Longrightarrow> foldl (\<lambda>m u. m(update_key u := Some (next_cell u))) m us k = m k"
  by (induction us arbitrary: m) auto

text \<open>A transaction that throws changes nothing; one that returns replaced its own record.\<close>

lemma transaction_effect:
  assumes "transaction sha s sc e body = (s', res)"
  shows "(\<exists>m. res = Inl m) \<and> s' = s \<or>
    (\<exists>i raw r tx x. load sha s sc = Inr (i, raw, r) \<and> same (get_prop r ''checkpoint'') e \<and>
       body \<lparr>tx_record = r, tx_updates = []\<rparr> = Inr (tx, x) \<and> res = Inr x \<and>
       s' = s\<lparr>cells := foldl (\<lambda>m u. m(update_key u := Some (next_cell u))) (cells s)
         (\<lparr>update_key = (''sync-runtime'', i), expected = raw, next_cell = JsonText (json_image
            (set_prop (tx_record tx) ''revision'' (VInt (num_of (get_prop (tx_record tx) ''revision'') + 1))))\<rparr> # tx_updates tx)\<rparr>)"
proof (cases "snd (transaction sha s sc e body)")
  case (Inl m)
  with assms show ?thesis
    by (auto simp: transaction_def compareAndSwapRecords_def Let_def split: sum.splits if_splits prod.splits)
next
  case (Inr x)
  with assms show ?thesis
    by (auto simp: transaction_def compareAndSwapRecords_def Let_def simp del: foldl_Cons split: sum.splits if_splits prod.splits)
qed

lemma sync_record_written:
  assumes "\<forall>u \<in> set us. fst (update_key u) \<noteq> ''sync-runtime''"
    and "s' = s\<lparr>cells := foldl (\<lambda>m u. m(update_key u := Some (next_cell u))) (cells s)
         (\<lparr>update_key = (''sync-runtime'', i), expected = raw, next_cell = c\<rparr> # us)\<rparr>"
  shows "read_cell s' ''sync-runtime'' j = (if j = i then Some c else read_cell s ''sync-runtime'' j)"
proof -
  have "(''sync-runtime'', j) \<notin> update_key ` set us" using assms(1) by (auto simp: image_iff) (metis fst_conv)
  from cells_cas_other [OF this] show ?thesis unfolding assms(2) read_cell_def by simp
qed

lemma json_image_record:
  assumes "claims_ok r"
  shows "claims_of (json_image r) = claims_of r" "stored_epoch (json_image r) = stored_epoch r"
proof -
  have "json_image (get_prop r ''claims'') = get_prop r ''claims''" "get_prop r ''claims'' \<noteq> VUndefined"
  proof -
    from assms obtain vs where vs: "get_prop r ''claims'' = VArr vs" "list_all is_string vs"
      by (cases "get_prop r ''claims''") (auto simp: claims_ok_def claims_of_def)
    then have "map json_image vs = vs"
      by (intro map_idI) (auto simp: list_all_iff elim!: is_string.elims)
    then show "json_image (get_prop r ''claims'') = get_prop r ''claims''" "get_prop r ''claims'' \<noteq> VUndefined"
      using vs by simp_all
  qed
  then show "claims_of (json_image r) = claims_of r" by (simp add: claims_of_def get_json_image)
  let ?c = "get_prop r ''checkpoint''"
  show "stored_epoch (json_image r) = stored_epoch r"
  proof (cases "?c = VUndefined")
    case True
    with assms have "''checkpoint'' \<notin> fst ` set (object_props r)" by (simp add: claims_ok_def)
    then have "get_prop (json_image r) ''checkpoint'' = VUndefined"
      by (cases r rule: json_image.cases) (auto simp: map_of_eq_None_iff image_iff split: option.splits dest!: map_of_SomeD)
    with True show ?thesis by (simp add: stored_epoch_def)
  next
    case defined: False
    show ?thesis
    proof (cases "truthy ?c")
      case True
      with assms have "is_safe_num (get_prop ?c ''epoch'')" by (simp add: claims_ok_def)
      then obtain n where n: "get_prop ?c ''epoch'' = VNum (Whole n)"
        by (cases "get_prop ?c ''epoch''" rule: json_image.cases) auto
      then obtain ps where ps: "?c = VObj ps" using get_prop_obj [of ?c "''epoch''"] by auto
      have "get_prop (json_image ?c) ''epoch'' = VNum (Whole n)" using n by (simp add: get_json_image)
      with n ps defined show ?thesis by (simp add: stored_epoch_def get_json_image)
    next
      case False
      then have "json_image ?c = ?c" using defined by (cases ?c rule: truthy.cases) auto
      with False defined show ?thesis by (simp add: stored_epoch_def get_json_image)
    qed
  qed
qed

lemma committed_call:
  assumes ok: "sync_store_ok s" and run: "sync_step sha s c = (s', Inr as)"
  obtains i raw r tx where "load sha s (call_scope c) = Inr (i, raw, r)" "canonicalIdentityRecordId sha (call_scope c) = Inr i"
    "tx_le \<lparr>tx_record = r, tx_updates = []\<rparr> tx" "answers_ok \<lparr>tx_record = r, tx_updates = []\<rparr> tx as"
    "claims_of (cell_record s' i) = claims_of (tx_record tx)" "stored_epoch (cell_record s' i) = stored_epoch (tx_record tx)"
    "\<And>j. j \<noteq> i \<Longrightarrow> cell_record s' j = cell_record s j" "sync_store_ok s'"
proof -
  from transaction_effect [OF run [unfolded sync_step_def]] obtain i raw r tx where
    load: "load sha s (call_scope c) = Inr (i, raw, r)" and
    body: "run_ops sha s (call_scope c) (call_ops c) \<lparr>tx_record = r, tx_updates = []\<rparr> = Inr (tx, as)" and
    s': "s' = s\<lparr>cells := foldl (\<lambda>m u. m(update_key u := Some (next_cell u))) (cells s)
         (\<lparr>update_key = (''sync-runtime'', i), expected = raw, next_cell = JsonText (json_image
            (set_prop (tx_record tx) ''revision'' (VInt (num_of (get_prop (tx_record tx) ''revision'') + 1))))\<rparr> # tx_updates tx)\<rparr>"
    by auto
  note loaded = load_ok [OF load ok]
  from run_ops_le [OF _ body] loaded(3) have le: "tx_le \<lparr>tx_record = r, tx_updates = []\<rparr> tx"
    and ans: "answers_ok \<lparr>tx_record = r, tx_updates = []\<rparr> tx as" by auto
  let ?new = "set_prop (tx_record tx) ''revision'' (VInt (num_of (get_prop (tx_record tx) ''revision'') + 1))"
  from le have tx: "claims_ok (tx_record tx)" "is_plain_object (tx_record tx)" by (simp_all add: tx_le_def claims_ok_def)
  have cell: "read_cell s' ''sync-runtime'' j = (if j = i then Some (JsonText (json_image ?new)) else read_cell s ''sync-runtime'' j)" for j
    by (rule sync_record_written [OF _ s']) (use le in \<open>simp add: tx_le_def\<close>)
  have new: "claims_of (cell_record s' i) = claims_of (tx_record tx)" "stored_epoch (cell_record s' i) = stored_epoch (tx_record tx)"
    using json_image_record [OF claims_ok_set [OF _ _ tx(1), of "''revision''"]] tx(2) by (simp_all add: cell_record_def cell)
  have other: "j \<noteq> i \<Longrightarrow> cell_record s' j = cell_record s j" for j by (simp add: cell_record_def cell)
  have "sync_store_ok s'" using ok by (auto simp: sync_store_ok_def cell json_image_ok split: if_splits)
  from that [OF load loaded(1) le ans new other this] show thesis .
qed

lemma failed_call: "sync_step sha s c = (s', Inl m) \<Longrightarrow> s' = s"
  using transaction_effect [of sha s "call_scope c" "call_expected c" "run_ops sha s (call_scope c) (call_ops c)"]
  by (auto simp: sync_step_def)

lemma sync_step_grows: "sync_store_ok s \<Longrightarrow> sync_store_ok (fst (sync_step sha s c)) \<and> sync_grows s (fst (sync_step sha s c))"
proof -
  assume ok: "sync_store_ok s"
  obtain s' res where step: "sync_step sha s c = (s', res)" by (rule prod.exhaust)
  show ?thesis
  proof (cases res)
    case (Inl m)
    with step have "s' = s" using failed_call by simp
    with step ok show ?thesis by (simp add: sync_grows_def)
  next
    case (Inr as)
    with step have "sync_step sha s c = (s', Inr as)" by simp
    from committed_call [OF ok this] obtain i raw r tx where load: "load sha s (call_scope c) = Inr (i, raw, r)"
      and le: "tx_le \<lparr>tx_record = r, tx_updates = []\<rparr> tx"
      and new: "claims_of (cell_record s' i) = claims_of (tx_record tx)" "stored_epoch (cell_record s' i) = stored_epoch (tx_record tx)"
      and other: "\<And>j. j \<noteq> i \<Longrightarrow> cell_record s' j = cell_record s j" and ok': "sync_store_ok s'" by metis
    have "set (claims_of (cell_record s j)) \<subseteq> set (claims_of (cell_record s' j)) \<and>
        stored_epoch (cell_record s j) \<le> stored_epoch (cell_record s' j)" for j
      using le new other [of j] load_ok(4,5) [OF load ok] by (cases "j = i") (auto simp: tx_le_def)
    with step ok' show ?thesis by (simp add: sync_grows_def)
  qed
qed

interpretation sync: monotone_machine "sync_step sha" sync_store_ok sync_grows for sha
  by unfold_locales (auto simp: sync_step_grows, auto simp: sync_grows_def intro: order_trans subset_trans)

lemma claimed_answer:
  assumes "sync_store_ok s" "sync_step sha s c = (s', Inr as)" "(k, b) \<in> set as"
    "canonicalIdentityRecordId sha (call_scope c) = Inr i"
  shows "VStr k \<in> set (claims_of (cell_record s' i)) \<and> (b \<longrightarrow> VStr k \<notin> set (claims_of (cell_record s i)))"
proof -
  from committed_call [OF assms(1,2)] obtain i' raw r tx where load: "load sha s (call_scope c) = Inr (i', raw, r)"
    and i': "canonicalIdentityRecordId sha (call_scope c) = Inr i'" and ans: "answers_ok \<lparr>tx_record = r, tx_updates = []\<rparr> tx as"
    and new: "claims_of (cell_record s' i') = claims_of (tx_record tx)" by metis
  with assms(4) have "i' = i" by simp
  with ans new load_ok(4) [OF load assms(1)] assms(3) show ?thesis by (auto simp: answers_ok_def)
qed

text \<open>
  C20. Replay claims and checkpoints of the synchronisation store. Once a
  transaction that claimed a key has committed, no later committed transaction
  of the same scope is granted that key, whatever transactions run in between;
  and the checkpoint's epoch never decreases. A transaction that throws leaves
  the whole store as it was.
\<close>
theorem replay_claims_granted_once:
  assumes "sync_store_ok s" and "canonicalIdentityRecordId sha sc = Inr i"
    and "sync_step sha s first = (s1, Inr as)" "call_scope first = sc" "(k, b) \<in> set as"
    and "s2 = final (sync_step sha) s1 es"
  shows "(sync_step sha s2 later = (s3, Inr bs) \<longrightarrow> call_scope later = sc \<longrightarrow> (k, True) \<notin> set bs) \<and>
    stored_epoch (cell_record s j) \<le> stored_epoch (cell_record s2 j) \<and>
    (sync_step sha s2 failing = (s4, Inl m) \<longrightarrow> s4 = s2)"
proof -
  have ok1: "sync_store_ok s1" and g1: "sync_grows s s1" using sync_step_grows [OF assms(1), of sha first] assms(3) by simp_all
  have ok2: "sync_store_ok s2" using sync.run_inv [OF ok1] assms(6) by simp
  have g2: "sync_grows s1 s2" using sync.run_grows [OF ok1] assms(6) by simp
  have "VStr k \<in> set (claims_of (cell_record s2 i))"
    using claimed_answer [OF assms(1,3,5)] assms(2,4) g2 by (auto simp: sync_grows_def)
  then have "(k, True) \<notin> set bs" if "sync_step sha s2 later = (s3, Inr bs)" "call_scope later = sc"
    using claimed_answer [OF ok2 that(1), of k True i] assms(2) that(2) by auto
  moreover have "stored_epoch (cell_record s j) \<le> stored_epoch (cell_record s2 j)"
    using g1 g2 by (meson sync_grows_def order_trans)
  moreover have "s4 = s2" if "sync_step sha s2 failing = (s4, Inl m)" using failed_call [OF that] .
  ultimately show ?thesis by blast
qed

text \<open>A first claim on an empty store, and the same key again.\<close>

definition claim_call :: sync_call where
  "claim_call = \<lparr>call_scope = ''acct'', call_expected = VUndefined, call_ops = [Claim_key ''acct'' ''desk:tablet:stream:1'']\<rparr>"

lemma claim_call_runs:
  "\<exists>s1. sync_step zero_hash fresh_store claim_call = (s1, Inr [(''desk:tablet:stream:1'', True)])"
proof -
  have "load zero_hash fresh_store ''acct'' = Inr (''acct'', None, fresh_record ''acct'')"
    by (simp add: load_def acct_id fresh_store_def read_cell_def)
  then show ?thesis
    by (simp add: sync_step_def claim_call_def transaction_def fresh_record_def same_def strict_eq_def tx_claim_def
        requireScope_def claims_of_def put_def MAX_SAFE_INTEGER_def compareAndSwapRecords_def fresh_store_def read_cell_def Let_def)
qed

theorem replay_claims_granted_once_witness:
  "\<exists>s1. sync_step zero_hash fresh_store claim_call = (s1, Inr [(''desk:tablet:stream:1'', True)]) \<and>
     stored_epoch (cell_record fresh_store ''acct'') \<le> stored_epoch (cell_record (final (sync_step zero_hash) s1 [claim_call]) ''acct'')"
proof -
  obtain s1 where first: "sync_step zero_hash fresh_store claim_call = (s1, Inr [(''desk:tablet:stream:1'', True)])"
    using claim_call_runs by blast
  have "sync_store_ok fresh_store" by (simp add: sync_store_ok_def fresh_store_def read_cell_def)
  from replay_claims_granted_once [where j = "''acct''" and es = "[claim_call]" and k = "''desk:tablet:stream:1''" and b = True,
      OF this acct_id first _ _ refl]
  have "stored_epoch (cell_record fresh_store ''acct'') \<le> stored_epoch (cell_record (final (sync_step zero_hash) s1 [claim_call]) ''acct'')"
    by (simp add: claim_call_def)
  with first show ?thesis by blast
qed

section \<open>Contacts\<close>

definition contact_cell :: "store \<Rightarrow> string \<Rightarrow> jsval" where
  "contact_cell s i = (case read_cell s ''contact-identity'' i of Some (JsonText v) \<Rightarrow> v | _ \<Rightarrow> VUndefined)"

text \<open>The identity a stored contact was checked for.\<close>

definition checked_identity :: "store \<Rightarrow> string \<Rightarrow> jsval option" where
  "checked_identity s i = (if get_prop (contact_cell s i) ''verification'' = VStr ''verified''
     then Some (get_prop (contact_cell s i) ''identityId'') else None)"

definition change_pending :: "store \<Rightarrow> string \<Rightarrow> bool" where
  "change_pending s i \<longleftrightarrow> truthy (contact_cell s i) \<and> get_prop (contact_cell s i) ''changeStatus'' \<noteq> VStr ''unchanged''"

definition contact_update_ok :: "store \<Rightarrow> record_update \<Rightarrow> bool" where
  "contact_update_ok s u \<longleftrightarrow> (fst (update_key u) = ''contact-identity'' \<longrightarrow>
     (\<exists>current p. current_contact (read_cell s ''contact-identity'' (snd (update_key u))) = Some current \<and>
        (\<exists>t. get_prop p ''identityId'' = VStr t) \<and>
        (truthy current \<longrightarrow> get_prop current ''identityId'' = get_prop p ''identityId'' \<and>
           get_prop current ''changeStatus'' = VStr ''unchanged'') \<and>
        next_cell u = JsonText (json_image (next_contact current p))))"

lemma validate_each_ok: "validate_each sc cp seen rs = Inr () \<Longrightarrow> r \<in> set rs \<Longrightarrow> validateSyncRecord r cp = Inr ()"
  by (induction rs arbitrary: seen) auto

lemma valid_contact:
  "validateSyncRecord r cp = Inr () \<Longrightarrow> get_prop r ''kind'' = VStr ''contact'' \<Longrightarrow>
   \<exists>t. get_prop (get_prop r ''payload'') ''identityId'' = VStr t"
  by (auto simp: validateSyncRecord_def validatePayload_def contact_ok_def requiredString_def elim!: is_string.elims)

lemma applicationUpdates_contact:
  assumes "applicationUpdates sha s sc r = Inr us" "validateSyncRecord r cp = Inr ()" "u \<in> set us"
  shows "contact_update_ok s u"
proof (cases "get_prop r ''kind'' = VStr ''contact''")
  case True
  with assms(1,3) have "u \<in> set (contact_updates s (get_prop r ''payload''))" by (simp add: applicationUpdates_def Let_def)
  then obtain current where current: "current_contact (read_cell s ''contact-identity''
        (str_of (get_prop (get_prop r ''payload'') ''contactId''))) = Some current"
      "truthy current \<longrightarrow> get_prop current ''identityId'' = get_prop (get_prop r ''payload'') ''identityId'' \<and>
        get_prop current ''changeStatus'' = VStr ''unchanged''"
    and u: "u = update_of s ''contact-identity'' (str_of (get_prop (get_prop r ''payload'') ''contactId''))
        (next_contact current (get_prop r ''payload''))"
    by (cases "current_contact (read_cell s ''contact-identity'' (str_of (get_prop (get_prop r ''payload'') ''contactId'')))")
      (auto simp: contact_updates_def Let_def strict_eq_def split: if_splits)
  have "update_key u = (''contact-identity'', str_of (get_prop (get_prop r ''payload'') ''contactId''))"
    "next_cell u = JsonText (json_image (next_contact current (get_prop r ''payload'')))"
    by (simp_all add: u update_of_def)
  with current valid_contact [OF assms(2) True] show ?thesis unfolding contact_update_ok_def by auto
next
  case False
  with assms(1,3) show ?thesis
    by (auto simp: contact_update_ok_def applicationUpdates_def Let_def conversation_updates_def settings_updates_def
        device_updates_def update_of_def RECORD_TYPE_def HIGHWATER_RECORD_TYPE_def split: if_splits)
qed

lemma all_updates_contact:
  "all_updates sha s sc rs = Inr us \<Longrightarrow> \<forall>r \<in> set rs. validateSyncRecord r cp = Inr () \<Longrightarrow> u \<in> set us \<Longrightarrow> contact_update_ok s u"
  by (induction rs arbitrary: us) (auto dest: applicationUpdates_contact)

lemma run_op_contact:
  assumes "run_op sha s sc x tx = Inr (tx', as)" "\<forall>u \<in> set (tx_updates tx). contact_update_ok s u"
  shows "\<forall>u \<in> set (tx_updates tx'). contact_update_ok s u"
proof (cases x)
  case (Import_records cand cp rs)
  with assms(1) have "validate_each sc cp [] rs = Inr ()" by (auto simp: tx_importRecords_def validateSyncRecords_def)
  then have valid: "\<forall>r \<in> set rs. validateSyncRecord r cp = Inr ()" using validate_each_ok by blast
  from assms(1) Import_records obtain us where "all_updates sha s sc rs = Inr us" "tx_updates tx' = tx_updates tx @ us"
    by (auto simp: tx_importRecords_def Let_def)
  with all_updates_contact [OF _ valid] assms(2) show ?thesis by auto
qed (use assms in \<open>auto simp: tx_claim_def tx_write_def tx_writeState_def split: if_splits\<close>)

lemma run_ops_contact:
  "run_ops sha s sc xs tx = Inr (tx', as) \<Longrightarrow> \<forall>u \<in> set (tx_updates tx). contact_update_ok s u \<Longrightarrow>
   \<forall>u \<in> set (tx_updates tx'). contact_update_ok s u"
proof (induction xs arbitrary: tx as)
  case (Cons x xs)
  from Cons.prems(1) obtain tx1 as1 as2 where "run_op sha s sc x tx = Inr (tx1, as1)"
    and "run_ops sha s sc xs tx1 = Inr (tx', as2)" by auto
  with Cons.IH run_op_contact Cons.prems(2) show ?case by blast
qed simp

lemma cas_cell:
  "foldl (\<lambda>m u. m(update_key u := Some (next_cell u))) m us k = m k \<or>
   (\<exists>u \<in> set us. update_key u = k \<and> foldl (\<lambda>m u. m(update_key u := Some (next_cell u))) m us k = Some (next_cell u))"
  by (induction us rule: rev_induct) auto

lemma next_contact_fields:
  "get_prop (next_contact current p) ''verification'' = VStr (if get_prop current ''verification'' = VStr ''verified'' \<and>
     get_prop p ''verification'' = VStr ''verified'' then ''verified'' else ''unverified'')"
  "get_prop (next_contact current p) ''identityId'' = get_prop p ''identityId''"
proof -
  have kept: "map_of (filter (\<lambda>q. fst q \<noteq> ''verifiedAt'') qs) k = map_of qs k" if "k \<noteq> ''verifiedAt''" for qs :: "(string \<times> jsval) list" and k
    using that by (induction qs) auto
  show "get_prop (next_contact current p) ''verification'' = VStr (if get_prop current ''verification'' = VStr ''verified'' \<and>
     get_prop p ''verification'' = VStr ''verified'' then ''verified'' else ''unverified'')"
    "get_prop (next_contact current p) ''identityId'' = get_prop p ''identityId''"
    by (simp_all add: next_contact_def Let_def kept)
qed

lemma contact_written:
  assumes ok: "contact_update_ok s u" and u: "update_key u = (''contact-identity'', i)"
    and cell: "read_cell s' ''contact-identity'' i = Some (next_cell u)"
  shows "(checked_identity s' i = Some v \<longrightarrow> checked_identity s i = Some v) \<and> \<not> change_pending s i"
proof -
  from ok have "\<exists>current p. current_contact (read_cell s ''contact-identity'' i) = Some current \<and>
      (\<exists>t. get_prop p ''identityId'' = VStr t) \<and>
      (truthy current \<longrightarrow> get_prop current ''identityId'' = get_prop p ''identityId'' \<and> get_prop current ''changeStatus'' = VStr ''unchanged'') \<and>
      next_cell u = JsonText (json_image (next_contact current p))"
    unfolding contact_update_ok_def u by simp
  then obtain current p t where
    current: "current_contact (read_cell s ''contact-identity'' i) = Some current"
    "truthy current \<longrightarrow> get_prop current ''identityId'' = get_prop p ''identityId'' \<and> get_prop current ''changeStatus'' = VStr ''unchanged''"
    and p: "get_prop p ''identityId'' = VStr t" and n: "next_cell u = JsonText (json_image (next_contact current p))"
    by blast
  have same: "contact_cell s i = current"
    using current(1) by (cases "read_cell s ''contact-identity'' i" rule: current_contact.cases) (auto simp: contact_cell_def)
  have new: "contact_cell s' i = json_image (next_contact current p)" using cell n by (simp add: contact_cell_def)
  have fields: "get_prop (contact_cell s' i) ''verification'' = get_prop (next_contact current p) ''verification''"
    "get_prop (contact_cell s' i) ''identityId'' = VStr t"
    unfolding new using p by (simp_all add: get_json_image next_contact_fields)
  have "truthy current" if "get_prop current ''verification'' = VStr ''verified''"
    using that get_prop_obj [of current "''verification''"] by auto
  then show ?thesis using fields current(2) p
    by (auto simp: checked_identity_def change_pending_def same next_contact_fields split: if_splits)
qed

definition contact_le :: "store \<Rightarrow> store \<Rightarrow> bool" where
  "contact_le s s' \<longleftrightarrow> (\<forall>i v. checked_identity s' i = Some v \<longrightarrow> checked_identity s i = Some v) \<and>
     (\<forall>i. change_pending s i \<longrightarrow> read_cell s' ''contact-identity'' i = read_cell s ''contact-identity'' i)"

lemma sync_step_contact: "contact_le s (fst (sync_step sha s c))"
proof -
  obtain s' res where step: "sync_step sha s c = (s', res)" by (rule prod.exhaust)
  from transaction_effect [OF step [unfolded sync_step_def]] consider "s' = s" |
    i raw r tx as where "run_ops sha s (call_scope c) (call_ops c) \<lparr>tx_record = r, tx_updates = []\<rparr> = Inr (tx, as)"
      "s' = s\<lparr>cells := foldl (\<lambda>m u. m(update_key u := Some (next_cell u))) (cells s)
         (\<lparr>update_key = (''sync-runtime'', i), expected = raw, next_cell = JsonText (json_image
            (set_prop (tx_record tx) ''revision'' (VInt (num_of (get_prop (tx_record tx) ''revision'') + 1))))\<rparr> # tx_updates tx)\<rparr>"
    by blast
  then show ?thesis
  proof cases
    case 1
    with step show ?thesis by (simp add: contact_le_def)
  next
    case 2
    from run_ops_contact [OF 2(1)] have good: "\<forall>u \<in> set (tx_updates tx). contact_update_ok s u" by simp
    have cell: "read_cell s' ''contact-identity'' j = read_cell s ''contact-identity'' j \<or>
        (\<exists>u \<in> set (tx_updates tx). update_key u = (''contact-identity'', j) \<and> read_cell s' ''contact-identity'' j = Some (next_cell u))" for j
      using cas_cell [of "(cells s)((''sync-runtime'', i) := Some (JsonText (json_image
            (set_prop (tx_record tx) ''revision'' (VInt (num_of (get_prop (tx_record tx) ''revision'') + 1))))))"
          "tx_updates tx" "(''contact-identity'', j)"]
      unfolding 2(2) read_cell_def by simp
    have "(checked_identity s' j = Some v \<longrightarrow> checked_identity s j = Some v) \<and>
        (change_pending s j \<longrightarrow> read_cell s' ''contact-identity'' j = read_cell s ''contact-identity'' j)" for j v
      using cell [of j]
    proof
      assume "read_cell s' ''contact-identity'' j = read_cell s ''contact-identity'' j"
      then show ?thesis by (simp add: checked_identity_def contact_cell_def)
    next
      assume "\<exists>u \<in> set (tx_updates tx). update_key u = (''contact-identity'', j) \<and> read_cell s' ''contact-identity'' j = Some (next_cell u)"
      with good contact_written show ?thesis by blast
    qed
    with step show ?thesis by (simp add: contact_le_def)
  qed
qed

lemma contact_le_run: "contact_le s (final (sync_step sha) s cs)"
proof (induction cs arbitrary: s)
  case Nil
  then show ?case by (simp add: contact_le_def)
next
  case (Cons c cs)
  have "contact_le s (fst (sync_step sha s c))" "contact_le (fst (sync_step sha s c)) (final (sync_step sha) (fst (sync_step sha s c)) cs)"
    by (rule sync_step_contact) (rule Cons.IH)
  moreover from this(1) have "change_pending s i \<longrightarrow> change_pending (fst (sync_step sha s c)) i" for i
    by (auto simp: contact_le_def change_pending_def contact_cell_def)
  ultimately show ?case by (auto simp: contact_le_def)
qed

text \<open>
  C22. Synchronisation never raises the trust in a contact. After any run of
  transactions, a contact that counts as checked for an identity was already
  checked for that identity before the run, and a contact whose identity change
  is pending review is untouched.
\<close>
theorem sync_never_raises_contact_trust:
  "(checked_identity (final (sync_step sha) s cs) i = Some v \<longrightarrow> checked_identity s i = Some v) \<and>
   (change_pending s i \<longrightarrow> read_cell (final (sync_step sha) s cs) ''contact-identity'' i = read_cell s ''contact-identity'' i)"
  using contact_le_run [of s sha cs] by (auto simp: contact_le_def)

theorem sync_never_raises_contact_trust_witness:
  "\<exists>s v. change_pending s ''bob'' \<and> read_cell s ''contact-identity'' ''bob'' = Some v \<and>
     read_cell (final (sync_step zero_hash) s [claim_call]) ''contact-identity'' ''bob'' = Some v"
proof -
  define s where "s = write_cell fresh_store ''contact-identity'' ''bob'' (JsonText (VObj [(''changeStatus'', VStr ''changed-pending-review'')]))"
  have pending: "change_pending s ''bob''" by (simp add: s_def change_pending_def contact_cell_def)
  moreover have "\<exists>v. read_cell s ''contact-identity'' ''bob'' = Some v" by (simp add: s_def)
  ultimately show ?thesis using pending sync_never_raises_contact_trust [of zero_hash s "[claim_call]" "''bob''"] by metis
qed

section \<open>Imported device lists\<close>

definition device_import :: "string \<Rightarrow> jsval \<Rightarrow> device_list \<Rightarrow> string \<Rightarrow> jsval" where
  "device_import sc cp l c = VObj [(''version'', VInt 1), (''scope'', VStr sc), (''recordId'', VStr ''device0000000001''),
     (''kind'', VStr ''device''), (''epoch'', get_prop cp ''epoch''), (''commitment'', get_prop cp ''commitment''),
     (''payload'', VObj [(''state'', VObj [(''list'', list_value l), (''commitment'', VStr c)])])]"

lemma device_import_valid:
  assumes "identityReference l = sc" "sc \<noteq> []" "hex64 c" "get_prop cp ''epoch'' = VInt n" "get_prop cp ''commitment'' = VStr t" "hex64 t"
  shows "validateSyncRecords sc cp [device_import sc cp l c] = Inr ()"
proof -
  have "id_16_128 ''device0000000001''" by code_simp
  moreover have "length c = 64" "c \<noteq> []" using assms(3) by (auto simp: hex64_def)
  ultimately show ?thesis using assms
    by (simp add: validateSyncRecords_def device_import_def validateSyncRecord_def validatePayload_def device_record_ok_def
        member_def record_kinds_def strict_eq_def has_prop_def list_value_def requiredString_def Let_def)
qed

text \<open>
  C38. Importing a device record replaces both the lifecycle record and its
  high-water mark by whatever device list of the scope the record carries: the
  list's epoch is compared neither with the stored high-water mark nor with the
  checkpoint of the transfer. In particular an older list can be installed over
  a newer one, so the rollback guard of the lifecycle store is reset.
\<close>
theorem device_import_resets_highwater:
  assumes "canonicalIdentityRecordId sha sc = Inr i" "read_cell s ''sync-runtime'' i = None" "sc \<noteq> []"
    and "list_ok l" "identityReference l = sc" "deviceListCommitment sha (list_value l) = Inr c" "hex64 c"
    and "get_prop cp ''epoch'' = VInt n" "get_prop cp ''commitment'' = VStr t" "hex64 t"
  shows "\<exists>s'. sync_step sha s \<lparr>call_scope = sc, call_expected = VUndefined,
        call_ops = [Import_records sc cp [device_import sc cp l c]]\<rparr> = (s', Inr []) \<and>
      readHighwater sha s' sc = Inr (Some \<lparr>hw_epoch = epoch l, hw_commitment = c\<rparr>)"
proof -
  let ?r = "fresh_record sc" and ?rs = "[device_import sc cp l c]"
  have load: "load sha s sc = Inr (i, None, ?r)" using assms(1,2) by (simp add: load_def)
  let ?us = "[update_of s RECORD_TYPE i (record_value \<lparr>rec_state = \<lparr>snap_list = l, commitment = c\<rparr>, authorizations = [],
              highestEpoch = epoch l, commitmentHistory = [history_item (epoch l) c]\<rparr>),
            update_of s HIGHWATER_RECORD_TYPE i (highwater_value (epoch l) c)]"
  have ups: "all_updates sha s sc ?rs = Inr ?us"
    using assms createDeviceList_value_iff [of l]
    by (simp add: applicationUpdates_def Let_def device_import_def device_updates_def)
  have names: "distinct (map update_name ?us)"
    by (simp add: update_name_def update_of_def RECORD_TYPE_def HIGHWATER_RECORD_TYPE_def)
  let ?r' = "set_prop ?r ''records'' (VArr (map json_image ?rs))"
  have import: "tx_importRecords sha s sc sc cp ?rs \<lparr>tx_record = ?r, tx_updates = []\<rparr> = Inr \<lparr>tx_record = ?r', tx_updates = ?us\<rparr>"
    using device_import_valid [OF assms(5,3,7,8-10)] ups names
    by (simp add: tx_importRecords_def requireScope_def fresh_record_def Let_def del: list.map)
  have parsed: "parse_highwater (JsonText (json_image (highwater_value (epoch l) c))) = Inr \<lparr>hw_epoch = epoch l, hw_commitment = c\<rparr>"
    using assms(4) by (simp add: parse_highwater_def highwater_value_def list_ok_def time_ok_def member_def)
  show ?thesis
    unfolding sync_step_def transaction_def sync_call.simps run_ops.simps run_op.simps load
    using import assms(1,2) parsed
    by (simp add: same_def strict_eq_def fresh_record_def MAX_SAFE_INTEGER_def compareAndSwapRecords_def Let_def update_of_def
        readHighwater_def read_cell_def RECORD_TYPE_def HIGHWATER_RECORD_TYPE_def del: json_image.simps)
qed

theorem device_import_resets_highwater_witness:
  "\<exists>s s' call. readHighwater zero_hash s ''acct'' = Inr (Some \<lparr>hw_epoch = 5, hw_commitment = zeros\<rparr>) \<and>
     sync_step zero_hash s call = (s', Inr []) \<and>
     readHighwater zero_hash s' ''acct'' = Inr (Some \<lparr>hw_epoch = 0, hw_commitment = zeros\<rparr>)"
proof -
  define s where "s = write_cell fresh_store HIGHWATER_RECORD_TYPE ''acct'' (JsonText (highwater_value 5 zeros))"
  have before: "readHighwater zero_hash s ''acct'' = Inr (Some \<lparr>hw_epoch = 5, hw_commitment = zeros\<rparr>)"
    by (simp add: readHighwater_def acct_id s_def parse_highwater_def highwater_value_def member_def sample_times)
  have "read_cell s ''sync-runtime'' ''acct'' = None"
    by (simp add: s_def HIGHWATER_RECORD_TYPE_def fresh_store_def read_cell_def write_cell_def)
  from device_import_resets_highwater [OF acct_id this _ concrete_lists_ok(1) scope_identity(1) zero_commitment [OF concrete_lists_ok(1)]
      zeros_hex, of "checkpoint_value 5 zeros" 5 zeros]
  show ?thesis using before by (auto simp: checkpoint_value_def)
qed

section \<open>Records and the checkpoint\<close>

definition records_of :: "jsval \<Rightarrow> jsval list" where
  "records_of r = array_of (get_prop r ''records'')"

lemma run_op_records:
  assumes "is_plain_object (tx_record tx)" "run_op sha s sc x tx = Inr (tx', as)"
  shows "is_plain_object (tx_record tx') \<and> (\<exists>ys. records_of (tx_record tx') = records_of (tx_record tx) @ ys)"
  using assms
  by (cases x) (auto simp: tx_claim_def tx_write_def tx_writeState_def tx_importRecords_def putCheckpoint_def records_of_def
      Let_def split: if_splits)

lemma run_ops_records:
  "is_plain_object (tx_record tx) \<Longrightarrow> run_ops sha s sc xs tx = Inr (tx', as) \<Longrightarrow>
   \<exists>ys. records_of (tx_record tx') = records_of (tx_record tx) @ ys"
proof (induction xs arbitrary: tx as)
  case (Cons x xs)
  from Cons.prems(2) obtain tx1 as1 as2 where x: "run_op sha s sc x tx = Inr (tx1, as1)"
    and xs: "run_ops sha s sc xs tx1 = Inr (tx', as2)" by auto
  from run_op_records [OF Cons.prems(1) x] Cons.IH [OF _ xs] show ?case by auto
qed simp

lemma loaded_records:
  assumes "load sha s sc = Inr (i, raw, r)" "records_of r = x # xs" "truthy (get_prop r ''checkpoint'')"
  shows "strict_eq (get_prop x ''epoch'') (get_prop (get_prop r ''checkpoint'') ''epoch'')"
    and "is_safe_num (get_prop (get_prop r ''checkpoint'') ''epoch'')"
    and "0 \<le> num_of (get_prop (get_prop r ''checkpoint'') ''epoch'')"
proof -
  from assms(2) have defined: "get_prop r ''records'' \<noteq> VUndefined" by (auto simp: records_of_def)
  have "r \<noteq> fresh_record sc" using assms(2) by (auto simp: records_of_def fresh_record_def)
  with assms(1) obtain c where "parse_cell ''Sync persistence corrupted.'' c = Inr r" "record_shape sc r"
    "validateSyncRecords sc (get_prop r ''checkpoint'') (records_of r) = Inr ()"
    using defined assms(3) by (auto simp: load_def records_of_def split: option.splits)
  with assms(2,3) show "strict_eq (get_prop x ''epoch'') (get_prop (get_prop r ''checkpoint'') ''epoch'')"
    "is_safe_num (get_prop (get_prop r ''checkpoint'') ''epoch'')"
    "0 \<le> num_of (get_prop (get_prop r ''checkpoint'') ''epoch'')"
    by (auto simp: validateSyncRecords_def validateSyncRecord_def record_shape_def checkpointValid_def)
qed

lemma reloaded_records:
  assumes ok: "sync_store_ok s" and load: "load sha s (call_scope c) = Inr (i, raw, r)" and recs: "records_of r = x # xs"
    and step: "sync_step sha s c = (s', Inr as)" and again: "load sha s' (call_scope c) = Inr (i', raw', r')"
  shows "\<exists>ys. records_of r' = json_image x # ys" and "cell_record s' i = r'"
proof -
  note loaded = load_ok [OF load ok]
  from transaction_effect [OF step [unfolded sync_step_def]] load obtain tx where
    body: "run_ops sha s (call_scope c) (call_ops c) \<lparr>tx_record = r, tx_updates = []\<rparr> = Inr (tx, as)" and
    s': "s' = s\<lparr>cells := foldl (\<lambda>m u. m(update_key u := Some (next_cell u))) (cells s)
         (\<lparr>update_key = (''sync-runtime'', i), expected = raw, next_cell = JsonText (json_image
            (set_prop (tx_record tx) ''revision'' (VInt (num_of (get_prop (tx_record tx) ''revision'') + 1))))\<rparr> # tx_updates tx)\<rparr>"
    by auto
  let ?new = "set_prop (tx_record tx) ''revision'' (VInt (num_of (get_prop (tx_record tx) ''revision'') + 1))"
  from run_ops_le [OF _ body] loaded(3) have le: "tx_le \<lparr>tx_record = r, tx_updates = []\<rparr> tx" by simp
  then have obj: "is_plain_object (tx_record tx)" by (simp add: tx_le_def claims_ok_def)
  have cell: "read_cell s' ''sync-runtime'' i = Some (JsonText (json_image ?new))"
    using sync_record_written [OF _ s', of i] le by (simp add: tx_le_def)
  have "i' = i" using again loaded(1) by (auto simp: load_def split: option.splits)
  with again cell loaded(1) have r': "r' = json_image ?new" by (auto simp: load_def)
  then show "cell_record s' i = r'" by (simp add: cell_record_def cell)
  from run_ops_records [OF _ body] loaded(3) recs obtain ys where ys: "records_of (tx_record tx) = x # ys"
    by (auto simp: claims_ok_def)
  then obtain vs where "get_prop (tx_record tx) ''records'' = VArr vs" "vs = x # ys"
    by (cases "get_prop (tx_record tx) ''records''") (auto simp: records_of_def)
  then show "\<exists>ys. records_of r' = json_image x # ys" using obj by (simp add: r' records_of_def get_json_image)
qed

text \<open>
  C39. A scope that has imported records cannot move its checkpoint to a later
  epoch and stay usable: the stored records keep the epoch they were imported
  under, the next read validates them against the new checkpoint, and so the
  committed transaction is the last one: every later call on the scope throws.
\<close>
theorem advance_after_import_locks_scope:
  assumes "sync_store_ok s" "load sha s (call_scope c) = Inr (i, raw, r)" "records_of r \<noteq> []"
    "truthy (get_prop r ''checkpoint'')" "sync_step sha s c = (s', Inr as)"
    "stored_epoch (cell_record s i) < stored_epoch (cell_record s' i)"
  shows "(\<exists>m. load sha s' (call_scope c) = Inl m) \<and>
    (call_scope later = call_scope c \<longrightarrow> (\<exists>m. snd (sync_step sha s' later) = Inl m))"
proof -
  obtain x xs where recs: "records_of r = x # xs" using assms(3) by (cases "records_of r") auto
  note old = loaded_records [OF assms(2) recs assms(4)]
  then obtain e where e: "get_prop (get_prop r ''checkpoint'') ''epoch'' = VNum (Whole e)" "get_prop x ''epoch'' = VNum (Whole e)" "0 \<le> e"
    by (cases "get_prop (get_prop r ''checkpoint'') ''epoch''" rule: json_image.cases) (auto simp: strict_eq_def)
  have stored: "stored_epoch (cell_record s i) = e" using load_ok(5) [OF assms(2,1)] assms(4) e by (simp add: stored_epoch_def)
  have "load sha s' (call_scope c) \<noteq> Inr z" for z
  proof
    assume again: "load sha s' (call_scope c) = Inr z"
    obtain i' raw' r' where z: "z = (i', raw', r')" by (rule prod_cases3)
    from reloaded_records [OF assms(1,2) recs assms(5) again [unfolded z]] obtain ys where
      r': "records_of r' = json_image x # ys" "cell_record s' i = r'" by blast
    have truthy: "truthy (get_prop r' ''checkpoint'')"
      using assms(6) [unfolded stored r'(2)] e(3) by (auto simp: stored_epoch_def split: if_splits)
    from loaded_records(1) [OF again [unfolded z] r'(1) truthy] e(2)
    have "get_prop (get_prop r' ''checkpoint'') ''epoch'' = VNum (Whole e)" by (simp add: strict_eq_def get_json_image)
    with truthy assms(6) stored show False by (simp add: r'(2) stored_epoch_def)
  qed
  then have locked: "\<exists>m. load sha s' (call_scope c) = Inl m" by (metis sum.exhaust)
  then have "\<exists>m. snd (sync_step sha s' later) = Inl m" if "call_scope later = call_scope c"
    using that by (auto simp: sync_step_def transaction_def)
  with locked show ?thesis by blast
qed

definition imported_record :: jsval where
  "imported_record = VObj [(''version'', VInt 1), (''scope'', VStr ''acct''), (''revision'', VInt 1), (''claims'', VArr []),
     (''checkpoint'', checkpoint_value 0 zeros),
     (''records'', VArr [VObj [(''version'', VInt 1), (''scope'', VStr ''acct''), (''recordId'', VStr ''settings00000001''),
        (''kind'', VStr ''settings''), (''epoch'', VInt 0), (''commitment'', VStr zeros),
        (''payload'', VObj [(''theme'', VStr ''paper-ink'')])]])]"

lemma imported_record_valid:
  "record_shape ''acct'' imported_record" "get_prop imported_record ''state'' = VUndefined" "json_ok imported_record"
  "validateSyncRecords ''acct'' (get_prop imported_record ''checkpoint'') (array_of (get_prop imported_record ''records'')) = Inr ()"
  "get_prop imported_record ''checkpoint'' = checkpoint_value 0 zeros" "num_of (get_prop imported_record ''revision'') = 1"
  "records_of imported_record \<noteq> []" "is_plain_object imported_record" "stored_epoch imported_record = 0"
proof -
  show "validateSyncRecords ''acct'' (get_prop imported_record ''checkpoint'') (array_of (get_prop imported_record ''records'')) = Inr ()"
    by code_simp
qed (simp_all add: imported_record_def record_shape_def claims_of_def checkpointValid_def checkpoint_value_def records_of_def
    stored_epoch_def)

lemma later_checkpoint:
  "putCheckpoint imported_record (checkpoint_value 1 zeros) = Inr (set_prop imported_record ''checkpoint'' (checkpoint_value 1 zeros))"
  "stored_epoch (json_image (set_prop (set_prop imported_record ''checkpoint'' (checkpoint_value 1 zeros)) ''revision'' (VInt 2))) = 1"
  by code_simp+

theorem advance_after_import_locks_scope_witness:
  "\<exists>s s' call. (\<exists>r. load zero_hash s ''acct'' = Inr r) \<and> sync_step zero_hash s call = (s', Inr []) \<and>
     (\<exists>m. load zero_hash s' ''acct'' = Inl m)"
proof -
  define s where "s = write_cell fresh_store ''sync-runtime'' ''acct'' (JsonText imported_record)"
  define call where "call = \<lparr>call_scope = ''acct'', call_expected = checkpoint_value 0 zeros,
      call_ops = [Write_checkpoint ''acct'' (checkpoint_value 1 zeros)]\<rparr>"
  define r1 where "r1 = set_prop (set_prop imported_record ''checkpoint'' (checkpoint_value 1 zeros)) ''revision'' (VInt 2)"
  have load: "load zero_hash s (call_scope call) = Inr (''acct'', Some (JsonText imported_record), imported_record)"
    using imported_record_valid(1,2,4) by (simp add: load_def call_def acct_id s_def)
  have ok: "sync_store_ok s"
    using imported_record_valid(3) by (auto simp: sync_store_ok_def s_def write_cell_def read_cell_def fresh_store_def)
  define s' where "s' = write_cell s ''sync-runtime'' ''acct'' (JsonText (json_image r1))"
  have same: "same (checkpoint_value 0 zeros) (checkpoint_value 0 zeros)" by code_simp
  have expected: "cells s (''sync-runtime'', ''acct'') = Some (JsonText imported_record)" by (simp add: s_def write_cell_def)
  have step: "sync_step zero_hash s call = (s', Inr [])"
    using load same later_checkpoint(1) imported_record_valid(2,5,6,8) expected
    by (simp add: sync_step_def transaction_def call_def tx_write_def requireScope_def MAX_SAFE_INTEGER_def
        compareAndSwapRecords_def Let_def s'_def write_cell_def r1_def)
  have "stored_epoch (cell_record s ''acct'') < stored_epoch (cell_record s' ''acct'')"
    using later_checkpoint(2) imported_record_valid(9) by (simp add: cell_record_def s_def s'_def r1_def)
  from advance_after_import_locks_scope [OF ok load imported_record_valid(7) _ step this, of call]
  have "\<exists>m. load zero_hash s' (call_scope call) = Inl m" by (simp add: imported_record_valid(5) checkpoint_value_def)
  then show ?thesis using load step unfolding call_def by auto
qed

end
