(* ===== verification/SyncRuntime.thy ===== *)
theory SyncRuntime
  imports SyncStore
begin

text \<open>
  The synchronisation runtime: authenticated frames bound to a conversation
  session (\<open>service/src/sync/authenticatedTransport.ts\<close>) and the controller that
  admits a transfer, receives its packages into the transactional store and
  finishes it (\<open>runtime.ts\<close>). An operation runs to its end before the next one
  starts; the answers of the trust boundary are fixed for one operation.
\<close>

section \<open>Authenticated frames\<close>

definition MAX_SYNC_ENVELOPE_BYTES :: nat where
  "MAX_SYNC_ENVELOPE_BYTES = 192 * 1024"

definition assertSyncEnvelopeSize :: "nat \<Rightarrow> unit outcome" where
  "assertSyncEnvelopeSize n = require (n \<le> MAX_SYNC_ENVELOPE_BYTES) ''Sync envelope is too large.''"

record sync_binding =
  sb_session :: nat
  sb_binding :: string
  sb_localIdentity :: string
  sb_peerIdentity :: string
  sb_peerDevice :: string

record sync_frame =
  frame_ref :: nat
  frame_binding :: string
  frame_senderIdentity :: string
  frame_receiverIdentity :: string
  frame_senderDevice :: string
  syncPackage :: jsval

text \<open>Sessions by reference, and the frames issued and not yet consumed.\<close>

record frame_world =
  session_ready :: "nat \<Rightarrow> bool"
  session_encrypted :: "nat \<Rightarrow> bool"
  issued_frames :: "(nat \<times> nat) list"
  next_frame :: nat

definition session_usable :: "frame_world \<Rightarrow> nat \<Rightarrow> bool" where
  "session_usable w k \<longleftrightarrow> session_ready w k \<and> session_encrypted w k"

definition consumeAuthenticatedSyncFrame :: "frame_world \<Rightarrow> sync_frame \<Rightarrow> frame_world \<times> unit outcome" where
  "consumeAuthenticatedSyncFrame w f =
     (if (case map_of (issued_frames w) (frame_ref f) of None \<Rightarrow> True | Some k \<Rightarrow> \<not> session_usable w k)
      then (w, Inl ''Authenticated sync frame rejected or replayed.'')
      else (w\<lparr>issued_frames := filter (\<lambda>p. fst p \<noteq> frame_ref f) (issued_frames w)\<rparr>, Inr ()))"

definition package_checkpoint :: "jsval \<Rightarrow> checkpoint" where
  "package_checkpoint p = \<lparr>cp_epoch = num_of (get_prop (get_prop p ''checkpoint'') ''epoch''),
     cp_commitment = str_of (get_prop (get_prop p ''checkpoint'') ''commitment'')\<rparr>"

definition some_active_as :: "device_list \<Rightarrow> string \<Rightarrow> string \<Rightarrow> bool" where
  "some_active_as l i ident = list_ex (\<lambda>e. deviceId e = i \<and> publicIdentityReference e = ident \<and> state e = Active) (devices l)"

definition validateTrust ::
  "(u8 list \<Rightarrow> u8 list) \<Rightarrow> sync_binding \<Rightarrow> string \<Rightarrow> trust_boundary \<Rightarrow> jsval \<Rightarrow> unit outcome"
where
  "validateTrust sha b local tb p =
     and_then (boundary_snapshot tb) (\<lambda>st.
     and_then (verifyDeviceListCheckpoint sha (snap_list st) (package_checkpoint p)) (\<lambda>_.
     and_then (boundary_assertTrustedAt tb (cp_epoch (package_checkpoint p))) (\<lambda>_.
       require (some_active_as (snap_list st) local (sb_localIdentity b) \<and>
           some_active_as (snap_list st) (sb_peerDevice b) (sb_peerIdentity b)) ''Authenticated sync trust rejected.'')))"

text \<open>
  Sending: the bytes encrypted, or the error. The envelope is the session's, its
  size and the relay's answer are what they give.
\<close>

definition send_package ::
  "(u8 list \<Rightarrow> u8 list) \<Rightarrow> frame_world \<Rightarrow> sync_binding \<Rightarrow> string \<Rightarrow> string \<Rightarrow> trust_boundary \<Rightarrow> trust_boundary \<Rightarrow>
    (wire \<Rightarrow> nat outcome) \<Rightarrow> jsval \<Rightarrow> wire outcome"
where
  "send_package sha w b sc local tb1 tb2 encrypt p =
     and_then (require (session_usable w (sb_session b) \<and> get_prop p ''scope'' = VStr sc \<and>
         get_prop p ''sender'' = VStr local \<and> get_prop p ''senderIdentity'' = VStr (sb_localIdentity b) \<and>
         get_prop p ''receiverIdentity'' = VStr (sb_peerIdentity b) \<and> get_prop p ''receiver'' = VStr (sb_peerDevice b))
         ''Authenticated sync origin rejected.'') (\<lambda>_.
     and_then (decodeSyncPackage (encodeSyncPackage p)) (\<lambda>_.
     and_then (validateTrust sha b local tb1 p) (\<lambda>_.
     and_then (encrypt (encodeSyncPackage p)) (\<lambda>envelope_size.
     and_then (assertSyncEnvelopeSize envelope_size) (\<lambda>_.
     and_then (validateTrust sha b local tb2 p) (\<lambda>_. Inr (encodeSyncPackage p)))))))"

definition receive_frame ::
  "(u8 list \<Rightarrow> u8 list) \<Rightarrow> frame_world \<Rightarrow> sync_binding \<Rightarrow> string \<Rightarrow> string \<Rightarrow> trust_boundary \<Rightarrow> nat \<Rightarrow> wire outcome \<Rightarrow>
    string \<Rightarrow> frame_world \<times> sync_frame outcome"
where
  "receive_frame sha w b sc local tb envelope_size decrypted expectedPeer =
     (case
        and_then (require (session_usable w (sb_session b) \<and> expectedPeer = sb_peerDevice b \<and> sb_binding b \<noteq> [])
            ''Authenticated sync session rejected.'') (\<lambda>_.
        and_then (assertSyncEnvelopeSize envelope_size) (\<lambda>_.
        and_then decrypted (\<lambda>bytes.
        and_then (decodeSyncPackage bytes) (\<lambda>p.
        and_then (require (get_prop p ''scope'' = VStr sc \<and> get_prop p ''senderIdentity'' = VStr (sb_peerIdentity b) \<and>
            get_prop p ''receiverIdentity'' = VStr (sb_localIdentity b) \<and> get_prop p ''receiver'' = VStr local \<and>
            get_prop p ''sender'' = VStr (sb_peerDevice b)) ''Authenticated sync identity rejected.'') (\<lambda>_.
        and_then (validateTrust sha b local tb p) (\<lambda>_. Inr p)))))) of
        Inl e \<Rightarrow> (w, Inl e)
      | Inr p \<Rightarrow>
          (w\<lparr>issued_frames := (next_frame w, sb_session b) # issued_frames w, next_frame := Suc (next_frame w)\<rparr>,
           Inr \<lparr>frame_ref = next_frame w, frame_binding = sb_binding b, frame_senderIdentity = sb_peerIdentity b,
             frame_receiverIdentity = sb_localIdentity b, frame_senderDevice = sb_peerDevice b, syncPackage = p\<rparr>))"

section \<open>The controller\<close>

record runtime =
  rt_transfer :: "transfer option"
  admission :: string
  rt_expiresAt :: int
  receivedSequences :: "int list"
  preparedMembers :: "string list"
  readyMembers :: "string list"
  rt_freshness :: freshness_admission
  rt_checkpoint :: "jsval option"
  rt_scope :: string
  rt_local :: string

definition new_runtime :: "string \<Rightarrow> string \<Rightarrow> runtime" where
  "new_runtime sc local = \<lparr>rt_transfer = None, admission = ''idle'', rt_expiresAt = 0, receivedSequences = [],
     preparedMembers = [], readyMembers = [], rt_freshness = \<lparr>localDeviceId = local, maxMembers = 8, evidence = []\<rparr>,
     rt_checkpoint = None, rt_scope = sc, rt_local = local\<rparr>"

definition add :: "'a \<Rightarrow> 'a list \<Rightarrow> 'a list" where
  "add x xs = (if x \<in> set xs then xs else xs @ [x])"

definition cp_value :: "checkpoint \<Rightarrow> jsval" where
  "cp_value cp = checkpoint_value (cp_epoch cp) (cp_commitment cp)"

definition durable_state :: "runtime \<Rightarrow> jsval \<Rightarrow> string option \<Rightarrow> jsval" where
  "durable_state rt cp terminal = VObj
     [(''scope'', VStr (rt_scope rt)), (''version'', VInt 1), (''checkpoint'', cp), (''admission'', VStr (admission rt)),
      (''receivedSequences'', VArr (map VInt (sort (receivedSequences rt)))),
      (''preparedMembers'', VArr (map VStr (sort (preparedMembers rt)))),
      (''readyMembers'', VArr (map VStr (sort (readyMembers rt)))),
      (''terminal'', case terminal of None \<Rightarrow> VUndefined | Some t \<Rightarrow> VStr t)]"

definition reset_admission :: "runtime \<Rightarrow> runtime" where
  "reset_admission rt = rt\<lparr>rt_transfer := None, admission := ''idle'', rt_expiresAt := 0, receivedSequences := [],
     preparedMembers := [], readyMembers := []\<rparr>"

definition atomic ::
  "(u8 list \<Rightarrow> u8 list) \<Rightarrow> runtime \<Rightarrow> store \<Rightarrow> jsval \<Rightarrow> (sync_tx \<Rightarrow> (sync_tx \<times> 'a) outcome) \<Rightarrow> runtime \<times> store \<times> 'a outcome"
where
  "atomic sha rt s cp body =
     (case transaction sha s (rt_scope rt) cp body of
        (s', Inl e) \<Rightarrow> (reset_admission rt, s', Inl e)
      | (s', Inr x) \<Rightarrow> (rt, s', Inr x))"

definition write_body :: "runtime \<Rightarrow> jsval \<Rightarrow> string option \<Rightarrow> sync_tx \<Rightarrow> (sync_tx \<times> unit) outcome" where
  "write_body rt cp terminal tx =
     and_then (tx_writeState (rt_scope rt) (rt_scope rt) (durable_state rt cp terminal) tx) (\<lambda>tx'. Inr (tx', ()))"

definition persistState ::
  "(u8 list \<Rightarrow> u8 list) \<Rightarrow> runtime \<Rightarrow> store \<Rightarrow> jsval \<Rightarrow> string option \<Rightarrow> runtime \<times> store \<times> unit outcome"
where
  "persistState sha rt s cp terminal = atomic sha rt s cp (write_body rt cp terminal)"

fun record_all :: "freshness_admission \<Rightarrow> freshness_evidence list \<Rightarrow> snapshot \<Rightarrow> freshness_admission \<times> unit outcome" where
  "record_all f [] st = (f, Inr ())"
| "record_all f (ev # evs) st =
     (case recordAuthenticatedEvidence f ev st of
        (f', Inl e) \<Rightarrow> (f', Inl e)
      | (f', Inr _) \<Rightarrow> record_all f' evs st)"

definition stale_checkpoint :: "jsval \<Rightarrow> checkpoint \<Rightarrow> bool" where
  "stale_checkpoint persisted cp \<longleftrightarrow> truthy persisted \<and>
     (cp_epoch cp < num_of (get_prop persisted ''epoch'') \<or>
      cp_epoch cp = num_of (get_prop persisted ''epoch'') \<and> get_prop persisted ''commitment'' \<noteq> VStr (cp_commitment cp))"

text \<open>Everything \<open>authorize\<close> checks before it replaces the running transfer.\<close>

definition admit_transfer ::
  "(u8 list \<Rightarrow> u8 list) \<Rightarrow> runtime \<Rightarrow> store \<Rightarrow> trust_boundary \<Rightarrow> sync_authorization \<Rightarrow> (jsval \<times> snapshot) outcome"
where
  "admit_transfer sha rt s tb a =
     and_then (require (sa_scope a = rt_scope rt \<and> sa_targetDeviceId a = rt_local rt) ''Sync target is unavailable.'') (\<lambda>_.
     and_then (read_checkpoint sha s (rt_scope rt)) (\<lambda>persisted.
     and_then (require (\<not> stale_checkpoint persisted (sa_checkpoint a)) ''Sync checkpoint is stale.'') (\<lambda>_.
     and_then (boundary_snapshot tb) (\<lambda>current.
     and_then (boundary_assertTrustedAt tb (epoch (snap_list current))) (\<lambda>_.
     and_then (require (case activeMemberDeviceIds a of
           None \<Rightarrow> True
         | Some ms \<Rightarrow> freshnessRequired a \<longrightarrow> rt_local rt \<in> set ms) ''Sync freshness membership rejected.'') (\<lambda>_.
       Inr (persisted, current)))))))"

definition required_freshness :: "sync_authorization \<Rightarrow> freshness_admission \<Rightarrow> snapshot \<Rightarrow> unit outcome" where
  "required_freshness a f current =
     (case activeMemberDeviceIds a of
        None \<Rightarrow> Inr ()
      | Some ms \<Rightarrow> if freshnessRequired a then assertCurrent f current ms else Inr ())"

definition start_transfer :: "runtime \<Rightarrow> sync_authorization \<Rightarrow> runtime" where
  "start_transfer rt a = rt\<lparr>receivedSequences := [], rt_transfer := Some (new_transfer a),
     rt_expiresAt := whole (sa_expiresAt a), rt_checkpoint := Some (cp_value (sa_checkpoint a)),
     preparedMembers := [rt_local rt], readyMembers := [rt_local rt]\<rparr>"

definition authorize_runtime ::
  "(u8 list \<Rightarrow> u8 list) \<Rightarrow> runtime \<Rightarrow> store \<Rightarrow> trust_boundary \<Rightarrow> int \<Rightarrow> sync_authorization \<Rightarrow> runtime \<times> store \<times> unit outcome"
where
  "authorize_runtime sha rt s tb now a =
     (case admit_transfer sha rt s tb a of
        Inl e \<Rightarrow> (rt, s, Inl e)
      | Inr (persisted, current) \<Rightarrow>
          (case record_all (clear_evidence (rt_freshness rt)) (freshnessEvidence a) current of
             (f, Inl e) \<Rightarrow> (rt\<lparr>rt_freshness := f\<rparr>, s, Inl e)
           | (f, Inr _) \<Rightarrow>
               (case required_freshness a f current of
                  Inl e \<Rightarrow> (rt\<lparr>rt_freshness := f\<rparr>, s, Inl e)
                | Inr _ \<Rightarrow>
                    let rt1 = start_transfer (rt\<lparr>rt_freshness := f\<rparr>) a;
                        (t, r) = authorize_transfer sha (new_transfer a) tb now;
                        rt2 = rt1\<lparr>rt_transfer := Some t\<rparr>
                    in (case r of
                          Inl e \<Rightarrow> (rt2, s, Inl e)
                        | Inr _ \<Rightarrow>
                            let rt3 = rt2\<lparr>admission := ''prepare''\<rparr>
                            in atomic sha rt3 s persisted (write_body rt3 (cp_value (sa_checkpoint a)) None)))))"

text \<open>Recovery restores the durable evidence and nothing that admits packages.\<close>

definition recover :: "(u8 list \<Rightarrow> u8 list) \<Rightarrow> runtime \<Rightarrow> store \<Rightarrow> runtime \<times> jsval outcome" where
  "recover sha rt s =
     (case readState sha s (rt_scope rt) of
        Inl e \<Rightarrow> (rt, Inl e)
      | Inr st \<Rightarrow>
          if \<not> truthy st then (rt, Inr VUndefined)
          else
            let ns = array_of (get_prop st ''receivedSequences'') in
            if get_prop st ''version'' \<noteq> VInt 1 \<or> get_prop st ''scope'' \<noteq> VStr (rt_scope rt)
              \<or> \<not> is_safe_num (get_prop (get_prop st ''checkpoint'') ''epoch'')
              \<or> num_of (get_prop (get_prop st ''checkpoint'') ''epoch'') < 0 \<or> \<not> distinct ns
              \<or> \<not> list_all (\<lambda>n. is_safe_num n \<and> 1 \<le> num_of n) ns
            then (rt, Inl ''Sync recovery state is corrupted.'')
            else (rt\<lparr>rt_checkpoint := Some (get_prop st ''checkpoint''), receivedSequences := map num_of ns,
              preparedMembers := [], readyMembers := [], rt_transfer := None, rt_expiresAt := 0, admission := ''idle''\<rparr>, Inr st))"

definition rt_members :: "runtime \<Rightarrow> string list" where
  "rt_members rt = (case rt_transfer rt of None \<Rightarrow> [] | Some t \<Rightarrow> members (transfer_auth t))"

definition membershipEvidenceRequired :: "transfer \<Rightarrow> bool" where
  "membershipEvidenceRequired t \<longleftrightarrow> activeMemberDeviceIds (transfer_auth t) \<noteq> None"

text \<open>\<open>prepared\<close> and \<open>ready\<close> differ in the admission they expect and the one they enter.\<close>

definition advance_admission ::
  "string \<Rightarrow> string \<Rightarrow> (u8 list \<Rightarrow> u8 list) \<Rightarrow> runtime \<Rightarrow> store \<Rightarrow> trust_boundary \<Rightarrow> int \<Rightarrow> runtime \<times> store \<times> unit outcome"
where
  "advance_admission old_admission new_admission sha rt s tb now =
     (case
        and_then (require (admission rt = old_admission \<and> rt_transfer rt \<noteq> None \<and> now \<le> rt_expiresAt rt)
            ''Sync admission is unavailable.'') (\<lambda>_.
        and_then (boundary_snapshot tb) (\<lambda>st. boundary_assertTrustedAt tb (epoch (snap_list st)))) of
        Inl e \<Rightarrow> (rt, s, Inl e)
      | Inr _ \<Rightarrow>
          let rt' = rt\<lparr>admission := new_admission\<rparr> in persistState sha rt' s (the (rt_checkpoint rt')) None)"

definition recordPrepared :: "runtime \<Rightarrow> string \<Rightarrow> runtime \<times> unit outcome" where
  "recordPrepared rt i =
     (if i \<notin> set (rt_members rt) then (rt, Inl ''Sync admission member rejected.'')
      else (rt\<lparr>preparedMembers := add i (preparedMembers rt)\<rparr>, Inr ()))"

definition recordReady :: "runtime \<Rightarrow> string \<Rightarrow> runtime \<times> unit outcome" where
  "recordReady rt i =
     (if i \<notin> set (rt_members rt) \<or> i \<notin> set (preparedMembers rt) then (rt, Inl ''Sync admission member rejected.'')
      else (rt\<lparr>readyMembers := add i (readyMembers rt)\<rparr>, Inr ()))"

definition begin_runtime :: "(u8 list \<Rightarrow> u8 list) \<Rightarrow> runtime \<Rightarrow> store \<Rightarrow> int \<Rightarrow> runtime \<times> store \<times> unit outcome" where
  "begin_runtime sha rt s now =
     (case rt_transfer rt of
        None \<Rightarrow> (rt, s, Inl ''Sync admission is unavailable.'')
      | Some t \<Rightarrow>
          if admission rt \<noteq> ''ready'' \<or> rt_expiresAt rt < now \<or> membershipEvidenceRequired t \<and>
            (length (preparedMembers rt) \<noteq> length (rt_members rt) \<or> length (readyMembers rt) \<noteq> length (rt_members rt))
          then (rt, s, Inl ''Sync admission is unavailable.'')
          else
            (case begin_transfer t of
               (t', Inl e) \<Rightarrow> (rt\<lparr>rt_transfer := Some t'\<rparr>, s, Inl e)
             | (t', Inr _) \<Rightarrow>
                 let rt' = rt\<lparr>rt_transfer := Some t', admission := ''transfer''\<rparr>
                 in persistState sha rt' s (the (rt_checkpoint rt')) None))"

definition extractRecords :: "jsval \<Rightarrow> jsval list outcome" where
  "extractRecords v =
     (if \<not> is_plain_object v \<or> \<not> has_prop v ''records'' then Inr []
      else case get_prop v ''records'' of VArr rs \<Rightarrow> Inr rs | _ \<Rightarrow> Inl ''Sync records rejected.'')"

definition package_evidence :: "jsval \<Rightarrow> freshness_evidence" where
  "package_evidence p = \<lparr>ev_version = 1, ev_deviceId = str_of (get_prop p ''sender''),
     ev_identityReference = str_of (get_prop p ''senderIdentity''), ev_epoch = cp_epoch (package_checkpoint p),
     ev_commitment = cp_commitment (package_checkpoint p), evidenceId = str_of (get_prop p ''messageId'')\<rparr>"

definition sender_freshness ::
  "runtime \<Rightarrow> transfer \<Rightarrow> trust_boundary \<Rightarrow> jsval \<Rightarrow> freshness_admission \<times> unit outcome"
where
  "sender_freshness rt t tb p =
     (if \<not> (membershipEvidenceRequired t \<and> freshnessRequired (transfer_auth t)) then (rt_freshness rt, Inr ())
      else case boundary_snapshot tb of
        Inl e \<Rightarrow> (rt_freshness rt, Inl e)
      | Inr current \<Rightarrow>
          let (f, r) = recordAuthenticatedEvidence (rt_freshness rt) (package_evidence p) current
          in (f, and_then r (\<lambda>_. assertCurrent f current (members (transfer_auth t)))))"

definition replay_key :: "jsval \<Rightarrow> string" where
  "replay_key p = str_of (get_prop p ''sender'') @ '':'' @ str_of (get_prop p ''receiver'') @ '':'' @
     str_of (get_prop p ''streamId'') @ '':'' @ show_int (num_of (get_prop p ''sequence''))"

definition receive_body ::
  "(u8 list \<Rightarrow> u8 list) \<Rightarrow> store \<Rightarrow> runtime \<Rightarrow> jsval \<Rightarrow> jsval list \<Rightarrow> sync_tx \<Rightarrow> (sync_tx \<times> unit) outcome"
where
  "receive_body sha s rt p rs tx =
     and_then (tx_claim (rt_scope rt) (rt_scope rt) (replay_key p) tx) (\<lambda>(tx1, granted).
     and_then (require granted ''Sync package replayed.'') (\<lambda>_.
     and_then (if rs = [] then Inr tx1
       else tx_importRecords sha s (rt_scope rt) (rt_scope rt) (get_prop p ''checkpoint'') rs tx1) (\<lambda>tx2.
       write_body (rt\<lparr>receivedSequences := add (num_of (get_prop p ''sequence'')) (receivedSequences rt)\<rparr>)
         (get_prop p ''checkpoint'') None tx2)))"

definition receiveInternal ::
  "(u8 list \<Rightarrow> u8 list) \<Rightarrow> runtime \<Rightarrow> store \<Rightarrow> trust_boundary \<Rightarrow> int \<Rightarrow> jsval \<Rightarrow> runtime \<times> store \<times> (int \<times> string) outcome"
where
  "receiveInternal sha rt s tb now p =
     (case rt_transfer rt of
        None \<Rightarrow> (rt, s, Inl ''Sync transfer is unavailable.'')
      | Some t \<Rightarrow>
          if admission rt \<noteq> ''transfer'' \<or> rt_expiresAt rt < now then (rt, s, Inl ''Sync transfer is unavailable.'')
          else
            (case accept_package sha t tb now p of
               (t', Inl e) \<Rightarrow> (rt\<lparr>rt_transfer := Some t'\<rparr>, s, Inl e)
             | (t', Inr receipt) \<Rightarrow>
                 let rt1 = rt\<lparr>rt_transfer := Some t'\<rparr>; (f, r) = sender_freshness rt1 t' tb p; rt2 = rt1\<lparr>rt_freshness := f\<rparr>
                 in (case and_then r (\<lambda>_. extractRecords (get_prop p ''payload'')) of
                       Inl e \<Rightarrow> (rt2, s, Inl e)
                     | Inr rs \<Rightarrow>
                         (case atomic sha rt2 s (get_prop p ''checkpoint'') (receive_body sha s rt2 p rs) of
                            (rt3, s', Inl e) \<Rightarrow> (rt3, s', Inl e)
                          | (rt3, s', Inr _) \<Rightarrow>
                              (rt3\<lparr>receivedSequences := add (num_of (get_prop p ''sequence'')) (receivedSequences rt3),
                                 rt_checkpoint := Some (get_prop p ''checkpoint'')\<rparr>, s', Inr receipt)))))"

definition receiveAuthenticated ::
  "(u8 list \<Rightarrow> u8 list) \<Rightarrow> frame_world \<Rightarrow> runtime \<Rightarrow> store \<Rightarrow> trust_boundary \<Rightarrow> int \<Rightarrow> sync_frame \<Rightarrow>
    frame_world \<times> runtime \<times> store \<times> (int \<times> string) outcome"
where
  "receiveAuthenticated sha w rt s tb now f =
     (case consumeAuthenticatedSyncFrame w f of
        (w', Inl e) \<Rightarrow> (w', rt, s, Inl e)
      | (w', Inr _) \<Rightarrow>
          if frame_binding f = [] \<or> frame_senderIdentity f = [] then (w', rt, s, Inl ''Authenticated sync frame rejected.'')
          else (w', receiveInternal sha rt s tb now (syncPackage f)))"

definition complete_runtime :: "(u8 list \<Rightarrow> u8 list) \<Rightarrow> runtime \<Rightarrow> store \<Rightarrow> runtime \<times> store \<times> unit outcome" where
  "complete_runtime sha rt s =
     (case rt_transfer rt of
        None \<Rightarrow> (rt, s, Inl ''Sync transfer is unavailable.'')
      | Some t \<Rightarrow>
          if admission rt \<noteq> ''transfer'' then (rt, s, Inl ''Sync transfer is unavailable.'')
          else
            (case complete_transfer sha t of
               (t', Inl e) \<Rightarrow> (rt\<lparr>rt_transfer := Some t'\<rparr>, s, Inl e)
             | (t', Inr _) \<Rightarrow>
                 let rt' = rt\<lparr>rt_transfer := Some t', admission := ''idle''\<rparr>
                 in persistState sha rt' s (the (rt_checkpoint rt')) (Some ''completed'')))"

definition fail_runtime :: "(u8 list \<Rightarrow> u8 list) \<Rightarrow> runtime \<Rightarrow> store \<Rightarrow> runtime \<times> store \<times> unit outcome" where
  "fail_runtime sha rt s =
     (let (rt1, r) = (case rt_transfer rt of
          None \<Rightarrow> (rt, Inr ())
        | Some t \<Rightarrow> let (t', r) = fail_transfer t in (rt\<lparr>rt_transfer := Some t'\<rparr>, r))
      in (case r of
            Inl e \<Rightarrow> (rt1, s, Inl e)
          | Inr _ \<Rightarrow>
              let rt2 = rt1\<lparr>admission := ''idle''\<rparr>
              in (case rt_checkpoint rt2 of
                    None \<Rightarrow> (rt2, s, Inr ())
                  | Some cp \<Rightarrow> persistState sha rt2 s cp (Some ''failed''))))"

section \<open>Freshness evidence and message identifiers\<close>

lemma recorded_evidence:
  "recordAuthenticatedEvidence f ev st = (f', Inr u) \<Longrightarrow> map_of (evidence f') (ev_deviceId ev) = Some ev"
  by (auto simp: recordAuthenticatedEvidence_def Let_def split: if_splits option.splits)

lemma conflicting_evidence:
  assumes "map_of (evidence f) (ev_deviceId ev) = Some prior" "evidenceId prior \<noteq> evidenceId ev"
  shows "\<exists>m. snd (recordAuthenticatedEvidence f ev st) = Inl m"
  using assms by (auto simp: recordAuthenticatedEvidence_def split: option.split)

lemma accept_package_auth: "transfer_auth (fst (accept_package sha t tb now p)) = transfer_auth t"
  by (cases "check_package t tb now p") (simp_all add: accept_package_def Let_def split: option.split)

lemma atomic_committed:
  "atomic sha rt s cp body = (rt', s', Inr x) \<Longrightarrow> rt' = rt \<and> transaction sha s (rt_scope rt) cp body = (s', Inr x)"
  by (auto simp: atomic_def split: prod.splits sum.splits)

lemma received_state:
  assumes "receiveInternal sha rt s tb now p = (rt', s', Inr receipt)" and "rt_transfer rt = Some t"
  obtains t' f rs where "accept_package sha t tb now p = (t', Inr receipt)" "admission rt = ''transfer''"
    "sender_freshness (rt\<lparr>rt_transfer := Some t'\<rparr>) t' tb p = (f, Inr ())" "extractRecords (get_prop p ''payload'') = Inr rs"
    "transaction sha s (rt_scope rt) (get_prop p ''checkpoint'')
       (receive_body sha s (rt\<lparr>rt_transfer := Some t', rt_freshness := f\<rparr>) p rs) = (s', Inr ())"
    "rt_transfer rt' = Some t'" "rt_freshness rt' = f"
proof -
  obtain t' r where acc: "accept_package sha t tb now p = (t', r)" by (rule prod.exhaust)
  obtain f q where fresh: "sender_freshness (rt\<lparr>rt_transfer := Some t'\<rparr>) t' tb p = (f, q)" by (rule prod.exhaust)
  let ?rt = "rt\<lparr>rt_transfer := Some t', rt_freshness := f\<rparr>"
  from assms acc fresh have r: "r = Inr receipt" "admission rt = ''transfer''"
    by (auto simp: receiveInternal_def Let_def split: if_splits sum.splits prod.splits)
  from assms acc fresh r obtain rs where rs: "q = Inr ()" "extractRecords (get_prop p ''payload'') = Inr rs"
    by (auto simp: receiveInternal_def Let_def split: if_splits sum.splits prod.splits)
  obtain rt3 s3 u where at: "atomic sha ?rt s (get_prop p ''checkpoint'') (receive_body sha s ?rt p rs) = (rt3, s3, u)"
    by (rule prod_cases3)
  from assms acc fresh r rs at have "u = Inr ()" "s3 = s'" "rt_transfer rt' = rt_transfer rt3" "rt_freshness rt' = rt_freshness rt3"
    by (auto simp: receiveInternal_def Let_def split: if_splits sum.splits prod.splits)
  with atomic_committed [of sha ?rt s "get_prop p ''checkpoint''" _ rt3 s3 "()"] at
  have "rt3 = ?rt" "transaction sha s (rt_scope rt) (get_prop p ''checkpoint'') (receive_body sha s ?rt p rs) = (s', Inr ())"
    by auto
  with that acc r fresh rs \<open>rt_transfer rt' = rt_transfer rt3\<close> \<open>rt_freshness rt' = rt_freshness rt3\<close> show thesis by simp
qed

text \<open>
  C40. With freshness evidence required, a transfer accepts packages of one
  message identifier only: the identifier of a package is recorded as the
  sender's evidence, and a package of that sender with another identifier
  conflicts with it. A transfer of a manifest and a chunk therefore fails unless
  both carry the same \<open>messageId\<close>.
\<close>
theorem fresh_transfer_takes_one_message_id:
  assumes "receiveInternal sha rt s tb now p = (rt', s', Inr receipt)" "rt_transfer rt = Some t"
    and "membershipEvidenceRequired t" "freshnessRequired (transfer_auth t)"
    and "str_of (get_prop q ''sender'') = str_of (get_prop p ''sender'')"
    and "str_of (get_prop q ''messageId'') \<noteq> str_of (get_prop p ''messageId'')"
  shows "\<exists>m. snd (snd (receiveInternal sha rt' s'' tb' now' q)) = Inl m"
proof -
  from received_state [OF assms(1,2)] obtain t' f where
    acc: "accept_package sha t tb now p = (t', Inr receipt)" and
    fresh: "sender_freshness (rt\<lparr>rt_transfer := Some t'\<rparr>) t' tb p = (f, Inr ())" and
    rt': "rt_transfer rt' = Some t'" "rt_freshness rt' = f" by metis
  have auth: "transfer_auth t' = transfer_auth t" using accept_package_auth [of sha t tb now p] acc by simp
  with assms(3,4) have req: "membershipEvidenceRequired t'" "freshnessRequired (transfer_auth t')"
    by (simp_all add: membershipEvidenceRequired_def)
  with fresh obtain current where "boundary_snapshot tb = Inr current"
    "\<exists>u. recordAuthenticatedEvidence (rt_freshness rt) (package_evidence p) current = (f, Inr u)"
    by (auto simp: sender_freshness_def Let_def split: sum.splits prod.splits)
  then have prior: "map_of (evidence f) (ev_deviceId (package_evidence q)) = Some (package_evidence p)"
    using recorded_evidence assms(5) by (fastforce simp: package_evidence_def)
  show ?thesis
  proof (cases "receiveInternal sha rt' s'' tb' now' q")
    case (fields rt2 s2 r2)
    have False if "r2 = Inr z" for z
    proof -
      from received_state [OF fields [unfolded that] rt'(1)] obtain t2 f2 where
        acc2: "accept_package sha t' tb' now' q = (t2, Inr z)" and
        fresh2: "sender_freshness (rt'\<lparr>rt_transfer := Some t2\<rparr>) t2 tb' q = (f2, Inr ())" by metis
      have "transfer_auth t2 = transfer_auth t'" using accept_package_auth [of sha t' tb' now' q] acc2 by simp
      with req have "membershipEvidenceRequired t2" "freshnessRequired (transfer_auth t2)"
        by (simp_all add: membershipEvidenceRequired_def)
      with fresh2 obtain st where "\<exists>f3 u. recordAuthenticatedEvidence (rt_freshness rt') (package_evidence q) st = (f3, Inr u)"
        by (auto simp: sender_freshness_def Let_def split: sum.splits prod.splits)
      moreover have "evidenceId (package_evidence p) \<noteq> evidenceId (package_evidence q)" using assms(6) by (simp add: package_evidence_def)
      ultimately show False using conflicting_evidence [OF prior, of st] rt'(2) by fastforce
    qed
    with fields show ?thesis by (cases r2) auto
  qed
qed

text \<open>The two devices of the sample transfer, with evidence required of both.\<close>

definition fresh_auth :: sync_authorization where
  "fresh_auth = pair_transfer\<lparr>activeMemberDeviceIds := Some [''desk'', ''tablet''], freshnessRequired := True\<rparr>"

definition fresh_runtime :: runtime where
  "fresh_runtime = (new_runtime ''acct'' ''tablet'')\<lparr>rt_transfer := Some \<lparr>machine = \<lparr>sync_device = Sync_syncing,
     sync_transfer = Transferring\<rparr>, received_digests = [], chunks = [], manifest = None, transfer_auth = fresh_auth\<rparr>,
     admission := ''transfer'', rt_expiresAt := 50\<rparr>"

definition sync_start :: jsval where
  "sync_start = VObj [(''version'', VInt 1), (''scope'', VStr ''acct''), (''revision'', VInt 1), (''claims'', VArr []),
     (''checkpoint'', checkpoint_value 0 zeros)]"

definition sync_start_store :: store where
  "sync_start_store = write_cell fresh_store ''sync-runtime'' ''acct'' (JsonText sync_start)"

abbreviation sample_chunk :: jsval where
  "sample_chunk \<equiv> sample_package ''sync-chunk'' 2 VNull"

lemma fresh_accepts:
  "\<exists>t. accept_package zero_hash (the (rt_transfer fresh_runtime)) pair_boundary 10 sample_chunk = (t, Inr (2, zeros)) \<and>
     transfer_auth t = fresh_auth"
proof -
  have "check_package (the (rt_transfer fresh_runtime)) pair_boundary 10 sample_chunk = Inr sample_chunk"
    unfolding check_package_def sample_decodes Let_def
    by (simp add: fresh_runtime_def fresh_auth_def sample_package_def pair_transfer_def pair_boundary_def addressed_def checkpoint_value_def)
  then show ?thesis by (simp add: accept_package_def sample_fields fresh_runtime_def)
qed

lemma fresh_evidence:
  "transfer_auth t = fresh_auth \<Longrightarrow>
   \<exists>f. sender_freshness (fresh_runtime\<lparr>rt_transfer := Some t\<rparr>) t pair_boundary sample_chunk = (f, Inr ())"
  by (simp add: sender_freshness_def membershipEvidenceRequired_def fresh_auth_def pair_boundary_def package_evidence_def
      package_checkpoint_def sample_package_def checkpoint_value_def recordAuthenticatedEvidence_def fresh_runtime_def
      new_runtime_def pair_list_def deviceEntryById_def desk_def tablet_def members_def assertCurrent_def fresh_member_def put_def Let_def)

lemma fresh_commits:
  "\<exists>s'. transaction zero_hash sync_start_store ''acct'' (get_prop sample_chunk ''checkpoint'')
     (receive_body zero_hash sync_start_store (fresh_runtime\<lparr>rt_transfer := Some t, rt_freshness := f\<rparr>) sample_chunk []) = (s', Inr ())"
proof -
  have shape: "record_shape ''acct'' sync_start"
    by (simp add: record_shape_def sync_start_def claims_of_def checkpointValid_def checkpoint_value_def)
  have load: "load zero_hash sync_start_store ''acct'' = Inr (''acct'', Some (JsonText sync_start), sync_start)"
    using shape by (simp add: load_def acct_id sync_start_store_def) (simp add: sync_start_def)
  have key: "replay_key sample_chunk = ''desk:tablet:stream-000000001:2''" by code_simp
  have fields: "get_prop sample_chunk ''sequence'' = VInt 2" "get_prop sample_chunk ''checkpoint'' = checkpoint_value 0 zeros"
    by (simp_all add: sample_package_def)
  have cell: "cells sync_start_store (''sync-runtime'', ''acct'') = Some (JsonText sync_start)"
    by (simp add: sync_start_store_def write_cell_def)
  show ?thesis
    unfolding transaction_def load fields receive_body_def key
    by (simp add: cell fresh_runtime_def new_runtime_def tx_claim_def requireScope_def sync_start_def claims_of_def
        put_def write_body_def tx_writeState_def validateState_def durable_state_def checkpointValid_def checkpoint_value_def
        same_def strict_eq_def membersValid_def add_def putCheckpoint_def checkpoint_forward_def MAX_SAFE_INTEGER_def
        compareAndSwapRecords_def safe_int_def Let_def)
qed

lemma fresh_receives:
  "\<exists>rt' s'. receiveInternal zero_hash fresh_runtime sync_start_store pair_boundary 10 sample_chunk = (rt', s', Inr (2, zeros))"
proof -
  from fresh_accepts obtain t where t: "accept_package zero_hash (the (rt_transfer fresh_runtime)) pair_boundary 10 sample_chunk = (t, Inr (2, zeros))"
    "transfer_auth t = fresh_auth" by blast
  from fresh_evidence [OF t(2)] obtain f where f: "sender_freshness (fresh_runtime\<lparr>rt_transfer := Some t\<rparr>) t pair_boundary sample_chunk = (f, Inr ())"
    by blast
  from fresh_commits [where t = t and f = f] obtain s' where c: "transaction zero_hash sync_start_store ''acct'' (get_prop sample_chunk ''checkpoint'')
     (receive_body zero_hash sync_start_store (fresh_runtime\<lparr>rt_transfer := Some t, rt_freshness := f\<rparr>) sample_chunk []) = (s', Inr ())"
    by blast
  have run: "\<exists>u. rt_transfer fresh_runtime = Some u" "admission fresh_runtime = ''transfer''" "rt_expiresAt fresh_runtime = 50"
    "rt_scope fresh_runtime = ''acct''" by (simp_all add: fresh_runtime_def new_runtime_def)
  have "extractRecords (get_prop sample_chunk ''payload'') = Inr []" by (simp add: sample_package_def extractRecords_def)
  with t(1) f c run show ?thesis by (auto simp: receiveInternal_def atomic_def)
qed

theorem fresh_transfer_takes_one_message_id_witness:
  "\<exists>rt' s'. receiveInternal zero_hash fresh_runtime sync_start_store pair_boundary 10 sample_chunk = (rt', s', Inr (2, zeros)) \<and>
     (\<exists>m. snd (snd (receiveInternal zero_hash rt' s' pair_boundary 10 (set_prop sample_chunk ''messageId'' (VStr ''message-00000002'')))) = Inl m)"
proof -
  obtain rt' s' where first: "receiveInternal zero_hash fresh_runtime sync_start_store pair_boundary 10 sample_chunk = (rt', s', Inr (2, zeros))"
    using fresh_receives by blast
  have run: "rt_transfer fresh_runtime = Some (the (rt_transfer fresh_runtime))" by (simp add: fresh_runtime_def)
  have "\<exists>m. snd (snd (receiveInternal zero_hash rt' s' pair_boundary 10 (set_prop sample_chunk ''messageId'' (VStr ''message-00000002'')))) = Inl m"
    by (rule fresh_transfer_takes_one_message_id [OF first run])
      (simp_all add: fresh_runtime_def membershipEvidenceRequired_def fresh_auth_def sample_package_def put_def)
  with first show ?thesis by blast
qed

end
