(* ===== verification/Contacts.thy ===== *)
theory Contacts
  imports SyncRuntime
begin

text \<open>
  Contacts and the local account: base64url (\<open>service/src/crypto/base64url.ts\<close>),
  the registry of contact identities (\<open>identity/contactIdentityRegistry.ts\<close>), the
  verification codes and QR payloads (\<open>identity/verificationFoundation.ts\<close>) and the
  local account binding (\<open>identity/accountBinding.ts\<close>). A registry operation runs
  alone, as its queue makes it, on the record store of \<open>Storage\<close>.
\<close>

section \<open>Base64url\<close>

definition alphabet :: string where
  "alphabet = ''ABCDEFGHIJKLMNOPQRSTUVWXYZabcdefghijklmnopqrstuvwxyz0123456789-_''"

definition sextet_char :: "nat \<Rightarrow> char" where
  "sextet_char n = alphabet ! n"

text \<open>\<open>btoa\<close> with the two substitutions and the padding removed, three bytes at a time.\<close>

fun toBase64Url :: "u8 list \<Rightarrow> string" where
  "toBase64Url [] = []"
| "toBase64Url [a] = [sextet_char (unat a div 4), sextet_char (unat a mod 4 * 16)]"
| "toBase64Url [a, b] =
     [sextet_char (unat a div 4), sextet_char (unat a mod 4 * 16 + unat b div 16), sextet_char (unat b mod 16 * 4)]"
| "toBase64Url (a # b # c # bs) =
     [sextet_char (unat a div 4), sextet_char (unat a mod 4 * 16 + unat b div 16),
      sextet_char (unat b mod 16 * 4 + unat c div 64), sextet_char (unat c mod 64)] @ toBase64Url bs"

definition sextet :: "char \<Rightarrow> nat option" where
  "sextet c =
     (if 65 \<le> code c \<and> code c \<le> 90 then Some (code c - 65)
      else if 97 \<le> code c \<and> code c \<le> 122 then Some (code c - 71)
      else if is_digit c then Some (code c + 4)
      else if c = CHR ''-'' \<or> c = CHR ''+'' then Some 62
      else if c = CHR ''_'' \<or> c = CHR ''/'' then Some 63
      else None)"

fun sextets :: "string \<Rightarrow> nat list option" where
  "sextets [] = Some []"
| "sextets (c # cs) =
     (case sextet c of None \<Rightarrow> None | Some n \<Rightarrow> (case sextets cs of None \<Rightarrow> None | Some ns \<Rightarrow> Some (n # ns)))"

text \<open>The bytes of a sextet string; a rest of one sextet is not a byte, and \<open>atob\<close> throws.\<close>

fun sextet_bytes :: "nat list \<Rightarrow> u8 list option" where
  "sextet_bytes [] = Some []"
| "sextet_bytes [a] = None"
| "sextet_bytes [a, b] = Some [of_nat (a * 4 + b div 16)]"
| "sextet_bytes [a, b, c] = Some [of_nat (a * 4 + b div 16), of_nat (b mod 16 * 16 + c div 4)]"
| "sextet_bytes (a # b # c # d # ns) =
     map_option (\<lambda>bs. of_nat (a * 4 + b div 16) # of_nat (b mod 16 * 16 + c div 4) # of_nat (c mod 4 * 64 + d) # bs)
       (sextet_bytes ns)"

text \<open>
  \<open>atob\<close> ignores ASCII white space and up to two padding characters that
  complete a group of four.
\<close>

definition is_ascii_space :: "char \<Rightarrow> bool" where
  "is_ascii_space c \<longleftrightarrow> code c \<in> {9, 10, 12, 13, 32}"

definition drop_padding :: "string \<Rightarrow> string" where
  "drop_padding s =
     (if length s mod 4 \<noteq> 0 \<or> s = [] \<or> last s \<noteq> CHR ''='' then s
      else let t = butlast s in if t \<noteq> [] \<and> last t = CHR ''='' then butlast t else t)"

definition atob :: "string \<Rightarrow> u8 list option" where
  "atob s = (case sextets (drop_padding (filter (\<lambda>c. \<not> is_ascii_space c) s)) of None \<Rightarrow> None | Some ns \<Rightarrow> sextet_bytes ns)"

definition fromBase64Url :: "string \<Rightarrow> u8 list outcome" where
  "fromBase64Url s =
     (if s = [] then Inl ''Invalid base64url input: expected a non-empty string.''
      else some_or ''InvalidCharacterError'' (atob (s @ replicate ((4 - length s mod 4) mod 4) (CHR ''=''))))"

section \<open>The contact registry\<close>

definition CONTACT_RECORD :: string where
  "CONTACT_RECORD = ''contact-identity''"

definition stored_keys :: "string list" where
  "stored_keys = [''algorithm'', ''changeStatus'', ''contactId'', ''identityChangedAt'', ''identityId'', ''pendingIdentity'',
     ''publicKey'', ''verification'', ''verifiedAt'']"

definition stored_contact_ok :: "jsval \<Rightarrow> bool" where
  "stored_contact_ok v \<longleftrightarrow> is_plain_object v \<and> list_all (\<lambda>k. k \<in> set stored_keys) (object_keys v) \<and>
     is_string (get_prop v ''contactId'') \<and> is_string (get_prop v ''identityId'') \<and>
     is_string (get_prop v ''algorithm'') \<and> is_string (get_prop v ''publicKey'') \<and>
     get_prop v ''verification'' \<in> {VStr ''unknown'', VStr ''unverified'', VStr ''verified''} \<and>
     get_prop v ''changeStatus'' \<in> {VStr ''unchanged'', VStr ''changed-pending-review''}"

definition parseStored :: "cell \<Rightarrow> jsval outcome" where
  "parseStored c =
     and_then (parse_cell ''SyntaxError'' c) (\<lambda>v.
     and_then (require (stored_contact_ok v) ''Corrupted contact identity record.'') (\<lambda>_.
     and_then (fromBase64Url (str_of (get_prop v ''publicKey''))) (\<lambda>_. Inr v)))"

definition encodeStored :: "jsval \<Rightarrow> cell" where
  "encodeStored v = JsonText (json_image v)"

definition writeRecord :: "store \<Rightarrow> string \<Rightarrow> cell option \<Rightarrow> jsval \<Rightarrow> store \<times> unit outcome" where
  "writeRecord s i old v =
     (if casAvailable s then
        let (s', ok) = compareAndSwapRecords s [\<lparr>update_key = (CONTACT_RECORD, i), expected = old, next_cell = encodeStored v\<rparr>]
        in (s', require ok ''Contact state changed concurrently; review it again.'')
      else (write_cell s CONTACT_RECORD i (encodeStored v), Inr ()))"

text \<open>
  The recovery reset lowers a check that is not newer than the reset. The time
  of a check is an integer, as \<open>markVerified\<close> writes it; any other value counts
  as not newer.
\<close>

definition newer_than :: "jsval \<Rightarrow> int \<Rightarrow> bool" where
  "newer_than v t = (case v of VNum (Whole n) \<Rightarrow> t < n | VUndefined \<Rightarrow> t < 0 | VNull \<Rightarrow> t < 0 | _ \<Rightarrow> False)"

definition downgrade :: "jsval \<Rightarrow> jsval" where
  "downgrade v = set_prop (set_prop v ''verification'' (VStr ''unverified'')) ''verifiedAt'' VUndefined"

definition applyRecoveryReset :: "store \<Rightarrow> jsval \<Rightarrow> cell \<Rightarrow> bool \<Rightarrow> store \<times> jsval outcome" where
  "applyRecoveryReset s current old persist =
     (case read_cell s ''contact-trust-reset'' ''local'' of
        None \<Rightarrow> (s, Inr current)
      | Some marker \<Rightarrow>
          if get_prop current ''verification'' \<noteq> VStr ''verified'' then (s, Inr current)
          else
            (case and_then (parse_cell ''SyntaxError'' marker) (\<lambda>reset.
               and_then (member reset ''version'') (\<lambda>version.
               and_then (require (version = VInt 1 \<and> is_safe_num (get_prop reset ''resetAt''))
                 ''Contact trust reset state is invalid.'') (\<lambda>_. Inr (num_of (get_prop reset ''resetAt''))))) of
               Inl e \<Rightarrow> (s, Inl e)
             | Inr t \<Rightarrow>
                 if newer_than (get_prop current ''verifiedAt'') t then (s, Inr current)
                 else if persist
                 then let (s', r) = writeRecord s (str_of (get_prop current ''contactId'')) (Some old) (downgrade current)
                      in (s', and_then r (\<lambda>_. Inr (downgrade current)))
                 else (s, Inr (downgrade current))))"

record presented =
  pr_identityId :: string
  pr_algorithm :: string
  pr_publicKey :: "u8 list"

definition presented_props :: "presented \<Rightarrow> (string \<times> jsval) list" where
  "presented_props p = [(''identityId'', VStr (pr_identityId p)), (''algorithm'', VStr (pr_algorithm p)),
     (''publicKey'', VStr (toBase64Url (pr_publicKey p)))]"

datatype contact_event = First_seen jsval | Unchanged jsval | Identity_changed jsval jsval bool

definition first_contact :: "string \<Rightarrow> presented \<Rightarrow> jsval" where
  "first_contact i p = VObj ([(''contactId'', VStr i)] @ presented_props p @
     [(''verification'', VStr ''unverified''), (''changeStatus'', VStr ''unchanged'')])"

definition same_identity :: "jsval \<Rightarrow> presented \<Rightarrow> bool" where
  "same_identity v p \<longleftrightarrow> get_prop v ''identityId'' = VStr (pr_identityId p) \<and> get_prop v ''algorithm'' = VStr (pr_algorithm p) \<and>
     get_prop v ''publicKey'' = VStr (toBase64Url (pr_publicKey p))"

definition changed_contact :: "jsval \<Rightarrow> presented \<Rightarrow> int \<Rightarrow> jsval" where
  "changed_contact v p now =
     set_prop (set_prop (set_prop (set_prop v
       ''verification'' (if get_prop v ''verification'' = VStr ''verified'' then VStr ''unverified'' else get_prop v ''verification''))
       ''changeStatus'' (VStr ''changed-pending-review'')) ''identityChangedAt'' (VInt now)) ''pendingIdentity'' (VObj (presented_props p))"

definition observe :: "store \<Rightarrow> string \<Rightarrow> presented \<Rightarrow> int \<Rightarrow> store \<times> contact_event outcome" where
  "observe s i p now =
     (case read_cell s CONTACT_RECORD i of
        None \<Rightarrow>
          let (s', r) = writeRecord s i None (first_contact i p) in (s', and_then r (\<lambda>_. Inr (First_seen (first_contact i p))))
      | Some bytes \<Rightarrow>
          (case parseStored bytes of
             Inl e \<Rightarrow> (s, Inl e)
           | Inr known \<Rightarrow>
               (case applyRecoveryReset s known bytes True of
                  (s1, Inl e) \<Rightarrow> (s1, Inl e)
                | (s1, Inr current) \<Rightarrow>
                    if same_identity current p then (s1, Inr (Unchanged current))
                    else
                      let (s2, r) = writeRecord s1 i
                            (Some (if get_prop current ''verification'' = get_prop known ''verification'' then bytes else encodeStored current))
                            (changed_contact current p now)
                      in (s2, and_then r (\<lambda>_. Inr (Identity_changed (changed_contact current p now) (VObj (presented_props p))
                            (get_prop current ''verification'' = VStr ''verified'')))))))"

text \<open>Operations that need a stored contact.\<close>

definition known_contact :: "store \<Rightarrow> string \<Rightarrow> (cell \<times> jsval) outcome" where
  "known_contact s i =
     and_then (some_or ''Unknown contact identity.'' (read_cell s CONTACT_RECORD i)) (\<lambda>bytes.
     and_then (parseStored bytes) (\<lambda>v. Inr (bytes, v)))"

definition verifiable :: "jsval \<Rightarrow> string option \<Rightarrow> unit outcome" where
  "verifiable v expectedIdentity =
     and_then (require (case expectedIdentity of None \<Rightarrow> True | Some x \<Rightarrow> get_prop v ''identityId'' = VStr x)
         ''Contact identity changed during comparison.'') (\<lambda>_.
       require (get_prop v ''changeStatus'' = VStr ''unchanged'') ''Review the changed identity before verifying it.'')"

definition markVerified :: "store \<Rightarrow> string \<Rightarrow> string option \<Rightarrow> int \<Rightarrow> store \<times> unit outcome" where
  "markVerified s i expectedIdentity now =
     (case and_then (known_contact s i) (\<lambda>(bytes, v). and_then (verifiable v expectedIdentity) (\<lambda>_. Inr (bytes, v))) of
        Inl e \<Rightarrow> (s, Inl e)
      | Inr (bytes, v) \<Rightarrow>
          writeRecord s i (Some bytes) (set_prop (set_prop v ''verification'' (VStr ''verified'')) ''verifiedAt'' (VInt now)))"

definition markUnverified :: "store \<Rightarrow> string \<Rightarrow> store \<times> unit outcome" where
  "markUnverified s i =
     (case known_contact s i of
        Inl e \<Rightarrow> (s, Inl e)
      | Inr (bytes, v) \<Rightarrow> writeRecord s i (Some bytes) (downgrade v))"

definition get_contact :: "store \<Rightarrow> string \<Rightarrow> bool \<Rightarrow> store \<times> jsval option outcome" where
  "get_contact s i persist =
     (case read_cell s CONTACT_RECORD i of
        None \<Rightarrow> (s, Inr None)
      | Some bytes \<Rightarrow>
          (case parseStored bytes of
             Inl e \<Rightarrow> (s, Inl e)
           | Inr v \<Rightarrow> let (s', r) = applyRecoveryReset s v bytes persist in (s', and_then r (\<lambda>x. Inr (Some x)))))"

text \<open>No-op updates that bind another commit to the contact and the reset as they are now.\<close>

definition prepareVerifiedFileGuards :: "store \<Rightarrow> string \<Rightarrow> string \<Rightarrow> store \<times> record_update list outcome" where
  "prepareVerifiedFileGuards s i identityId =
     (if \<not> casAvailable s then (s, Inl ''Atomic file verification authority unavailable.'')
      else
        let reset = read_cell s ''contact-trust-reset'' ''local'' in
        case read_cell s CONTACT_RECORD i of
          None \<Rightarrow> (s, Inl ''File contact verification unavailable.'')
        | Some bytes \<Rightarrow>
            (case parseStored bytes of
               Inl e \<Rightarrow> (s, Inl e)
             | Inr v \<Rightarrow>
                 let (s', r) = applyRecoveryReset s v bytes True
                 in (s', and_then r (\<lambda>current.
                    and_then (require (get_prop current ''identityId'' = VStr identityId \<and>
                        get_prop current ''verification'' = VStr ''verified'' \<and> get_prop current ''changeStatus'' = VStr ''unchanged'')
                        ''Verified unchanged file contact required.'') (\<lambda>_.
                      Inr [\<lparr>update_key = (CONTACT_RECORD, i), expected = Some bytes, next_cell = bytes\<rparr>,
                        \<lparr>update_key = (''contact-trust-reset'', ''local''), expected = reset,
                         next_cell = (case reset of Some c \<Rightarrow> c
                           | None \<Rightarrow> JsonText (VObj [(''version'', VInt 1), (''resetAt'', VInt 0)]))\<rparr>])))))"

definition accepted_contact :: "string \<Rightarrow> jsval \<Rightarrow> jsval" where
  "accepted_contact i pending = VObj (fold (\<lambda>(k, v) ps. put k v ps)
     (object_props pending @ [(''verification'', VStr ''unverified''), (''changeStatus'', VStr ''unchanged'')]) [(''contactId'', VStr i)])"

definition acceptPendingChange :: "store \<Rightarrow> string \<Rightarrow> store \<times> unit outcome" where
  "acceptPendingChange s i =
     (case and_then (known_contact s i) (\<lambda>(bytes, v).
         and_then (require (truthy (get_prop v ''pendingIdentity'')) ''No pending identity change.'') (\<lambda>_. Inr (bytes, v))) of
        Inl e \<Rightarrow> (s, Inl e)
      | Inr (bytes, v) \<Rightarrow> writeRecord s i (Some bytes) (accepted_contact i (get_prop v ''pendingIdentity'')))"

section \<open>Verification codes\<close>

definition is_fingerprint_char :: "char \<Rightarrow> bool" where
  "is_fingerprint_char c \<longleftrightarrow> 65 \<le> code c \<and> code c \<le> 90 \<or> is_digit c \<or> c = CHR ''_'' \<or> c = CHR ''-''"

text \<open>\<open>/^K3 [A-Z0-9_-]+(?: [A-Z0-9_-]+)*$/\<close>: groups of the class, separated by single spaces.\<close>

fun groups_ok :: "bool \<Rightarrow> string \<Rightarrow> bool" where
  "groups_ok inside [] = inside"
| "groups_ok inside (c # cs) = (if c = CHR '' '' then inside \<and> groups_ok False cs else is_fingerprint_char c \<and> groups_ok True cs)"

definition fingerprint_ok :: "string \<Rightarrow> bool" where
  "fingerprint_ok f \<longleftrightarrow> 7 \<le> length f \<and> length f \<le> 160 \<and> take 3 f = ''K3 '' \<and> groups_ok False (drop 3 f)"

definition assertFingerprint :: "string \<Rightarrow> unit outcome" where
  "assertFingerprint f = require (fingerprint_ok f) ''Invalid verification fingerprint.''"

definition pad5 :: "string \<Rightarrow> string" where
  "pad5 s = replicate (5 - length s) (CHR ''0'') @ s"

text \<open>The six groups of the code; the separator between them is presentation.\<close>

definition deriveHumanVerificationCode :: "(u8 list \<Rightarrow> u8 list) \<Rightarrow> string \<Rightarrow> string \<Rightarrow> string list outcome" where
  "deriveHumanVerificationCode sha left right =
     and_then (assertFingerprint left) (\<lambda>_.
     and_then (assertFingerprint right) (\<lambda>_.
       let digest = sha (encode_utf8 (units_of (''k3ncrypt:relationship-comparison:v1'' @ NUL @
             stringify (VArr (map VStr (sort [left, right]))))))
       in Inr (map (\<lambda>i. pad5 (show_nat (unat (digest ! (i * 2)) * 256 + unat (digest ! (i * 2 + 1))))) [0..<6])))"

definition qr_value :: "string \<Rightarrow> jsval" where
  "qr_value f = VObj [(''version'', VInt 1), (''algorithm'', VStr ''vodozemac''), (''fingerprint'', VStr f)]"

definition encodeVerificationQrPayload :: "string \<Rightarrow> string outcome" where
  "encodeVerificationQrPayload f = and_then (assertFingerprint f) (\<lambda>_. Inr (stringify (qr_value f)))"

text \<open>The payload as text and what \<open>JSON.parse\<close> makes of it (\<open>None\<close> when it throws).\<close>

definition decodeVerificationQrPayload :: "string \<Rightarrow> jsval option \<Rightarrow> string outcome" where
  "decodeVerificationQrPayload encoded parsed =
     and_then (require (length encoded \<le> 512) ''Invalid verification payload.'') (\<lambda>_.
     and_then (some_or ''Invalid verification payload.'' parsed) (\<lambda>v.
     and_then (require (is_plain_object v \<and> join (sort (object_keys v)) = ''algorithm,fingerprint,version'' \<and>
         get_prop v ''version'' = VInt 1 \<and> get_prop v ''algorithm'' = VStr ''vodozemac'' \<and> is_string (get_prop v ''fingerprint''))
         ''Invalid verification payload.'') (\<lambda>_.
     and_then (assertFingerprint (str_of (get_prop v ''fingerprint''))) (\<lambda>_.
     and_then (require (encoded = stringify (qr_value (str_of (get_prop v ''fingerprint'')))) ''Invalid verification payload.'') (\<lambda>_.
       Inr (str_of (get_prop v ''fingerprint'')))))))"

definition verificationQrMatches :: "string \<Rightarrow> jsval option \<Rightarrow> string \<Rightarrow> bool" where
  "verificationQrMatches encoded parsed pinned = (decodeVerificationQrPayload encoded parsed = Inr pinned)"

definition verificationStateForContact :: "jsval \<Rightarrow> jsval" where
  "verificationStateForContact v =
     (if get_prop v ''changeStatus'' = VStr ''changed-pending-review'' then VStr ''changed-pending-review''
      else get_prop v ''verification'')"

section \<open>The account binding\<close>

definition BINDING_KEY :: "string \<times> string" where
  "BINDING_KEY = (''device-account-binding'', ''local'')"

definition binding_value :: "string \<Rightarrow> string \<Rightarrow> string \<Rightarrow> jsval" where
  "binding_value sc dev ident = VObj [(''version'', VInt 1), (''userScope'', VStr sc), (''deviceId'', VStr dev), (''identityReference'', VStr ident)]"

definition read_binding :: "store \<Rightarrow> string \<Rightarrow> jsval option outcome" where
  "read_binding s ident =
     (case cells s BINDING_KEY of
        None \<Rightarrow> Inr None
      | Some c \<Rightarrow>
          and_then (parse_cell ''SyntaxError'' c) (\<lambda>v.
          and_then (member v ''version'') (\<lambda>version.
          and_then (require (version = VInt 1 \<and> get_prop v ''identityReference'' = VStr ident \<and>
              truthy (get_prop v ''userScope'') \<and> truthy (get_prop v ''deviceId'')) ''Account identity binding rejected.'') (\<lambda>_.
            Inr (Some v)))))"

text \<open>The two random identifiers are arguments. Within one step the compare-and-swap cannot lose.\<close>

definition prior_device :: "snapshot \<Rightarrow> string \<Rightarrow> device_entry list" where
  "prior_device legacy ident = filter (\<lambda>e. publicIdentityReference e = ident) (devices (snap_list legacy))"

definition new_binding :: "string \<Rightarrow> snapshot option \<Rightarrow> string \<Rightarrow> string \<Rightarrow> jsval outcome" where
  "new_binding ident legacy random_scope random_device =
     (case legacy of
        None \<Rightarrow> Inr (binding_value (''account-'' @ random_scope) random_device ident)
      | Some l \<Rightarrow>
          (case prior_device l ident of
             [e] \<Rightarrow> Inr (binding_value (identityReference (snap_list l)) (deviceId e) ident)
           | _ \<Rightarrow> Inl ''Legacy device binding requires review.''))"

definition write_binding :: "store \<Rightarrow> cell option \<Rightarrow> jsval \<Rightarrow> store \<times> bool" where
  "write_binding s old v = compareAndSwapRecords s [\<lparr>update_key = BINDING_KEY, expected = old, next_cell = JsonText (json_image v)\<rparr>]"

definition loadAccountBinding ::
  "store \<Rightarrow> string \<Rightarrow> snapshot option \<Rightarrow> string \<Rightarrow> string \<Rightarrow> store \<times> jsval outcome"
where
  "loadAccountBinding s ident legacy random_scope random_device =
     (case read_binding s ident of
        Inl e \<Rightarrow> (s, Inl e)
      | Inr (Some v) \<Rightarrow> (s, Inr v)
      | Inr None \<Rightarrow>
          if \<not> casAvailable s then (s, Inl ''Atomic account binding storage unavailable.'')
          else
            (case new_binding ident legacy random_scope random_device of
               Inl e \<Rightarrow> (s, Inl e)
             | Inr v \<Rightarrow>
                 let (s', won) = write_binding s None v
                 in if won then (s', Inr v)
                    else (s', and_then (read_binding s' ident) (some_or ''Account binding unavailable.''))))"

definition is_hex_dash :: "char \<Rightarrow> bool" where
  "is_hex_dash c \<longleftrightarrow> is_lower_hex c \<or> 65 \<le> code c \<and> code c \<le> 70 \<or> c = CHR ''-''"

text \<open>A binding made by \<open>loadAccountBinding\<close> before pairing: a random scope and a random device.\<close>

definition bootstrap_binding :: "jsval \<Rightarrow> bool" where
  "bootstrap_binding v \<longleftrightarrow> take 8 (str_of (get_prop v ''userScope'')) = ''account-'' \<and>
     length (js_string (get_prop v ''deviceId'')) = 36 \<and> list_all is_hex_dash (js_string (get_prop v ''deviceId''))"

definition adoptApprovedAccountBinding :: "store \<Rightarrow> string \<Rightarrow> string \<Rightarrow> string \<Rightarrow> store \<times> jsval outcome" where
  "adoptApprovedAccountBinding s ident sc dev =
     (if ident = [] \<or> sc = [] \<or> dev = [] then (s, Inl ''Account membership is unavailable.'')
      else if \<not> casAvailable s then (s, Inl ''Atomic account binding storage unavailable.'')
      else
        let v = binding_value sc dev ident in
        case cells s BINDING_KEY of
          None \<Rightarrow>
            let (s', won) = write_binding s None v
            in (s', if won then Inr v else Inl ''Account membership conflict.'')
        | Some old \<Rightarrow>
            (case and_then (parse_cell ''SyntaxError'' old) (\<lambda>winner.
               and_then (member winner ''version'') (\<lambda>version.
               and_then (require (version = VInt 1 \<and> get_prop winner ''identityReference'' = VStr ident)
                 ''Account membership conflict.'') (\<lambda>_. Inr winner))) of
               Inl e \<Rightarrow> (s, Inl e)
             | Inr winner \<Rightarrow>
                 if get_prop winner ''userScope'' = VStr sc \<and> get_prop winner ''deviceId'' = VStr dev then (s, Inr winner)
                 else if \<not> is_string (get_prop winner ''userScope'') then (s, Inl ''TypeError'')
                 else if \<not> bootstrap_binding winner then (s, Inl ''Account membership conflict.'')
                 else
                   let (s', won) = write_binding s (Some old) v
                   in (s', if won then Inr v else Inl ''Account membership conflict.'')))"

section \<open>Base64url round trip\<close>

lemma alphabet_sextets:
  "list_all (\<lambda>p. sextet (snd p) = Some (fst p) \<and> \<not> is_ascii_space (snd p) \<and> snd p \<noteq> CHR ''='') (List.enumerate 0 alphabet)"
  by (simp add: alphabet_def sextet_def is_digit_def is_ascii_space_def code_def)

lemma sextet_char_code:
  assumes "n < 64"
  shows "sextet (sextet_char n) = Some n" "\<not> is_ascii_space (sextet_char n)" "sextet_char n \<noteq> CHR ''=''"
proof -
  have "length alphabet = 64" by (simp add: alphabet_def)
  with assms have "(n, sextet_char n) \<in> set (List.enumerate 0 alphabet)"
    using nth_mem [of n "List.enumerate 0 alphabet"] by (simp add: nth_enumerate_eq sextet_char_def)
  with alphabet_sextets show "sextet (sextet_char n) = Some n" "\<not> is_ascii_space (sextet_char n)" "sextet_char n \<noteq> CHR ''=''"
    unfolding list_all_iff by fastforce+
qed

lemma unat_u8: "unat (a :: u8) < 256"
  using unsigned_less [of a] by simp

lemma of_nat_unat_u8: "of_nat (unat (a :: u8)) = a"
  by simp

text \<open>The sextets of a byte string.\<close>

fun byte_sextets :: "u8 list \<Rightarrow> nat list" where
  "byte_sextets [] = []"
| "byte_sextets [a] = [unat a div 4, unat a mod 4 * 16]"
| "byte_sextets [a, b] = [unat a div 4, unat a mod 4 * 16 + unat b div 16, unat b mod 16 * 4]"
| "byte_sextets (a # b # c # bs) =
     [unat a div 4, unat a mod 4 * 16 + unat b div 16, unat b mod 16 * 4 + unat c div 64, unat c mod 64] @ byte_sextets bs"

lemma toBase64Url_sextets: "toBase64Url bs = map sextet_char (byte_sextets bs)"
  by (induction bs rule: byte_sextets.induct) simp_all

lemma sextet_bounds:
  fixes a b :: nat
  assumes "a < 256" "b < 256"
  shows "a div 4 < 64" "a mod 4 * 16 < 64" "a mod 4 * 16 + b div 16 < 64" "a mod 16 * 4 < 64" "a mod 16 * 4 + b div 64 < 64" "a mod 64 < 64"
  using assms by auto

lemma byte_sextets_bound: "list_all (\<lambda>n. n < 64) (byte_sextets bs)"
  by (induction bs rule: byte_sextets.induct)
    (simp_all only: byte_sextets.simps append.simps list.pred_inject sextet_bounds [OF unat_u8 unat_u8] simp_thms)

lemma part_arith:
  fixes a b :: nat
  assumes "a < 256" "b < 256"
  shows "(a mod 4 * 16) div 16 = a mod 4" "(a mod 4 * 16 + b div 16) div 16 = a mod 4"
    "(a mod 4 * 16 + b div 16) mod 16 = b div 16" "(a mod 16 * 4) div 4 = a mod 16"
    "(a mod 16 * 4 + b div 64) div 4 = a mod 16" "(a mod 16 * 4 + b div 64) mod 4 = b div 64"
  using assms by auto

lemma sextet_bytes_inverse: "sextet_bytes (byte_sextets bs) = Some bs"
  by (induction bs rule: byte_sextets.induct)
    (simp_all only: byte_sextets.simps sextet_bytes.simps append.simps part_arith [OF unat_u8 unat_u8]
      div_mult_mod_eq of_nat_unat_u8 option.map)

lemma sextets_chars: "list_all (\<lambda>n. n < 64) ns \<Longrightarrow> sextets (map sextet_char ns) = Some ns"
  by (induction ns) (simp_all add: sextet_char_code)

lemma byte_sextets_length: "length (byte_sextets bs) mod 4 \<noteq> 1"
proof (induction bs rule: byte_sextets.induct)
  case (4 a b c bs)
  have "(4 + n) mod 4 = n mod 4" for n :: nat by simp
  then have "length (byte_sextets (a # b # c # bs)) mod 4 = length (byte_sextets bs) mod 4"
    by (simp only: byte_sextets.simps length_append list.size add.commute) simp
  with 4 show ?case by simp
qed simp_all

lemma map_sextet_chars:
  assumes "list_all (\<lambda>n. n < 64) ns"
  shows "filter (\<lambda>c. \<not> is_ascii_space c) (map sextet_char ns) = map sextet_char ns" "CHR ''='' \<notin> set (map sextet_char ns)"
  using assms sextet_char_code(2,3) by (auto simp: list_all_iff filter_id_conv, metis)

lemma drop_padding_padded:
  assumes "CHR ''='' \<notin> set s" "length s mod 4 \<noteq> 1"
  shows "drop_padding (s @ replicate ((4 - length s mod 4) mod 4) (CHR ''='')) = s"
proof -
  have "length s mod 4 < 4" by simp
  with assms(2) consider "length s mod 4 = 0" | "length s mod 4 = 2" | "length s mod 4 = 3" by linarith
  then show ?thesis
  proof cases
    case 1
    have "s \<noteq> [] \<Longrightarrow> last s \<noteq> CHR ''=''" using assms(1) last_in_set by metis
    with 1 show ?thesis by (auto simp: drop_padding_def)
  next
    case 2
    then have "replicate ((4 - length s mod 4) mod 4) (CHR ''='') = [CHR ''='', CHR ''='']" by (simp add: numeral_2_eq_2)
    moreover have "length (s @ [CHR ''='', CHR ''='']) mod 4 = 0" using 2 by (simp add: mod_Suc)
    ultimately show ?thesis using 2 by (simp add: drop_padding_def butlast_append)
  next
    case 3
    then have "replicate ((4 - length s mod 4) mod 4) (CHR ''='') = [CHR ''='']" by simp
    moreover have "length (s @ [CHR ''='']) mod 4 = 0" using 3 by (simp add: mod_Suc)
    moreover have "s \<noteq> [] \<Longrightarrow> last s \<noteq> CHR ''=''" using assms(1) last_in_set by metis
    ultimately show ?thesis using 3 by (auto simp: drop_padding_def)
  qed
qed

lemma fromBase64Url_toBase64Url: "bs \<noteq> [] \<Longrightarrow> fromBase64Url (toBase64Url bs) = Inr bs"
proof -
  assume nonempty: "bs \<noteq> []"
  let ?s = "map sextet_char (byte_sextets bs)"
  have "byte_sextets bs \<noteq> []" using nonempty by (cases bs rule: byte_sextets.cases) simp_all
  note chars = map_sextet_chars [OF byte_sextets_bound [of bs]]
  have pad: "filter (\<lambda>c. \<not> is_ascii_space c) (replicate n (CHR ''='')) = replicate n (CHR ''='')" for n
    by (simp add: is_ascii_space_def code_def)
  have "drop_padding (filter (\<lambda>c. \<not> is_ascii_space c) (?s @ replicate ((4 - length ?s mod 4) mod 4) (CHR ''=''))) = ?s"
    using drop_padding_padded [OF chars(2)] byte_sextets_length [of bs] by (simp only: filter_append chars(1) pad length_map not_False_eq_True)
  then show ?thesis
    using \<open>byte_sextets bs \<noteq> []\<close> sextets_chars [OF byte_sextets_bound [of bs]] sextet_bytes_inverse [of bs]
    by (simp add: fromBase64Url_def toBase64Url_sextets atob_def)
qed

section \<open>Who raises the trust in a contact\<close>

datatype contact_op =
    Observe string presented int
  | Mark_verified string "string option" int
  | Mark_unverified string
  | Get_contact string bool
  | File_guards string string
  | Accept_change string
  | Sync_call sync_call
  | Reset_marker cell

text \<open>
  Registry operations, synchronisation transactions and a written reset marker,
  in any order on one store.
\<close>

fun contact_step :: "(u8 list \<Rightarrow> u8 list) \<Rightarrow> store \<Rightarrow> contact_op \<Rightarrow> store \<times> unit outcome" where
  "contact_step sha s (Observe i p now) = (let (s', r) = observe s i p now in (s', and_then r (\<lambda>_. Inr ())))"
| "contact_step sha s (Mark_verified i x now) = markVerified s i x now"
| "contact_step sha s (Mark_unverified i) = markUnverified s i"
| "contact_step sha s (Get_contact i b) = (let (s', r) = get_contact s i b in (s', and_then r (\<lambda>_. Inr ())))"
| "contact_step sha s (File_guards i x) = (let (s', r) = prepareVerifiedFileGuards s i x in (s', and_then r (\<lambda>_. Inr ())))"
| "contact_step sha s (Accept_change i) = acceptPendingChange s i"
| "contact_step sha s (Sync_call c) = (let (s', r) = sync_step sha s c in (s', and_then r (\<lambda>_. Inr ())))"
| "contact_step sha s (Reset_marker c) = (write_cell s ''contact-trust-reset'' ''local'' c, Inr ())"

definition lowers :: "store \<Rightarrow> store \<Rightarrow> bool" where
  "lowers s s' \<longleftrightarrow> (\<forall>i v. checked_identity s' i = Some v \<longrightarrow> checked_identity s i = Some v)"

lemma lowers_refl [simp]: "lowers s s"
  by (simp add: lowers_def)

lemma lowers_trans: "lowers s t \<Longrightarrow> lowers t u \<Longrightarrow> lowers s u"
  by (simp add: lowers_def)

lemma writeRecord_cell:
  "read_cell (fst (writeRecord s i old v)) ''contact-identity'' j = read_cell s ''contact-identity'' j \<or>
   j = i \<and> read_cell (fst (writeRecord s i old v)) ''contact-identity'' j = Some (encodeStored v)"
  by (auto simp: writeRecord_def compareAndSwapRecords_def CONTACT_RECORD_def read_cell_def write_cell_def)

lemma checked_cong:
  "read_cell s' ''contact-identity'' j = read_cell s ''contact-identity'' j \<Longrightarrow> checked_identity s' j = checked_identity s j"
  by (simp add: checked_identity_def contact_cell_def)

text \<open>Writing a record that is not checked lowers.\<close>

lemma unverified_image: "get_prop v ''verification'' \<noteq> VStr ''verified'' \<Longrightarrow> get_prop v ''verification'' \<noteq> VUndefined \<Longrightarrow>
    get_prop (json_image v) ''verification'' \<noteq> VStr ''verified''"
  by (cases "get_prop v ''verification''" rule: json_image.cases) (auto simp: get_json_image)

lemma writeRecord_lowers:
  assumes "get_prop v ''verification'' \<noteq> VStr ''verified''" "get_prop v ''verification'' \<noteq> VUndefined"
  shows "lowers s (fst (writeRecord s i old v))"
  unfolding lowers_def
proof (intro allI impI)
  fix j x
  assume checked: "checked_identity (fst (writeRecord s i old v)) j = Some x"
  show "checked_identity s j = Some x"
    using writeRecord_cell [of s i old v j]
  proof
    assume "j = i \<and> read_cell (fst (writeRecord s i old v)) ''contact-identity'' j = Some (encodeStored v)"
    then have "read_cell (fst (writeRecord s i old v)) ''contact-identity'' j = Some (encodeStored v)" by (rule conjunct2)
    then have "contact_cell (fst (writeRecord s i old v)) j = json_image v"
      unfolding contact_cell_def CONTACT_RECORD_def encodeStored_def by simp
    with checked unverified_image [OF assms] show ?thesis by (simp add: checked_identity_def split: if_splits)
  next
    assume "read_cell (fst (writeRecord s i old v)) ''contact-identity'' j = read_cell s ''contact-identity'' j"
    from checked_cong [OF this] checked show ?thesis by (rule subst)
  qed
qed

lemma downgrade_verification: "is_plain_object v \<Longrightarrow> get_prop (downgrade v) ''verification'' = VStr ''unverified''"
  by (simp add: downgrade_def)

lemma applyRecoveryReset_lowers: "is_plain_object v \<Longrightarrow> lowers s (fst (applyRecoveryReset s v old b))"
  using writeRecord_lowers [of "downgrade v" s] downgrade_verification [of v]
  by (auto simp: applyRecoveryReset_def Let_def split_beta split: option.splits sum.splits)

lemma applyRecoveryReset_value:
  "applyRecoveryReset s v old b = (s', Inr w) \<Longrightarrow> is_plain_object v \<Longrightarrow> w = v \<or> w = downgrade v"
  by (auto simp: applyRecoveryReset_def Let_def split_beta split: option.splits sum.splits if_splits)

lemma parseStored_ok: "parseStored c = Inr v \<Longrightarrow> stored_contact_ok v \<and> is_plain_object v \<and> c = JsonText v"
  by (cases c) (auto simp: parseStored_def stored_contact_ok_def)

lemma observe_lowers: "lowers s (fst (observe s i p now))"
proof (cases "read_cell s CONTACT_RECORD i")
  case None
  have "lowers s (fst (writeRecord s i None (first_contact i p)))"
    by (rule writeRecord_lowers) (simp_all add: first_contact_def presented_props_def)
  then show ?thesis by (simp add: observe_def None split_beta)
next
  case (Some bytes)
  show ?thesis
  proof (cases "parseStored bytes")
    case (Inr known)
    then have obj: "is_plain_object known" and ok: "stored_contact_ok known" using parseStored_ok by auto
    obtain s1 r where reset: "applyRecoveryReset s known bytes True = (s1, r)" by (rule prod.exhaust)
    have low: "lowers s s1" using applyRecoveryReset_lowers [OF obj, of s bytes True] reset by simp
    show ?thesis
    proof (cases r)
      case (Inl e)
      with low show ?thesis by (simp add: observe_def Some Inr reset)
    next
      case cur: (Inr current)
      from applyRecoveryReset_value [OF reset [unfolded cur] obj] obj
      have obj': "is_plain_object current" and "get_prop current ''verification'' \<noteq> VUndefined"
        using ok by (auto simp: downgrade_def stored_contact_ok_def)
      then have "lowers s1 (fst (writeRecord s1 i old (changed_contact current p now)))" for old
        by (intro writeRecord_lowers) (simp_all add: changed_contact_def)
      with low show ?thesis by (auto simp: observe_def Some Inr reset cur Let_def split_beta intro: lowers_trans)
    qed
  qed (simp add: observe_def Some)
qed

lemma contact_step_lowers:
  assumes "\<And>i x now. op \<noteq> Mark_verified i x now"
  shows "lowers s (fst (contact_step sha s op))"
proof (cases op)
  case (Mark_unverified i)
  show ?thesis
  proof (cases "known_contact s i")
    case (Inr bv)
    then have "is_plain_object (snd bv)" using parseStored_ok by (auto simp: known_contact_def)
    with Inr Mark_unverified show ?thesis
      by (auto simp: markUnverified_def split_beta downgrade_verification intro!: writeRecord_lowers)
  qed (simp add: Mark_unverified markUnverified_def)
next
  case (Get_contact i b)
  then show ?thesis
    using applyRecoveryReset_lowers parseStored_ok
    by (auto simp: get_contact_def split_beta Let_def split: option.splits sum.splits)
next
  case (File_guards i x)
  then show ?thesis
    using applyRecoveryReset_lowers parseStored_ok
    by (auto simp: prepareVerifiedFileGuards_def split_beta Let_def split: option.splits sum.splits)
next
  case (Accept_change i)
  have fields: "get_prop (accepted_contact i p) ''verification'' = VStr ''unverified''" for p
    by (simp add: accepted_contact_def)
  then show ?thesis
    unfolding Accept_change contact_step.simps acceptPendingChange_def
    by (auto split: sum.splits prod.splits intro!: writeRecord_lowers)
next
  case (Sync_call c)
  then show ?thesis using sync_step_contact [of s sha c] by (simp add: split_beta lowers_def contact_le_def)
next
  case (Reset_marker c)
  then show ?thesis by (simp add: lowers_def checked_identity_def contact_cell_def)
qed (use assms observe_lowers in \<open>auto simp: split_beta\<close>)


definition contact_run :: "(u8 list \<Rightarrow> u8 list) \<Rightarrow> store \<Rightarrow> contact_op list \<Rightarrow> store" where
  "contact_run sha s ops = foldl (\<lambda>s op. fst (contact_step sha s op)) s ops"

lemma contact_run_simps [simp]:
  "contact_run sha s [] = s" "contact_run sha s (ops @ [op]) = fst (contact_step sha (contact_run sha s ops) op)"
  by (simp_all add: contact_run_def)

text \<open>What a contact's record must look like for its check to be recorded.\<close>

definition checkable :: "store \<Rightarrow> string \<Rightarrow> string option \<Rightarrow> jsval \<Rightarrow> bool" where
  "checkable s i x v \<longleftrightarrow> get_prop (contact_cell s i) ''identityId'' = v \<and>
     get_prop (contact_cell s i) ''changeStatus'' = VStr ''unchanged'' \<and> (\<forall>e. x = Some e \<longrightarrow> v = VStr e)"

lemma markVerified_checks:
  assumes "checked_identity (fst (markVerified s i x now)) j = Some v" "checked_identity s j \<noteq> Some v"
  shows "j = i \<and> checkable s i x v"
proof (cases "and_then (known_contact s i) (\<lambda>(bytes, u). and_then (verifiable u x) (\<lambda>_. Inr (bytes, u)))")
  case (Inl e)
  with assms show ?thesis by (simp add: markVerified_def)
next
  case (Inr bu)
  then obtain bytes u where bu: "known_contact s i = Inr (bytes, u)" "verifiable u x = Inr ()"
    by (auto simp: verifiable_def)
  let ?w = "set_prop (set_prop u ''verification'' (VStr ''verified'')) ''verifiedAt'' (VInt now)"
  from bu have cell: "read_cell s ''contact-identity'' i = Some bytes" and parsed: "parseStored bytes = Inr u"
    by (auto simp: known_contact_def CONTACT_RECORD_def some_or_def split: option.splits)
  from parseStored_ok [OF parsed] have u: "is_plain_object u" "is_string (get_prop u ''identityId'')" "bytes = JsonText u"
    by (auto simp: stored_contact_ok_def)
  with cell have here: "contact_cell s i = u" by (simp add: contact_cell_def)
  have run: "markVerified s i x now = writeRecord s i (Some bytes) ?w" using bu by (simp add: markVerified_def)
  from writeRecord_cell [of s i "Some bytes" ?w j] assms run checked_cong
  have "j = i" and new: "read_cell (fst (markVerified s i x now)) ''contact-identity'' j = Some (encodeStored ?w)"
    by (metis, metis)
  from new have "contact_cell (fst (markVerified s i x now)) j = json_image ?w"
    unfolding contact_cell_def encodeStored_def by simp
  with assms(1) u have "get_prop u ''identityId'' = v"
    by (cases "get_prop u ''identityId''") (auto simp: checked_identity_def get_json_image split: if_splits)
  with bu(2) here \<open>j = i\<close> show ?thesis
    by (auto simp: checkable_def verifiable_def split: option.splits if_splits)
qed

lemma contact_step_checks:
  assumes "checked_identity (fst (contact_step sha s op)) i = Some v" "checked_identity s i \<noteq> Some v"
  shows "\<exists>x now. op = Mark_verified i x now \<and> checkable s i x v"
proof (cases "\<exists>j x now. op = Mark_verified j x now")
  case True
  with assms markVerified_checks show ?thesis by fastforce
next
  case False
  with contact_step_lowers [of op s sha] assms show ?thesis by (auto simp: lowers_def)
qed

text \<open>
  C23. In any sequence of registry operations, synchronisation transactions and
  recovery resets, a contact's identity comes to be recorded as checked only
  through a call of \<open>markVerified\<close> for that contact, made while exactly that
  identity was the stored one, with no change of it under review, and equal to
  the identity the caller compared, when it named one.
\<close>

theorem only_explicit_comparison_verifies:
  assumes "checked_identity (contact_run sha s ops) i = Some v" and "checked_identity s i \<noteq> Some v"
  shows "\<exists>pre x now post. ops = pre @ Mark_verified i x now # post \<and> checkable (contact_run sha s pre) i x v"
  using assms(1)
proof (induction ops rule: rev_induct)
  case Nil
  with assms(2) show ?case by simp
next
  case (snoc op ops)
  show ?case
  proof (cases "checked_identity (contact_run sha s ops) i = Some v")
    case True
    then obtain pre x now post where "ops = pre @ Mark_verified i x now # post" "checkable (contact_run sha s pre) i x v"
      using snoc.IH by blast
    then have "ops @ [op] = pre @ Mark_verified i x now # (post @ [op])" by simp
    with \<open>checkable _ i x v\<close> show ?thesis by blast
  next
    case False
    with contact_step_checks [of sha "contact_run sha s ops" op i v] snoc.prems
    show ?thesis by (auto intro: exI [of _ ops])
  qed
qed

text \<open>A store with one contact, and the operations of a comparison.\<close>

definition example_contact :: jsval where
  "example_contact = VObj [(''contactId'', VStr ''bob''), (''identityId'', VStr ''id1''), (''algorithm'', VStr ''vodozemac''),
     (''publicKey'', VStr ''AQ''), (''verification'', VStr ''unverified''), (''changeStatus'', VStr ''unchanged'')]"

definition example_contacts :: store where
  "example_contacts = \<lparr>cells = (\<lambda>k. if k = (''contact-identity'', ''bob'') then Some (JsonText example_contact) else None),
     casAvailable = True\<rparr>"

lemma example_contact_parses: "parseStored (JsonText example_contact) = Inr example_contact"
  by (simp add: parseStored_def example_contact_def stored_contact_ok_def stored_keys_def fromBase64Url_def atob_def drop_padding_def
      sextet_def is_ascii_space_def is_digit_def code_def numeral_2_eq_2)

theorem only_explicit_comparison_verifies_witness:
  "\<exists>pre x now post. [Mark_verified ''bob'' (Some ''id1'') 5] = pre @ Mark_verified ''bob'' x now # post \<and>
     checkable (contact_run (\<lambda>b. b) example_contacts pre) ''bob'' x (VStr ''id1'')"
proof (rule only_explicit_comparison_verifies)
  have known: "known_contact example_contacts ''bob'' = Inr (JsonText example_contact, example_contact)"
    using example_contact_parses by (simp add: known_contact_def example_contacts_def read_cell_def CONTACT_RECORD_def some_or_def)
  show "checked_identity (contact_run (\<lambda>b. b) example_contacts [Mark_verified ''bob'' (Some ''id1'') 5]) ''bob'' = Some (VStr ''id1'')"
    using known by (simp add: contact_run_def markVerified_def verifiable_def example_contact_def writeRecord_def compareAndSwapRecords_def
        example_contacts_def read_cell_def write_cell_def CONTACT_RECORD_def put_def encodeStored_def checked_identity_def contact_cell_def)
  show "checked_identity example_contacts ''bob'' \<noteq> Some (VStr ''id1'')"
    by (simp add: checked_identity_def contact_cell_def read_cell_def example_contacts_def example_contact_def)
qed

text \<open>
  Decoding the base64url text of any non-empty byte string gives the byte
  string back.
\<close>

theorem base64url_round_trip:
  "bs \<noteq> [] \<Longrightarrow> fromBase64Url (toBase64Url bs) = Inr bs"
  by (rule fromBase64Url_toBase64Url)

theorem base64url_round_trip_witness: "fromBase64Url (toBase64Url [255, 0, 62, 63]) = Inr [255, 0, 62, 63]"
  by (rule base64url_round_trip) simp

text \<open>
  A binding of an account made by \<open>loadAccountBinding\<close> and a random device
  identifier counts as a bootstrap binding, also when it was adopted from an
  approver: it can be replaced again.
\<close>

lemma adopted_binding_replaced_again:
  assumes cas: "casAvailable s" and here: "cells s BINDING_KEY = Some (JsonText (binding_value (''account-'' @ u) dev ident))"
    and dev: "length dev = 36" "list_all is_hex_dash dev" and new: "sc \<noteq> []" "d \<noteq> []" "ident \<noteq> []" "sc \<noteq> ''account-'' @ u"
  shows "snd (adoptApprovedAccountBinding s ident sc d) = Inr (binding_value sc d ident) \<and>
     cells (fst (adoptApprovedAccountBinding s ident sc d)) BINDING_KEY = Some (JsonText (binding_value sc d ident))"
  using assms
  by (simp add: adoptApprovedAccountBinding_def binding_value_def bootstrap_binding_def write_binding_def
      compareAndSwapRecords_def Let_def member_def)

end
