(* ===== verification/RoomMessages.thy ===== *)
theory RoomMessages
  imports Contacts
begin

text \<open>
  The authenticated wrapper of a room message (\<open>crypto/roomMessageV1.ts\<close>), the
  minimum wrapper version remembered for a contact
  (\<open>crypto/roomMessageVersionFloor.ts\<close>) and the protocol record of a
  conversation (\<open>crypto/conversationMode.ts\<close>).

  Byte arrays are lists of 8-bit words, \<open>TextDecoder\<close> with \<open>fatal\<close> set is a
  UTF-8 decoder that may reject. A message of \<open>RoomMessageDecodeError\<close> determines
  its failure class, so that errors are their messages here as elsewhere.
\<close>

section \<open>Decoding UTF-8\<close>

definition is_continuation :: "nat \<Rightarrow> bool" where
  "is_continuation b \<longleftrightarrow> 128 \<le> b \<and> b < 192"

text \<open>The code points of a byte sequence; overlong forms, surrogates and values beyond Unicode are errors.\<close>

fun decode_points :: "nat list \<Rightarrow> nat list option" where
  "decode_points [] = Some []"
| "decode_points (b # bs) =
     (if b < 128 then map_option ((#) b) (decode_points bs)
      else if 194 \<le> b \<and> b < 224 then
        (case bs of
           c # cs \<Rightarrow> if is_continuation c then map_option ((#) ((b - 192) * 64 + (c - 128))) (decode_points cs) else None
         | _ \<Rightarrow> None)
      else if 224 \<le> b \<and> b < 240 then
        (case bs of
           c # d # ds \<Rightarrow>
             let n = (b - 224) * 4096 + (c - 128) * 64 + (d - 128)
             in if is_continuation c \<and> is_continuation d \<and> 2048 \<le> n \<and> \<not> (55296 \<le> n \<and> n < 57344)
                then map_option ((#) n) (decode_points ds) else None
         | _ \<Rightarrow> None)
      else if 240 \<le> b \<and> b < 245 then
        (case bs of
           c # d # e # es \<Rightarrow>
             let n = (b - 240) * 262144 + (c - 128) * 4096 + (d - 128) * 64 + (e - 128)
             in if is_continuation c \<and> is_continuation d \<and> is_continuation e \<and> 65536 \<le> n \<and> n < 1114112
                then map_option ((#) n) (decode_points es) else None
         | _ \<Rightarrow> None)
      else None)"

text \<open>The decoder drops a leading byte order mark.\<close>

definition decode_utf8 :: "u8 list \<Rightarrow> nat list option" where
  "decode_utf8 bs = map_option (\<lambda>ps. case ps of p # r \<Rightarrow> if p = 65279 then r else ps | [] \<Rightarrow> []) (decode_points (map unat bs))"

definition ascii_bytes :: "string \<Rightarrow> u8 list" where
  "ascii_bytes s = encode_utf8 (units_of s)"

section \<open>The wrapper\<close>

definition ROOM_DOMAIN :: "u8 list" where
  "ROOM_DOMAIN = ascii_bytes (''K3NCRYPT/ROOM-MESSAGE'' @ NUL)"

definition ROOM_VERSION :: u8 where
  "ROOM_VERSION = 1"

definition HEADER_LENGTH :: nat where
  "HEADER_LENGTH = length ROOM_DOMAIN + 1 + 1 + 16 + 2 + 2 + 16 + 4"

definition IDENTITY_BYTES :: nat where
  "IDENTITY_BYTES = 56"

definition MAX_PAYLOAD_BYTES :: nat where
  "MAX_PAYLOAD_BYTES = 60 * 1024"

datatype message_kind = Text_kind | Attachment_reference | Join_introduction

fun kindByte :: "message_kind \<Rightarrow> u8" where
  "kindByte Text_kind = 1"
| "kindByte Attachment_reference = 2"
| "kindByte Join_introduction = 3"

definition byteKind :: "u8 \<Rightarrow> message_kind option" where
  "byteKind b = (if b = 1 then Some Text_kind else if b = 2 then Some Attachment_reference
     else if b = 3 then Some Join_introduction else None)"

record room_message =
  rm_room :: string
  rm_sender :: string
  rm_recipient :: string
  rm_event :: string
  rm_kind :: message_kind
  rm_payload :: "u8 list"

record room_expectation =
  ex_room :: string
  ex_sender :: string
  ex_recipient :: string

datatype decoded = Legacy "u8 list" | RoomV1 room_message

text \<open>\<open>/^[0-9a-f]{8}-[0-9a-f]{4}-[0-9a-f]{4}-[0-9a-f]{4}-[0-9a-f]{12}$/\<close>\<close>

definition uuid_groups :: "string \<Rightarrow> string" where
  "uuid_groups s = take 8 s @ take 4 (drop 9 s) @ take 4 (drop 14 s) @ take 4 (drop 19 s) @ drop 24 s"

definition uuid_ok :: "string \<Rightarrow> bool" where
  "uuid_ok s \<longleftrightarrow> length s = 36 \<and> s ! 8 = CHR ''-'' \<and> s ! 13 = CHR ''-'' \<and> s ! 18 = CHR ''-'' \<and> s ! 23 = CHR ''-'' \<and>
     list_all is_lower_hex (uuid_groups s)"

definition exactUuid :: "string \<Rightarrow> string \<Rightarrow> string outcome" where
  "exactUuid s field = (if uuid_ok s then Inr s else Inl (''Room message '' @ field @ '' is invalid.''))"

fun hex_pairs :: "string \<Rightarrow> u8 list" where
  "hex_pairs (a # b # r) = of_nat (hex_val a * 16 + hex_val b) # hex_pairs r"
| "hex_pairs r = []"

definition roomUuidBytes :: "string \<Rightarrow> u8 list outcome" where
  "roomUuidBytes s = and_then (exactUuid s ''room ID'') (\<lambda>_. Inr (hex_pairs (filter (\<lambda>c. c \<noteq> CHR ''-'') s)))"

definition uuid_text :: "u8 list \<Rightarrow> string" where
  "uuid_text bs =
     (let h = concat (map hex_byte bs)
      in if length h = 32
         then take 8 h @ ''-'' @ take 4 (drop 8 h) @ ''-'' @ take 4 (drop 12 h) @ ''-'' @ take 4 (drop 16 h) @ ''-'' @ drop 20 h
         else h)"

text \<open>\<open>/^K3 (?:[A-Z0-9_-]{4} ){10}[A-Z0-9_-]{3}$/\<close>\<close>

fun identity_groups :: "nat \<Rightarrow> string \<Rightarrow> bool" where
  "identity_groups 0 s \<longleftrightarrow> length s = 3 \<and> list_all is_fingerprint_char s"
| "identity_groups (Suc n) s \<longleftrightarrow> 5 \<le> length s \<and> list_all is_fingerprint_char (take 4 s) \<and> s ! 4 = CHR '' '' \<and>
     identity_groups n (drop 5 s)"

definition identity_ok :: "string \<Rightarrow> bool" where
  "identity_ok s \<longleftrightarrow> utf8_length s = IDENTITY_BYTES \<and> take 3 s = ''K3 '' \<and> identity_groups 10 (drop 3 s)"

definition identityBytes :: "string \<Rightarrow> string \<Rightarrow> u8 list outcome" where
  "identityBytes s field =
     (if identity_ok s then Inr (ascii_bytes s) else Inl (''Room message '' @ field @ '' identity reference is invalid.''))"

definition starts_with :: "u8 list \<Rightarrow> u8 list \<Rightarrow> bool" where
  "starts_with bs p \<longleftrightarrow> length p \<le> length bs \<and> take (length p) bs = p"

definition FILE_PREFIX :: "u8 list" where
  "FILE_PREFIX = ascii_bytes ''k3ncrypt-file-''"

definition INTRODUCTION_PREFIX :: "u8 list" where
  "INTRODUCTION_PREFIX = [0x00, 0x4b, 0x33, 0x4e, 0x43, 0x49, 0x01]"

definition validateKindPayload :: "message_kind \<Rightarrow> u8 list \<Rightarrow> unit outcome" where
  "validateKindPayload kind payload =
     and_then (require (length payload \<le> MAX_PAYLOAD_BYTES) ''Room message payload is invalid or too large.'') (\<lambda>_.
       case kind of
         Text_kind \<Rightarrow>
           and_then (require (decode_utf8 payload \<noteq> None) ''Room message text is not valid UTF-8.'') (\<lambda>_.
             require (\<not> starts_with payload FILE_PREFIX \<and> \<not> starts_with payload INTRODUCTION_PREFIX)
               ''Room message payload kind does not match its content.'')
       | Attachment_reference \<Rightarrow>
           require (starts_with payload FILE_PREFIX) ''Room message attachment reference kind is invalid.''
       | Join_introduction \<Rightarrow>
           require (starts_with payload INTRODUCTION_PREFIX) ''Room message introduction kind is invalid.'')"

definition u16be_bytes :: "nat \<Rightarrow> u8 list" where
  "u16be_bytes n = [of_nat (n div 256), of_nat n]"

definition encodeRoomMessageV1 :: "room_message \<Rightarrow> u8 list outcome" where
  "encodeRoomMessageV1 m =
     and_then (roomUuidBytes (rm_room m)) (\<lambda>room.
     and_then (identityBytes (rm_sender m) ''sender'') (\<lambda>sender.
     and_then (identityBytes (rm_recipient m) ''recipient'') (\<lambda>recipient.
     and_then (exactUuid (rm_event m) ''event ID'') (\<lambda>eventId.
     and_then (roomUuidBytes eventId) (\<lambda>event.
     and_then (validateKindPayload (rm_kind m) (rm_payload m)) (\<lambda>_.
     and_then (require (length sender = IDENTITY_BYTES \<and> length recipient = IDENTITY_BYTES)
       ''Room message identity reference is not canonical.'') (\<lambda>_.
       Inr (ROOM_DOMAIN @ [ROOM_VERSION, kindByte (rm_kind m)] @ room @ u16be_bytes (length sender) @ sender @
         u16be_bytes (length recipient) @ recipient @ event @ u32be_bytes (length (rm_payload m)) @ rm_payload m))))))))"

definition slice :: "u8 list \<Rightarrow> nat \<Rightarrow> nat \<Rightarrow> u8 list" where
  "slice bs offset n = take n (drop offset bs)"

definition getUint16 :: "u8 list \<Rightarrow> nat \<Rightarrow> nat" where
  "getUint16 bs offset = unat (bs ! offset) * 256 + unat (bs ! (offset + 1))"

definition getUint32 :: "u8 list \<Rightarrow> nat \<Rightarrow> nat" where
  "getUint32 bs offset = ((unat (bs ! offset) * 256 + unat (bs ! (offset + 1))) * 256 + unat (bs ! (offset + 2))) * 256
     + unat (bs ! (offset + 3))"

text \<open>
  \<open>decodeRoomMessage\<close> after the version and kind: the fields in the order of the
  frame, with the position of each.
\<close>

record frame_fields =
  ff_room :: string
  ff_sender :: "nat list"
  ff_recipient :: "nat list"
  ff_event :: string
  ff_payload :: "u8 list"

definition read_fields :: "u8 list \<Rightarrow> nat \<Rightarrow> frame_fields outcome" where
  "read_fields value start =
     (let room = uuid_text (slice value start 16); at_sender = start + 16; senderLength = getUint16 value at_sender
      in and_then (require (senderLength = IDENTITY_BYTES \<and> at_sender + 2 + senderLength + 2 \<le> length value)
           ''Room message sender binding is malformed.'') (\<lambda>_.
         and_then (some_or ''TypeError'' (decode_utf8 (slice value (at_sender + 2) senderLength))) (\<lambda>sender.
         let at_recipient = at_sender + 2 + senderLength; recipientLength = getUint16 value at_recipient
         in and_then (require (recipientLength = IDENTITY_BYTES \<and> at_recipient + 2 + recipientLength + 20 \<le> length value)
              ''Room message recipient binding is malformed.'') (\<lambda>_.
            and_then (some_or ''TypeError'' (decode_utf8 (slice value (at_recipient + 2) recipientLength))) (\<lambda>recipient.
            let at_event = at_recipient + 2 + recipientLength; event = uuid_text (slice value at_event 16);
                payloadLength = getUint32 value (at_event + 16); at_payload = at_event + 20
            in and_then (require (payloadLength \<le> MAX_PAYLOAD_BYTES \<and> at_payload + payloadLength = length value)
                 ''Room message payload length is malformed.'') (\<lambda>_.
               Inr \<lparr>ff_room = room, ff_sender = sender, ff_recipient = recipient, ff_event = event,
                    ff_payload = slice value at_payload payloadLength\<rparr>))))))"

definition decodeRoomMessage :: "u8 list \<Rightarrow> room_expectation \<Rightarrow> bool \<Rightarrow> decoded outcome" where
  "decodeRoomMessage value ex requireRoomMessageV1 =
     and_then (require (length value \<le> MAX_PAYLOAD_BYTES + HEADER_LENGTH + 2 * IDENTITY_BYTES)
       ''Room message is invalid or too large.'') (\<lambda>_.
     if \<not> starts_with value ROOM_DOMAIN then
       and_then (require (\<not> requireRoomMessageV1) ''A room-bound message is required.'') (\<lambda>_. Inr (Legacy value))
     else
       and_then (require (HEADER_LENGTH \<le> length value) ''Room message frame is malformed.'') (\<lambda>_.
       and_then (require (value ! length ROOM_DOMAIN = ROOM_VERSION) ''Room message version is unsupported.'') (\<lambda>_.
       and_then (some_or ''Room message payload kind is unsupported.'' (byteKind (value ! (length ROOM_DOMAIN + 1)))) (\<lambda>kind.
       and_then (read_fields value (length ROOM_DOMAIN + 2)) (\<lambda>f.
       and_then (identityBytes (ex_sender ex) ''expected sender'') (\<lambda>_.
       and_then (identityBytes (ex_recipient ex) ''expected recipient'') (\<lambda>_.
       and_then (exactUuid (ex_room ex) ''expected room ID'') (\<lambda>room.
       and_then (require (ff_room f = room \<and> ff_sender f = map code (ex_sender ex) \<and> ff_recipient f = map code (ex_recipient ex))
         ''Room message participant or room binding mismatch.'') (\<lambda>_.
       and_then (validateKindPayload kind (ff_payload f)) (\<lambda>_.
       and_then (identityBytes (ex_sender ex) ''sender'') (\<lambda>_.
       and_then (identityBytes (ex_recipient ex) ''recipient'') (\<lambda>_.
         Inr (RoomV1 \<lparr>rm_room = ff_room f, rm_sender = ex_sender ex, rm_recipient = ex_recipient ex, rm_event = ff_event f,
           rm_kind = kind, rm_payload = ff_payload f\<rparr>)))))))))))))"

definition roomMessageEventId :: "(u8 list \<Rightarrow> u8 list) \<Rightarrow> string \<Rightarrow> string \<Rightarrow> string \<Rightarrow> string outcome" where
  "roomMessageEventId sha256 roomId sender ev =
     and_then (roomUuidBytes roomId) (\<lambda>room.
     and_then (identityBytes sender ''sender'') (\<lambda>ident.
     and_then (exactUuid ev ''event ID'') (\<lambda>e.
     and_then (roomUuidBytes e) (\<lambda>event.
       Inr (''v1:'' @ concat (map hex_byte (sha256 (ascii_bytes (''K3NCRYPT/ROOM-MESSAGE-EVENT-ID'' @ NUL) @ room @
         u16be_bytes (length ident) @ ident @ event))))))))"

definition roomMessageCommitment :: "(u8 list \<Rightarrow> u8 list) \<Rightarrow> u8 list \<Rightarrow> string" where
  "roomMessageCommitment sha256 wrapper =
     ''v1:'' @ concat (map hex_byte (sha256 (ascii_bytes (''K3NCRYPT/ROOM-MESSAGE-COMMITMENT'' @ NUL) @ wrapper)))"

section \<open>The encodings are inverse to the decodings\<close>

lemma decode_points_ascii: "list_all (\<lambda>n. n < 128) ns \<Longrightarrow> decode_points ns = Some ns"
  by (induction ns) simp_all

text \<open>A sequence that decodes to ASCII is that ASCII text, and no decoding is longer than its bytes.\<close>

lemma decode_points_Cons:
  assumes "decode_points (b # bs) = Some ps"
  shows "(b < 128 \<and> (\<exists>qs. decode_points bs = Some qs \<and> ps = b # qs)) \<or>
    (\<exists>n qs rest. 128 \<le> n \<and> length rest < length bs \<and> decode_points rest = Some qs \<and> ps = n # qs)"
proof (cases "b < 128")
  case True
  with assms show ?thesis by auto
next
  case False
  have two: "128 \<le> (b - 192) * 64 + x" if "194 \<le> b" for x using that by linarith
  show ?thesis
  proof (cases "b < 224")
    case True
    with assms False obtain c cs qs where "bs = c # cs" "194 \<le> b" "decode_points cs = Some qs" "ps = ((b - 192) * 64 + (c - 128)) # qs"
      by (auto split: if_splits list.splits)
    with two show ?thesis by (intro disjI2 exI [of _ "(b - 192) * 64 + (c - 128)"] exI [of _ qs] exI [of _ cs]) simp
  next
    case not_two: False
    show ?thesis
    proof (cases "b < 240")
      case True
      with assms not_two False obtain c d ds n qs where "bs = c # d # ds" "2048 \<le> n" "decode_points ds = Some qs" "ps = n # qs"
        by (auto simp: Let_def split: if_splits list.splits)
      then show ?thesis by (intro disjI2 exI [of _ n] exI [of _ qs] exI [of _ ds]) simp
    next
      case not_three: False
      with assms not_two False obtain c d e es n qs where "bs = c # d # e # es" "65536 \<le> n" "decode_points es = Some qs" "ps = n # qs"
        by (auto simp: Let_def split: if_splits list.splits)
      then show ?thesis by (intro disjI2 exI [of _ n] exI [of _ qs] exI [of _ es]) simp
    qed
  qed
qed

lemma decode_points_only_ascii: "decode_points bs = Some ps \<Longrightarrow> list_all (\<lambda>n. n < 128) ps \<Longrightarrow> bs = ps"
proof (induction bs arbitrary: ps rule: length_induct)
  case (1 bs)
  show ?case
  proof (cases bs)
    case Nil
    with 1(2) show ?thesis by simp
  next
    case (Cons b r)
    from 1(2) [unfolded Cons] have "(b < 128 \<and> (\<exists>qs. decode_points r = Some qs \<and> ps = b # qs)) \<or> (\<exists>n qs. 128 \<le> n \<and> ps = n # qs)"
      by (blast dest: decode_points_Cons)
    with 1(3) obtain qs where "decode_points r = Some qs" "ps = b # qs" "list_all (\<lambda>n. n < 128) qs" by fastforce
    with 1(1) Cons show ?thesis by simp
  qed
qed

lemma decode_points_length: "decode_points bs = Some ps \<Longrightarrow> length ps \<le> length bs"
proof (induction bs arbitrary: ps rule: length_induct)
  case (1 bs)
  show ?case
  proof (cases bs)
    case (Cons b r)
    have "\<exists>n qs rest. length rest \<le> length r \<and> decode_points rest = Some qs \<and> ps = n # qs"
      using decode_points_Cons [OF 1(2) [unfolded Cons]] less_imp_le order_refl by blast
    then obtain n qs rest where "length rest \<le> length r" "decode_points rest = Some qs" "ps = n # qs" by blast
    moreover have "length qs \<le> length rest"
      using 1(1) Cons \<open>length rest \<le> length r\<close> \<open>decode_points rest = Some qs\<close> by (simp add: less_Suc_eq_le)
    ultimately show ?thesis using Cons by simp
  qed (use 1(2) in simp)
qed

definition is_ascii :: "string \<Rightarrow> bool" where
  "is_ascii s \<longleftrightarrow> list_all (\<lambda>c. code c < 128) s"

lemma ascii_bytes_ascii: "is_ascii s \<Longrightarrow> ascii_bytes s = map (\<lambda>c. of_nat (code c)) s"
  unfolding ascii_bytes_def encode_utf8_def utf8_def code_points_units is_ascii_def
  by (induction s) (simp_all add: utf8_point_def)

lemma map_unat_ascii: "map unat (map (\<lambda>c. of_nat (code c) :: u8) s) = map code s"
  using code_bound by (simp add: unat_of_nat)

lemma decode_ascii: "is_ascii s \<Longrightarrow> decode_utf8 (ascii_bytes s) = Some (map code s)"
proof -
  assume a: "is_ascii s"
  then have "decode_points (map code s) = Some (map code s)"
    by (intro decode_points_ascii) (simp add: is_ascii_def list_all_iff)
  with a show ?thesis
    unfolding decode_utf8_def ascii_bytes_ascii [OF a] map_unat_ascii
    by (cases s) (simp_all add: is_ascii_def)
qed

lemma decode_is_ascii:
  assumes "decode_utf8 bs = Some (map code s)" "is_ascii s" "length bs = length s"
  shows "bs = ascii_bytes s"
proof -
  from assms(1) obtain ps where ps: "decode_points (map unat bs) = Some ps"
    and d: "map code s = (case ps of p # r \<Rightarrow> if p = 65279 then r else ps | [] \<Rightarrow> [])"
    by (auto simp: decode_utf8_def)
  have "length ps \<le> length s" using decode_points_length [OF ps] assms(3) by simp
  with d have "ps = map code s"
    using arg_cong [OF d, of length] by (auto split: list.splits if_splits)
  with ps assms(2) have "map unat bs = map code s"
    by (intro decode_points_only_ascii [of "map unat bs" "map code s"]) (simp_all add: is_ascii_def list_all_iff)
  then have "map of_nat (map unat bs) = (map of_nat (map code s) :: u8 list)" by (rule arg_cong)
  then show ?thesis by (simp add: ascii_bytes_ascii [OF assms(2)] comp_def)
qed

lemma identity_groups_ascii: "identity_groups n s \<Longrightarrow> is_ascii s \<and> length s = 5 * n + 3"
proof (induction n s rule: identity_groups.induct)
  case (1 s)
  then show ?case by (auto simp: is_ascii_def list_all_iff is_fingerprint_char_def is_digit_def code_def)
next
  case (2 n s)
  then have "is_ascii (drop 5 s)" "length s = 5 * Suc n + 3" by auto
  moreover have "is_ascii (take 4 s)" "is_ascii [s ! 4]"
    using 2(2) by (auto simp: is_ascii_def list_all_iff is_fingerprint_char_def is_digit_def code_def)
  moreover have "s = take 4 s @ [s ! 4] @ drop 5 s"
    using \<open>length s = 5 * Suc n + 3\<close> Cons_nth_drop_Suc [of 4 s] by (simp add: append_take_drop_id)
  ultimately show ?case unfolding is_ascii_def by (metis list_all_append)
qed

lemma k3_ascii: "is_ascii ''K3 ''"
  by (simp add: is_ascii_def code_def)

lemma identity_ok_ascii: "identity_ok s \<Longrightarrow> is_ascii s \<and> length s = 56"
proof -
  assume "identity_ok s"
  then have "take 3 s = ''K3 ''" and "is_ascii (drop 3 s) \<and> length (drop 3 s) = 53"
    using identity_groups_ascii [of 10 "drop 3 s"] by (simp_all add: identity_ok_def)
  then have "s = ''K3 '' @ drop 3 s" by (metis append_take_drop_id)
  then have "is_ascii s" using \<open>is_ascii (drop 3 s) \<and> _\<close> unfolding is_ascii_def
    by (metis (no_types, lifting) list_all_append k3_ascii is_ascii_def)
  moreover from \<open>is_ascii (drop 3 s) \<and> _\<close> have "length s - 3 = 53" by simp
  then have "length s = 56" by linarith
  ultimately show ?thesis by blast
qed

text \<open>UUIDs.\<close>

lemma lower_hex_char: "is_lower_hex c \<Longrightarrow> hex_val c < 16 \<and> hex_digit (hex_val c) = c"
proof -
  assume "is_lower_hex c"
  then have "code c \<in> set ([48..<58] @ [97..<103])" unfolding set_append set_upt by (auto simp: is_lower_hex_def is_digit_def)
  moreover have "list_all (\<lambda>n. hex_val (char_of n) < 16 \<and> hex_digit (hex_val (char_of n)) = char_of n) ([48..<58] @ [97..<103])"
    by code_simp
  ultimately have "hex_val (char_of (code c)) < 16 \<and> hex_digit (hex_val (char_of (code c))) = char_of (code c)"
    unfolding list_all_iff by blast
  then show ?thesis by (simp add: code_def)
qed

lemma hex_pair_byte:
  assumes "is_lower_hex a" "is_lower_hex b"
  shows "hex_byte (of_nat (hex_val a * 16 + hex_val b)) = [a, b]"
proof -
  from lower_hex_char assms have l: "hex_val a < 16" "hex_val b < 16" by auto
  then have "hex_val a * 16 + hex_val b < 256" by linarith
  then have "unat (of_nat (hex_val a * 16 + hex_val b) :: u8) = hex_val a * 16 + hex_val b"
    by (simp add: unat_of_nat del: of_nat_add of_nat_mult)
  moreover have "(hex_val a * 16 + hex_val b) div 16 = hex_val a" "(hex_val a * 16 + hex_val b) mod 16 = hex_val b"
    using l by simp_all
  ultimately show ?thesis using lower_hex_char assms by (simp only: hex_byte_def)
qed

lemma hex_pairs_text: "even (length s) \<Longrightarrow> list_all is_lower_hex s \<Longrightarrow> concat (map hex_byte (hex_pairs s)) = s"
  by (induction s rule: hex_pairs.induct) (simp_all add: hex_pair_byte del: of_nat_add of_nat_mult)

lemma hex_pairs_bytes: "hex_pairs (concat (map hex_byte bs)) = bs"
proof (induction bs)
  case (Cons b bs)
  have "hex_val (hex_digit (unat b div 16)) * 16 + hex_val (hex_digit (unat b mod 16)) = unat b"
    using hex_val_digit [of "unat b div 16"] hex_val_digit [of "unat b mod 16"] unat_u8 [of b] by simp
  with Cons show ?case by (simp add: hex_byte_def)
qed simp

lemma hex_bytes_lower: "list_all is_lower_hex (concat (map hex_byte bs))"
proof -
  have "list_all (\<lambda>n. is_lower_hex (hex_digit n)) [0..<16]" by code_simp
  then have d: "n < 16 \<Longrightarrow> is_lower_hex (hex_digit n)" for n by (simp add: list_all_iff)
  have "unat b div 16 < 16" for b :: u8 using unat_u8 [of b] by simp
  with d show ?thesis by (induction bs) (simp_all add: hex_byte_def)
qed

lemma hex_bytes_length: "length (concat (map hex_byte bs)) = 2 * length bs"
  by (induction bs) (simp_all add: hex_byte_def)

lemma hex_pairs_length: "length (hex_pairs s) = length s div 2"
  by (induction s rule: hex_pairs.induct) simp_all

lemma uuid_shape:
  assumes "length s = 36"
  shows "s = take 8 s @ [s ! 8] @ take 4 (drop 9 s) @ [s ! 13] @ take 4 (drop 14 s) @ [s ! 18] @ take 4 (drop 19 s) @ [s ! 23] @ drop 24 s"
proof -
  have split: "drop i s = take n (drop i s) @ s ! (i + n) # drop (i + n + 1) s" if "i + n < 36" for i n
    using that assms Cons_nth_drop_Suc [of "i + n" s] append_take_drop_id [of n "drop i s"] by (simp add: add.commute)
  have "s = drop 0 s" by simp
  also have "\<dots> = take 8 s @ s ! 8 # drop 9 s" using split [of 0 8] by simp
  also have "drop 9 s = take 4 (drop 9 s) @ s ! 13 # drop 14 s" using split [of 9 4] by simp
  also have "drop 14 s = take 4 (drop 14 s) @ s ! 18 # drop 19 s" using split [of 14 4] by simp
  also have "drop 19 s = take 4 (drop 19 s) @ s ! 23 # drop 24 s" using split [of 19 4] by simp
  finally show ?thesis by simp
qed

lemma lower_hex_no_dash: "list_all is_lower_hex s \<Longrightarrow> filter (\<lambda>c. c \<noteq> CHR ''-'') s = s"
  by (auto simp: list_all_iff filter_id_conv is_lower_hex_def is_digit_def code_def)

lemma uuid_filter: "uuid_ok s \<Longrightarrow> filter (\<lambda>c. c \<noteq> CHR ''-'') s = uuid_groups s"
proof -
  assume ok: "uuid_ok s"
  then have "list_all is_lower_hex (uuid_groups s)" by (simp add: uuid_ok_def)
  then have "list_all is_lower_hex (take 8 s)" "list_all is_lower_hex (take 4 (drop 9 s))" "list_all is_lower_hex (take 4 (drop 14 s))"
    "list_all is_lower_hex (take 4 (drop 19 s))" "list_all is_lower_hex (drop 24 s)" by (simp_all only: uuid_groups_def list_all_append)
  note parts = this [THEN lower_hex_no_dash]
  have "filter (\<lambda>c. c \<noteq> CHR ''-'') s = filter (\<lambda>c. c \<noteq> CHR ''-'')
     (take 8 s @ ''-'' @ take 4 (drop 9 s) @ ''-'' @ take 4 (drop 14 s) @ ''-'' @ take 4 (drop 19 s) @ ''-'' @ drop 24 s)"
    using uuid_shape [of s] ok by (simp add: uuid_ok_def)
  also have "\<dots> = uuid_groups s" by (simp only: filter_append parts uuid_groups_def) simp
  finally show ?thesis .
qed

text \<open>The sixteen bytes of a UUID, and back.\<close>

lemma uuid_groups_length: "length s = 36 \<Longrightarrow> length (uuid_groups s) = 32"
  by (simp add: uuid_groups_def)

lemma uuid_round_trip:
  assumes ok: "uuid_ok s"
  shows "uuid_text (hex_pairs (filter (\<lambda>c. c \<noteq> CHR ''-'') s)) = s"
proof -
  have len: "length s = 36" and hex: "list_all is_lower_hex (uuid_groups s)" using ok by (simp_all add: uuid_ok_def)
  have htext: "concat (map hex_byte (hex_pairs (uuid_groups s))) = uuid_groups s"
    using hex uuid_groups_length [OF len] by (intro hex_pairs_text) simp_all
  have "uuid_text (hex_pairs (uuid_groups s)) =
    take 8 s @ ''-'' @ take 4 (drop 9 s) @ ''-'' @ take 4 (drop 14 s) @ ''-'' @ take 4 (drop 19 s) @ ''-'' @ drop 24 s"
    unfolding uuid_text_def htext Let_def using len by (simp add: uuid_groups_def)
  with uuid_shape [OF len] ok show ?thesis by (simp add: uuid_filter uuid_ok_def)
qed

lemma uuid_text_ok:
  assumes "length bs = 16"
  shows "uuid_ok (uuid_text bs)" "hex_pairs (filter (\<lambda>c. c \<noteq> CHR ''-'') (uuid_text bs)) = bs"
proof -
  define h where "h = concat (map hex_byte bs)"
  have h: "length h = 32" "list_all is_lower_hex h" "hex_pairs h = bs"
    using assms hex_bytes_length hex_bytes_lower hex_pairs_bytes by (simp_all add: h_def)
  have htext: "uuid_text bs = take 8 h @ ''-'' @ take 4 (drop 8 h) @ ''-'' @ take 4 (drop 12 h) @ ''-'' @ take 4 (drop 16 h) @ ''-'' @ drop 20 h"
    using h(1) by (simp add: uuid_text_def h_def Let_def)
  have "h = take 8 h @ take 4 (drop 8 h) @ take 4 (drop 12 h) @ take 4 (drop 16 h) @ drop 20 h"
  proof -
    have split: "drop i h = take n (drop i h) @ drop (i + n) h" for i n
      by (metis append_take_drop_id drop_drop add.commute)
    have "h = take 8 h @ drop 8 h" by simp
    also have "drop 8 h = take 4 (drop 8 h) @ drop 12 h" using split [of 8 4] by simp
    also have "drop 12 h = take 4 (drop 12 h) @ drop 16 h" using split [of 12 4] by simp
    also have "drop 16 h = take 4 (drop 16 h) @ drop 20 h" using split [of 16 4] by simp
    finally show ?thesis by simp
  qed
  then have groups: "uuid_groups (uuid_text bs) = h" using h(1) by (simp add: htext uuid_groups_def)
  then show ok: "uuid_ok (uuid_text bs)" using h(1,2) by (simp add: uuid_ok_def) (simp add: htext nth_append)
  show "hex_pairs (filter (\<lambda>c. c \<noteq> CHR ''-'') (uuid_text bs)) = bs" using h(3) groups uuid_filter [OF ok] by simp
qed

text \<open>The parts of a frame.\<close>

lemma slice_middle: "length xs = i \<Longrightarrow> length ys = n \<Longrightarrow> slice (xs @ ys @ zs) i n = ys"
  by (auto simp: slice_def)

lemma slice_last: "length xs = i \<Longrightarrow> length ys = n \<Longrightarrow> slice (xs @ ys) i n = ys"
  by (auto simp: slice_def)

lemma slice_length: "i + n \<le> length v \<Longrightarrow> length (slice v i n) = n"
  by (simp add: slice_def)

lemma drop_slice: "drop i v = slice v i n @ drop (i + n) v"
  by (metis append_take_drop_id drop_drop slice_def add.commute)

lemma unat_of_nat_u8: "unat (of_nat n :: u8) = n mod 256"
  by (simp add: unat_of_nat)

lemma getUint16_frame: "length xs = i \<Longrightarrow> n < 65536 \<Longrightarrow> getUint16 (xs @ u16be_bytes n @ zs) i = n"
proof -
  assume "length xs = i" "n < 65536"
  moreover have "n div 256 mod 256 * 256 + n mod 256 = n" using \<open>n < 65536\<close> by simp
  ultimately show ?thesis by (auto simp: getUint16_def u16be_bytes_def nth_append unat_of_nat_u8)
qed

lemma getUint32_frame: "length xs = i \<Longrightarrow> n < 4294967296 \<Longrightarrow> getUint32 (xs @ u32be_bytes n @ zs) i = n"
proof -
  assume i: "length xs = i" and n: "n < 4294967296"
  have a: "n div 16777216 mod 256 = n div 16777216" using n by simp
  have b: "n div 16777216 * 256 + n div 65536 mod 256 = n div 65536"
    using div_mult_mod_eq [of "n div 65536" 256] by (simp add: div_mult2_eq [symmetric])
  have c: "n div 65536 * 256 + n div 256 mod 256 = n div 256"
    using div_mult_mod_eq [of "n div 256" 256] by (simp add: div_mult2_eq [symmetric])
  have d: "n div 256 * 256 + n mod 256 = n" by (rule div_mult_mod_eq)
  have "(xs @ u32be_bytes n @ zs) ! i = of_nat (n div 16777216)" "(xs @ u32be_bytes n @ zs) ! (i + 1) = of_nat (n div 65536)"
    "(xs @ u32be_bytes n @ zs) ! (i + 2) = of_nat (n div 256)" "(xs @ u32be_bytes n @ zs) ! (i + 3) = of_nat n"
    using i by (auto simp: u32be_bytes_def nth_append)
  then show ?thesis by (simp only: getUint32_def unat_of_nat_u8 a b c d)
qed

lemma slice_two: "i + 2 \<le> length v \<Longrightarrow> slice v i 2 = [v ! i, v ! (i + 1)]"
  by (simp add: slice_def numeral_2_eq_2 take_Suc_conv_app_nth nth_drop)

lemma slice_four: "i + 4 \<le> length v \<Longrightarrow> slice v i 4 = [v ! i, v ! (i + 1), v ! (i + 2), v ! (i + 3)]"
  by (simp add: slice_def eval_nat_numeral take_Suc_conv_app_nth nth_drop)

lemma byte_parts: "(of_nat (x * 256 + unat b) :: u8) = b" "(x * 256 + unat (b :: u8)) div 256 = x"
proof -
  have "unat (of_nat (x * 256 + unat b) :: u8) = unat b" using unat_u8 [of b] by (simp add: unat_of_nat_u8 del: of_nat_add of_nat_mult)
  then show "(of_nat (x * 256 + unat b) :: u8) = b" by (rule unsigned_word_eqI)
qed (use unat_u8 [of b] in simp)

lemma u16_slice:
  assumes "i + 2 \<le> length v"
  shows "slice v i 2 = u16be_bytes (getUint16 v i)"
  by (simp only: slice_two [OF assms] u16be_bytes_def getUint16_def byte_parts of_nat_unat_u8)

lemma u32_slice:
  assumes "i + 4 \<le> length v"
  shows "slice v i 4 = u32be_bytes (getUint32 v i)"
proof -
  have "n div 65536 = n div 256 div 256" "n div 16777216 = n div 256 div 256 div 256" for n :: nat
    by (simp_all add: div_mult2_eq [symmetric])
  then show ?thesis
    by (simp only: slice_four [OF assms] u32be_bytes_def getUint32_def byte_parts of_nat_unat_u8)
qed

definition frame :: "u8 list \<Rightarrow> u8 list \<Rightarrow> u8 list \<Rightarrow> u8 list \<Rightarrow> u8 list \<Rightarrow> u8 list \<Rightarrow> u8 list" where
  "frame start room sender recipient event payload =
     start @ room @ u16be_bytes (length sender) @ sender @ u16be_bytes (length recipient) @ recipient @ event @
       u32be_bytes (length payload) @ payload"

lemma frame_parts:
  assumes "length start = 24" "length room = 16" "length sender = 56" "length recipient = 56" "length event = 16"
    "length payload \<le> MAX_PAYLOAD_BYTES"
  shows "slice (frame start room sender recipient event payload) 24 16 = room"
    "getUint16 (frame start room sender recipient event payload) 40 = 56"
    "slice (frame start room sender recipient event payload) 42 56 = sender"
    "getUint16 (frame start room sender recipient event payload) 98 = 56"
    "slice (frame start room sender recipient event payload) 100 56 = recipient"
    "slice (frame start room sender recipient event payload) 156 16 = event"
    "getUint32 (frame start room sender recipient event payload) 172 = length payload"
    "slice (frame start room sender recipient event payload) 176 (length payload) = payload"
    "length (frame start room sender recipient event payload) = 176 + length payload"
proof -
  let ?s = "u16be_bytes (length sender)" and ?r = "u16be_bytes (length recipient)" and ?p = "u32be_bytes (length payload)"
  have len: "length (u16be_bytes n) = 2" "length (u32be_bytes n) = 4" for n by (simp_all add: u16be_bytes_def u32be_bytes_def)
  show "slice (frame start room sender recipient event payload) 24 16 = room"
    unfolding frame_def by (rule slice_middle) (simp_all add: assms)
  have "getUint16 ((start @ room) @ ?s @ (sender @ ?r @ recipient @ event @ ?p @ payload)) 40 = length sender"
    by (rule getUint16_frame) (simp_all add: assms)
  then show "getUint16 (frame start room sender recipient event payload) 40 = 56" by (simp add: frame_def assms)
  have "slice ((start @ room @ ?s) @ sender @ (?r @ recipient @ event @ ?p @ payload)) 42 56 = sender"
    by (rule slice_middle) (simp_all add: assms len)
  then show "slice (frame start room sender recipient event payload) 42 56 = sender" by (simp add: frame_def)
  have "getUint16 ((start @ room @ ?s @ sender) @ ?r @ (recipient @ event @ ?p @ payload)) 98 = length recipient"
    by (rule getUint16_frame) (simp_all add: assms len)
  then show "getUint16 (frame start room sender recipient event payload) 98 = 56" by (simp add: frame_def assms)
  have "slice ((start @ room @ ?s @ sender @ ?r) @ recipient @ (event @ ?p @ payload)) 100 56 = recipient"
    by (rule slice_middle) (simp_all add: assms len)
  then show "slice (frame start room sender recipient event payload) 100 56 = recipient" by (simp add: frame_def)
  have "slice ((start @ room @ ?s @ sender @ ?r @ recipient) @ event @ (?p @ payload)) 156 16 = event"
    by (rule slice_middle) (simp_all add: assms len)
  then show "slice (frame start room sender recipient event payload) 156 16 = event" by (simp add: frame_def)
  have "getUint32 ((start @ room @ ?s @ sender @ ?r @ recipient @ event) @ ?p @ payload) 172 = length payload"
    by (rule getUint32_frame) (use assms in \<open>simp_all add: len MAX_PAYLOAD_BYTES_def\<close>)
  then show "getUint32 (frame start room sender recipient event payload) 172 = length payload" by (simp add: frame_def)
  have "slice ((start @ room @ ?s @ sender @ ?r @ recipient @ event @ ?p) @ payload) 176 (length payload) = payload"
    by (rule slice_last) (simp_all add: assms len)
  then show "slice (frame start room sender recipient event payload) 176 (length payload) = payload" by (simp add: frame_def)
  show "length (frame start room sender recipient event payload) = 176 + length payload"
    by (simp add: frame_def assms len)
qed

text \<open>Reading the fields of a frame, and what was read when reading succeeded.\<close>

lemma read_fields_frame:
  assumes "length start = 24" "length room = 16" "length sender = 56" "length recipient = 56" "length event = 16"
    "length payload \<le> MAX_PAYLOAD_BYTES" "decode_utf8 sender = Some a" "decode_utf8 recipient = Some b"
  shows "read_fields (frame start room sender recipient event payload) 24 =
    Inr \<lparr>ff_room = uuid_text room, ff_sender = a, ff_recipient = b, ff_event = uuid_text event, ff_payload = payload\<rparr>"
  using assms by (simp add: read_fields_def Let_def frame_parts IDENTITY_BYTES_def)

lemma read_fields_ok:
  assumes "read_fields v 24 = Inr f" "64 \<le> length v"
  shows "\<exists>room sender recipient event. length room = 16 \<and> length sender = 56 \<and> length recipient = 56 \<and> length event = 16 \<and>
    v = frame (take 24 v) room sender recipient event (ff_payload f) \<and> length (ff_payload f) \<le> MAX_PAYLOAD_BYTES \<and>
    decode_utf8 sender = Some (ff_sender f) \<and> decode_utf8 recipient = Some (ff_recipient f) \<and>
    ff_room f = uuid_text room \<and> ff_event f = uuid_text event"
proof -
  let ?n = "getUint32 v 172"
  from assms(1) have s: "getUint16 v 40 = 56" "decode_utf8 (slice v 42 56) = Some (ff_sender f)"
    and r: "getUint16 v 98 = 56" "decode_utf8 (slice v 100 56) = Some (ff_recipient f)"
    and n: "?n \<le> MAX_PAYLOAD_BYTES" "length v = 176 + ?n" and p: "ff_payload f = slice v 176 ?n"
    and u: "ff_room f = uuid_text (slice v 24 16)" "ff_event f = uuid_text (slice v 156 16)"
    by (auto simp: read_fields_def Let_def IDENTITY_BYTES_def)
  have "v = take 24 v @ drop 24 v" by simp
  also have "drop 24 v = slice v 24 16 @ drop 40 v" using drop_slice [of 24 v 16] by simp
  also have "drop 40 v = u16be_bytes 56 @ drop 42 v" using drop_slice [of 40 v 2] u16_slice [of 40 v] s n(2) by simp
  also have "drop 42 v = slice v 42 56 @ drop 98 v" using drop_slice [of 42 v 56] by simp
  also have "drop 98 v = u16be_bytes 56 @ drop 100 v" using drop_slice [of 98 v 2] u16_slice [of 98 v] r n(2) by simp
  also have "drop 100 v = slice v 100 56 @ drop 156 v" using drop_slice [of 100 v 56] by simp
  also have "drop 156 v = slice v 156 16 @ drop 172 v" using drop_slice [of 156 v 16] by simp
  also have "drop 172 v = u32be_bytes ?n @ drop 176 v" using drop_slice [of 172 v 4] u32_slice [of 172 v] n(2) by simp
  also have "drop 176 v = slice v 176 ?n" using n(2) by (simp add: slice_def)
  finally have "v = frame (take 24 v) (slice v 24 16) (slice v 42 56) (slice v 100 56) (slice v 156 16) (ff_payload f)"
    using n(2) by (simp add: frame_def p slice_length)
  with s r n p u show ?thesis
    by (intro exI [of _ "slice v 24 16"] exI [of _ "slice v 42 56"] exI [of _ "slice v 100 56"] exI [of _ "slice v 156 16"])
      (simp add: slice_length)
qed

definition header :: "message_kind \<Rightarrow> u8 list" where
  "header k = ROOM_DOMAIN @ [ROOM_VERSION, kindByte k]"

lemma room_domain_length: "length ROOM_DOMAIN = 22"
proof -
  have "length ROOM_DOMAIN = utf8_length (''K3NCRYPT/ROOM-MESSAGE'' @ NUL)"
    by (simp only: ROOM_DOMAIN_def ascii_bytes_def utf8_length_def)
  also have "\<dots> = 22" by (simp add: NUL_def code_def)
  finally show ?thesis .
qed

definition uuid_bytes :: "string \<Rightarrow> u8 list" where
  "uuid_bytes s = hex_pairs (filter (\<lambda>c. c \<noteq> CHR ''-'') s)"

lemma uuid_bytes_length: "uuid_ok s \<Longrightarrow> length (uuid_bytes s) = 16"
  by (simp add: uuid_bytes_def uuid_filter hex_pairs_length uuid_ok_def uuid_groups_length)

lemma identity_bytes_length: "identity_ok s \<Longrightarrow> length (ascii_bytes s) = 56"
  by (simp add: identity_ok_def IDENTITY_BYTES_def utf8_length_def ascii_bytes_def)

lemma encode_frame:
  "encodeRoomMessageV1 m = Inr v \<longleftrightarrow> uuid_ok (rm_room m) \<and> identity_ok (rm_sender m) \<and> identity_ok (rm_recipient m) \<and>
     uuid_ok (rm_event m) \<and> validateKindPayload (rm_kind m) (rm_payload m) = Inr () \<and>
     v = frame (header (rm_kind m)) (uuid_bytes (rm_room m)) (ascii_bytes (rm_sender m)) (ascii_bytes (rm_recipient m))
       (uuid_bytes (rm_event m)) (rm_payload m)"
  by (auto simp: encodeRoomMessageV1_def roomUuidBytes_def exactUuid_def identityBytes_def frame_def header_def uuid_bytes_def
      identity_bytes_length IDENTITY_BYTES_def split: if_splits)

lemma byteKind_kindByte [simp]: "byteKind b = Some k \<longleftrightarrow> b = kindByte k"
  by (cases k) (auto simp: byteKind_def)

lemma payload_bound: "validateKindPayload k p = Inr () \<Longrightarrow> length p \<le> MAX_PAYLOAD_BYTES"
  by (simp add: validateKindPayload_def)

lemma header_frame:
  "starts_with (frame (header k) a b c d e) ROOM_DOMAIN" "frame (header k) a b c d e ! 22 = ROOM_VERSION"
  "frame (header k) a b c d e ! 23 = kindByte k"
  using room_domain_length by (simp_all add: starts_with_def frame_def header_def nth_append)

lemma header_take:
  assumes "starts_with v ROOM_DOMAIN" "v ! 22 = ROOM_VERSION" "v ! 23 = kindByte k" "64 \<le> length v"
  shows "take 24 v = header k"
proof -
  have "take 24 v = take 22 v @ [v ! 22, v ! 23]" using assms(4) take_Suc_conv_app_nth [of 23 v] take_Suc_conv_app_nth [of 22 v] by simp
  with assms room_domain_length show ?thesis by (simp add: starts_with_def header_def)
qed

lemma decode_encode:
  assumes "encodeRoomMessageV1 m = Inr v"
  shows "decodeRoomMessage v \<lparr>ex_room = rm_room m, ex_sender = rm_sender m, ex_recipient = rm_recipient m\<rparr> req = Inr (RoomV1 m)"
proof -
  from assms have ok: "uuid_ok (rm_room m)" "uuid_ok (rm_event m)" "identity_ok (rm_sender m)" "identity_ok (rm_recipient m)"
    "validateKindPayload (rm_kind m) (rm_payload m) = Inr ()"
    and v: "v = frame (header (rm_kind m)) (uuid_bytes (rm_room m)) (ascii_bytes (rm_sender m)) (ascii_bytes (rm_recipient m))
      (uuid_bytes (rm_event m)) (rm_payload m)" by (simp_all add: encode_frame)
  note ascii = identity_ok_ascii [OF ok(3)] identity_ok_ascii [OF ok(4)]
  have h: "length (header (rm_kind m)) = 24" using room_domain_length by (simp add: header_def)
  note parts = h uuid_bytes_length [OF ok(1)] identity_bytes_length [OF ok(3)] identity_bytes_length [OF ok(4)]
    uuid_bytes_length [OF ok(2)] payload_bound [OF ok(5)]
  have fields: "read_fields v 24 = Inr \<lparr>ff_room = rm_room m, ff_sender = map code (rm_sender m), ff_recipient = map code (rm_recipient m),
      ff_event = rm_event m, ff_payload = rm_payload m\<rparr>"
    unfolding v using read_fields_frame [OF parts decode_ascii decode_ascii] ascii uuid_round_trip [OF ok(1)] uuid_round_trip [OF ok(2)]
    by (simp add: uuid_bytes_def)
  have len: "length v = 176 + length (rm_payload m)" unfolding v by (rule frame_parts(9) [OF parts])
  have hd: "starts_with v ROOM_DOMAIN" "v ! 22 = ROOM_VERSION" "v ! 23 = kindByte (rm_kind m)" unfolding v by (rule header_frame)+
  have k: "byteKind (v ! 23) = Some (rm_kind m)" using hd by simp
  show ?thesis
    using len payload_bound [OF ok(5)] fields hd(1,2) k ok room_domain_length
    by (simp add: decodeRoomMessage_def HEADER_LENGTH_def IDENTITY_BYTES_def identityBytes_def exactUuid_def
        numeral_eq_Suc del: byteKind_kindByte) 
qed

lemma encode_decode:
  assumes "decodeRoomMessage v ex req = Inr (RoomV1 m)"
  shows "encodeRoomMessageV1 m = Inr v \<and> rm_room m = ex_room ex \<and> rm_sender m = ex_sender ex \<and> rm_recipient m = ex_recipient ex"
proof -
  from assms room_domain_length obtain f where long: "64 \<le> length v" and start: "starts_with v ROOM_DOMAIN" "v ! 22 = ROOM_VERSION"
    and kind: "v ! 23 = kindByte (rm_kind m)" and fields: "read_fields v 24 = Inr f"
    and ids: "identity_ok (ex_sender ex)" "identity_ok (ex_recipient ex)" "uuid_ok (ex_room ex)"
    and same: "ff_room f = ex_room ex" "ff_sender f = map code (ex_sender ex)" "ff_recipient f = map code (ex_recipient ex)"
    and valid: "validateKindPayload (rm_kind m) (ff_payload f) = Inr ()"
    and m: "m = \<lparr>rm_room = ex_room ex, rm_sender = ex_sender ex, rm_recipient = ex_recipient ex, rm_event = ff_event f,
      rm_kind = rm_kind m, rm_payload = ff_payload f\<rparr>"
    by (auto simp: decodeRoomMessage_def HEADER_LENGTH_def identityBytes_def exactUuid_def numeral_eq_Suc split: if_splits)
  from read_fields_ok [OF fields long] obtain room sender recipient event where
    len: "length room = 16" "length sender = 56" "length recipient = 56" "length event = 16"
    and v: "v = frame (take 24 v) room sender recipient event (ff_payload f)"
    and dec: "decode_utf8 sender = Some (ff_sender f)" "decode_utf8 recipient = Some (ff_recipient f)"
    and uuids: "ff_room f = uuid_text room" "ff_event f = uuid_text event" by blast
  have "sender = ascii_bytes (ex_sender ex)" "recipient = ascii_bytes (ex_recipient ex)"
    using dec same identity_ok_ascii [OF ids(1)] identity_ok_ascii [OF ids(2)] len by (auto intro!: decode_is_ascii)
  moreover have "room = uuid_bytes (ex_room ex)" "event = uuid_bytes (ff_event f)" "uuid_ok (ff_event f)"
    using uuid_text_ok [OF len(1)] uuid_text_ok [OF len(4)] uuids same(1) by (simp_all add: uuid_bytes_def)
  moreover have "take 24 v = header (rm_kind m)" by (rule header_take [OF start kind long])
  ultimately have "encodeRoomMessageV1 \<lparr>rm_room = ex_room ex, rm_sender = ex_sender ex, rm_recipient = ex_recipient ex,
      rm_event = ff_event f, rm_kind = rm_kind m, rm_payload = ff_payload f\<rparr> = Inr v"
    using v ids valid by (simp add: encode_frame)
  with m show ?thesis by (metis room_message.select_convs(1-3))
qed

text \<open>
  C4. The decoder accepts a room message exactly when the bytes are the encoding
  of that message and the message is bound to the expected room, sender and
  recipient. So every encoded message is read back as it was, nothing but a
  canonical encoding is read, and no message is read in another room or for
  other participants.
\<close>

theorem room_message_decodes_iff_encoded:
  "decodeRoomMessage v ex requireRoomMessageV1 = Inr (RoomV1 m) \<longleftrightarrow>
     encodeRoomMessageV1 m = Inr v \<and> rm_room m = ex_room ex \<and> rm_sender m = ex_sender ex \<and> rm_recipient m = ex_recipient ex"
proof
  show "decodeRoomMessage v ex requireRoomMessageV1 = Inr (RoomV1 m) \<Longrightarrow>
    encodeRoomMessageV1 m = Inr v \<and> rm_room m = ex_room ex \<and> rm_sender m = ex_sender ex \<and> rm_recipient m = ex_recipient ex"
    by (rule encode_decode)
next
  assume a: "encodeRoomMessageV1 m = Inr v \<and> rm_room m = ex_room ex \<and> rm_sender m = ex_sender ex \<and> rm_recipient m = ex_recipient ex"
  then have "ex = \<lparr>ex_room = rm_room m, ex_sender = rm_sender m, ex_recipient = rm_recipient m\<rparr>" by simp
  with a decode_encode show "decodeRoomMessage v ex requireRoomMessageV1 = Inr (RoomV1 m)" by metis
qed

section \<open>The remembered minimum version\<close>

definition FLOOR_RECORD :: string where
  "FLOOR_RECORD = ''room-message-version-floor''"

definition roomMessageVersionFloorRecordId :: "(u8 list \<Rightarrow> u8 list) \<Rightarrow> string \<Rightarrow> string \<Rightarrow> string outcome" where
  "roomMessageVersionFloorRecordId sha256 roomId remote =
     and_then (require (roomId \<noteq> [] \<and> remote \<noteq> []) ''Room message security identity is unavailable.'') (\<lambda>_.
       Inr (''rmvf:'' @ toBase64Url (sha256 (ascii_bytes (''K3NCRYPT/ROOM-MESSAGE-FLOOR/v1'' @ NUL @ roomId @ NUL @ remote)))))"

text \<open>A key holds no NUL, so joining the sorted keys with NUL compares the sorted lists.\<close>

definition floor_shape :: "string \<Rightarrow> string \<Rightarrow> jsval \<Rightarrow> bool" where
  "floor_shape roomId remote v \<longleftrightarrow>
     sort (object_keys v) = [''minimumWrapperVersion'', ''remoteIdentityReference'', ''roomId'', ''version''] \<and>
     get_prop v ''version'' = VInt 1 \<and> get_prop v ''roomId'' = VStr roomId \<and> get_prop v ''remoteIdentityReference'' = VStr remote \<and>
     is_safe_num (get_prop v ''minimumWrapperVersion'') \<and> 0 \<le> num_of (get_prop v ''minimumWrapperVersion'') \<and>
     num_of (get_prop v ''minimumWrapperVersion'') \<le> 255"

definition parseRoomMessageVersionFloor :: "cell option \<Rightarrow> string \<Rightarrow> string \<Rightarrow> int option outcome" where
  "parseRoomMessageVersionFloor bytes roomId remote =
     (case bytes of
        None \<Rightarrow> Inr None
      | Some c \<Rightarrow>
          and_then (parse_cell ''Persisted room message security state is corrupted.'' c) (\<lambda>v.
          and_then (require (is_plain_object v) ''Persisted room message security state is invalid.'') (\<lambda>_.
          and_then (require (floor_shape roomId remote v) ''Persisted room message security state is invalid.'') (\<lambda>_.
            Inr (Some (num_of (get_prop v ''minimumWrapperVersion'')))))))"

definition encodeRoomMessageVersionFloor :: "string \<Rightarrow> string \<Rightarrow> int \<Rightarrow> cell" where
  "encodeRoomMessageVersionFloor roomId remote n =
     JsonText (VObj [(''version'', VInt 1), (''roomId'', VStr roomId), (''remoteIdentityReference'', VStr remote),
       (''minimumWrapperVersion'', VInt n)])"

fun or_zero :: "int option \<Rightarrow> int" where
  "or_zero None = 0"
| "or_zero (Some n) = n"

definition prepareRoomMessageVersionFloorRaise ::
  "(u8 list \<Rightarrow> u8 list) \<Rightarrow> store \<Rightarrow> string \<Rightarrow> string \<Rightarrow> int \<Rightarrow> (int \<times> record_update) outcome"
where
  "prepareRoomMessageVersionFloorRaise sha256 s roomId remote n =
     and_then (require (1 \<le> n \<and> n \<le> 255) ''Authenticated room message version is invalid.'') (\<lambda>_.
     and_then (roomMessageVersionFloorRecordId sha256 roomId remote) (\<lambda>i.
       let old = read_cell s FLOOR_RECORD i
       in and_then (parseRoomMessageVersionFloor old roomId remote) (\<lambda>current.
            let floor = max (or_zero current) n
            in Inr (floor, \<lparr>update_key = (FLOOR_RECORD, i), expected = old,
                 next_cell = (case old of
                    Some c \<Rightarrow> if current = Some floor then c else encodeRoomMessageVersionFloor roomId remote floor
                  | None \<Rightarrow> encodeRoomMessageVersionFloor roomId remote floor)\<rparr>))))"

definition prepareRoomMessageVersionFloorGuard ::
  "(u8 list \<Rightarrow> u8 list) \<Rightarrow> store \<Rightarrow> string \<Rightarrow> string \<Rightarrow> (int \<times> record_update) outcome"
where
  "prepareRoomMessageVersionFloorGuard sha256 s roomId remote =
     and_then (roomMessageVersionFloorRecordId sha256 roomId remote) (\<lambda>i.
       let old = read_cell s FLOOR_RECORD i
       in and_then (parseRoomMessageVersionFloor old roomId remote) (\<lambda>current.
            Inr (or_zero current, \<lparr>update_key = (FLOOR_RECORD, i), expected = old,
              next_cell = (case old of Some c \<Rightarrow> c | None \<Rightarrow> encodeRoomMessageVersionFloor roomId remote 0)\<rparr>)))"

definition readRoomMessageVersionFloor :: "(u8 list \<Rightarrow> u8 list) \<Rightarrow> store \<Rightarrow> string \<Rightarrow> string \<Rightarrow> int outcome" where
  "readRoomMessageVersionFloor sha256 s roomId remote =
     and_then (roomMessageVersionFloorRecordId sha256 roomId remote) (\<lambda>i.
     and_then (parseRoomMessageVersionFloor (read_cell s FLOOR_RECORD i) roomId remote) (\<lambda>current. Inr (or_zero current)))"

section \<open>The protocol of a conversation\<close>

definition MODE_RECORD :: string where
  "MODE_RECORD = ''conversation-protocol''"

definition mode_keys :: "string list" where
  "mode_keys = [''version'', ''mode'', ''sessionId'', ''localAddress'', ''remoteAddress'', ''routingProof'']"

definition short_text :: "jsval \<Rightarrow> bool" where
  "short_text v \<longleftrightarrow> v = VUndefined \<or> is_string v \<and> length (str_of v) \<le> 128"

definition routing_proof_ok :: "jsval \<Rightarrow> bool" where
  "routing_proof_ok v \<longleftrightarrow> v = VUndefined \<or> is_string v \<and> length (str_of v) = 43 \<and> list_all is_id_char (str_of v)"

definition mode_ok :: "jsval \<Rightarrow> bool" where
  "mode_ok v \<longleftrightarrow> truthy v \<and> get_prop v ''version'' = VInt 1 \<and> get_prop v ''mode'' = VStr ''modern'' \<and>
     list_all (\<lambda>k. k \<in> set mode_keys) (object_keys v) \<and>
     list_all short_text [get_prop v ''sessionId'', get_prop v ''localAddress'', get_prop v ''remoteAddress''] \<and>
     routing_proof_ok (get_prop v ''routingProof'')"

definition decodeMode :: "cell \<Rightarrow> jsval outcome" where
  "decodeMode c = and_then (parse_cell ''SyntaxError'' c) (\<lambda>v.
     and_then (require (mode_ok v) ''Conversation protocol record is invalid.'') (\<lambda>_. Inr v))"

definition read_mode :: "store \<Rightarrow> string \<Rightarrow> jsval option outcome" where
  "read_mode s i = (case read_cell s MODE_RECORD i of None \<Rightarrow> Inr None | Some c \<Rightarrow> and_then (decodeMode c) (\<lambda>v. Inr (Some v)))"

text \<open>\<open>{ version: 1, mode: 'modern', ...current, ...update }\<close>\<close>

definition next_mode :: "jsval option \<Rightarrow> (string \<times> jsval) list \<Rightarrow> jsval" where
  "next_mode current update = VObj (fold (\<lambda>(k, v) ps. put k v ps)
     ((case current of None \<Rightarrow> [] | Some v \<Rightarrow> object_props v) @ update) [(''version'', VInt 1), (''mode'', VStr ''modern'')])"

definition write_mode :: "store \<Rightarrow> string \<Rightarrow> (string \<times> jsval) list \<Rightarrow> store \<times> unit outcome" where
  "write_mode s i update =
     (case read_mode s i of
        Inl e \<Rightarrow> (s, Inl e)
      | Inr current \<Rightarrow> (write_cell s MODE_RECORD i (JsonText (json_image (next_mode current update))), Inr ()))"

definition prepareWrite :: "store \<Rightarrow> string \<Rightarrow> (string \<times> jsval) list \<Rightarrow> record_update outcome" where
  "prepareWrite s i update =
     and_then (read_mode s i) (\<lambda>current.
       Inr \<lparr>update_key = (MODE_RECORD, i), expected = read_cell s MODE_RECORD i,
            next_cell = JsonText (json_image (next_mode current update))\<rparr>)"

section \<open>The remembered version never goes down\<close>

lemma floor_keys_sorted:
  "sort [''version'', ''roomId'', ''remoteIdentityReference'', ''minimumWrapperVersion''] =
   [''minimumWrapperVersion'', ''remoteIdentityReference'', ''roomId'', ''version'']"
  by code_simp

lemma parse_encoded_floor:
  assumes "0 \<le> n" "n \<le> 255"
  shows "parseRoomMessageVersionFloor (Some (encodeRoomMessageVersionFloor roomId remote n)) roomId remote = Inr (Some n)"
  using assms floor_keys_sorted
  by (simp add: parseRoomMessageVersionFloor_def encodeRoomMessageVersionFloor_def floor_shape_def safe_int_def MAX_SAFE_INTEGER_def)

lemma parsed_floor_bounds:
  "parseRoomMessageVersionFloor c roomId remote = Inr (Some n) \<Longrightarrow> 0 \<le> n \<and> n \<le> 255"
  by (auto simp: parseRoomMessageVersionFloor_def floor_shape_def split: option.splits)

text \<open>What a prepared update writes, whichever of the two operations prepared it.\<close>

definition prepared_update :: "(u8 list \<Rightarrow> u8 list) \<Rightarrow> store \<Rightarrow> string \<Rightarrow> string \<Rightarrow> int \<Rightarrow> record_update \<Rightarrow> bool" where
  "prepared_update sha256 s roomId remote floor u \<longleftrightarrow>
     (\<exists>n. prepareRoomMessageVersionFloorRaise sha256 s roomId remote n = Inr (floor, u)) \<or>
     prepareRoomMessageVersionFloorGuard sha256 s roomId remote = Inr (floor, u)"

lemma prepared_update_writes:
  assumes "prepared_update sha256 s roomId remote floor u"
  shows "\<exists>i current. roomMessageVersionFloorRecordId sha256 roomId remote = Inr i \<and> update_key u = (FLOOR_RECORD, i) \<and>
    parseRoomMessageVersionFloor (expected u) roomId remote = Inr current \<and> or_zero current \<le> floor \<and>
    parseRoomMessageVersionFloor (Some (next_cell u)) roomId remote = Inr (Some floor)"
  using assms unfolding prepared_update_def
proof
  assume "\<exists>n. prepareRoomMessageVersionFloorRaise sha256 s roomId remote n = Inr (floor, u)"
  then obtain n i current where n: "1 \<le> n" "n \<le> 255" and i: "roomMessageVersionFloorRecordId sha256 roomId remote = Inr i"
    and current: "parseRoomMessageVersionFloor (read_cell s FLOOR_RECORD i) roomId remote = Inr current"
    and u: "floor = max (or_zero current) n" "update_key u = (FLOOR_RECORD, i)" "expected u = read_cell s FLOOR_RECORD i"
      "next_cell u = (case read_cell s FLOOR_RECORD i of
         Some c \<Rightarrow> if current = Some floor then c else encodeRoomMessageVersionFloor roomId remote floor
       | None \<Rightarrow> encodeRoomMessageVersionFloor roomId remote floor)"
    by (auto simp: prepareRoomMessageVersionFloorRaise_def Let_def)
  have "0 \<le> floor \<and> floor \<le> 255" using parsed_floor_bounds current n u(1) by (cases current) auto
  then have "parseRoomMessageVersionFloor (Some (next_cell u)) roomId remote = Inr (Some floor)"
    using current parse_encoded_floor by (auto simp: u(4) split: option.splits)
  with i current u show ?thesis by auto
next
  assume "prepareRoomMessageVersionFloorGuard sha256 s roomId remote = Inr (floor, u)"
  then obtain i current where i: "roomMessageVersionFloorRecordId sha256 roomId remote = Inr i"
    and current: "parseRoomMessageVersionFloor (read_cell s FLOOR_RECORD i) roomId remote = Inr current"
    and u: "floor = or_zero current" "update_key u = (FLOOR_RECORD, i)" "expected u = read_cell s FLOOR_RECORD i"
      "next_cell u = (case read_cell s FLOOR_RECORD i of Some c \<Rightarrow> c | None \<Rightarrow> encodeRoomMessageVersionFloor roomId remote 0)"
    by (auto simp: prepareRoomMessageVersionFloorGuard_def Let_def)
  have "parseRoomMessageVersionFloor (Some (next_cell u)) roomId remote = Inr (Some floor)"
  proof (cases "read_cell s FLOOR_RECORD i")
    case None
    then have "current = None" using current by (simp add: parseRoomMessageVersionFloor_def)
    with None parse_encoded_floor show ?thesis by (simp add: u)
  next
    case (Some c)
    then have "current \<noteq> None" using current by (auto simp: parseRoomMessageVersionFloor_def)
    with Some current show ?thesis by (auto simp: u)
  qed
  with i current u show ?thesis by auto
qed

text \<open>
  C26. An update of the remembered minimum version, prepared by either operation
  in any earlier state of the store and committed now by compare-and-swap, never
  lowers the version remembered for the contact, and when it is committed the
  version is at least the one the operation returned.
\<close>

theorem version_floor_never_lowered:
  assumes "prepared_update sha256 earlier roomId remote floor u" and "readRoomMessageVersionFloor sha256 s roomId remote = Inr k"
  shows "\<exists>k'. readRoomMessageVersionFloor sha256 (fst (compareAndSwapRecords s [u])) roomId remote = Inr k' \<and> k \<le> k' \<and>
    (snd (compareAndSwapRecords s [u]) \<longrightarrow> floor \<le> k')"
proof -
  from prepared_update_writes [OF assms(1)] obtain i current where i: "roomMessageVersionFloorRecordId sha256 roomId remote = Inr i"
    and u: "update_key u = (FLOOR_RECORD, i)" "parseRoomMessageVersionFloor (expected u) roomId remote = Inr current"
      "or_zero current \<le> floor" "parseRoomMessageVersionFloor (Some (next_cell u)) roomId remote = Inr (Some floor)" by blast
  show ?thesis
  proof (cases "cells s (FLOOR_RECORD, i) = expected u")
    case True
    with assms(2) i u have "k = or_zero current" by (auto simp: readRoomMessageVersionFloor_def read_cell_def)
    moreover have "readRoomMessageVersionFloor sha256 (fst (compareAndSwapRecords s [u])) roomId remote = Inr floor"
      using True i u by (simp add: readRoomMessageVersionFloor_def read_cell_def compareAndSwapRecords_def)
    ultimately show ?thesis using u(3) by blast
  next
    case False
    then have "compareAndSwapRecords s [u] = (s, False)" using u(1) by (simp add: compareAndSwapRecords_def)
    with assms(2) show ?thesis by simp
  qed
qed

definition empty_store :: store where
  "empty_store = \<lparr>cells = (\<lambda>_. None), casAvailable = True\<rparr>"

definition example_raise :: record_update where
  "example_raise = \<lparr>update_key = (FLOOR_RECORD, ''rmvf:''), expected = None, next_cell = encodeRoomMessageVersionFloor ''r'' ''p'' 1\<rparr>"

theorem version_floor_never_lowered_witness:
  "\<exists>k'. readRoomMessageVersionFloor (\<lambda>_. []) (fst (compareAndSwapRecords empty_store [example_raise])) ''r'' ''p'' = Inr k' \<and> 1 \<le> k'"
proof -
  have prepared: "prepared_update (\<lambda>_. []) empty_store ''r'' ''p'' 1 example_raise"
    unfolding prepared_update_def
    by (intro disjI1 exI [of _ 1]) (simp add: prepareRoomMessageVersionFloorRaise_def roomMessageVersionFloorRecordId_def
        parseRoomMessageVersionFloor_def read_cell_def empty_store_def example_raise_def)
  have "readRoomMessageVersionFloor (\<lambda>_. []) empty_store ''r'' ''p'' = Inr 0"
    by (simp add: readRoomMessageVersionFloor_def roomMessageVersionFloorRecordId_def parseRoomMessageVersionFloor_def
        read_cell_def empty_store_def)
  moreover have "snd (compareAndSwapRecords empty_store [example_raise])"
    by (simp add: compareAndSwapRecords_def empty_store_def example_raise_def)
  ultimately show ?thesis using version_floor_never_lowered [OF prepared] by blast
qed

text \<open>A record written for a conversation is read back as written.\<close>

lemma read_written_mode:
  assumes "write_mode s i update = (s', Inr ())" "mode_ok (json_image (next_mode current update))" "read_mode s i = Inr current"
  shows "read_mode s' i = Inr (Some (json_image (next_mode current update)))"
  using assms by (auto simp: write_mode_def read_mode_def decodeMode_def)

end
