(* ===== verification/RelayAuthority.thy ===== *)
theory RelayAuthority
  imports RoomMessages
begin

text \<open>
  The relay's own authority over connections and requests: which socket serves a
  user of a channel (\<open>backend/socket.io/clients.ts\<close>), the device trust control
  plane with its short-lived proofs (\<open>backend/security/deviceTrust.ts\<close>) and the
  authorization of attachment requests
  (\<open>backend/security/authorizationContext.ts\<close>).

  Objects used as dictionaries are association lists in insertion order; names
  that \<open>Object.prototype\<close> has are not identifiers here. The clock is an argument,
  the HMAC of the control plane a parameter.
\<close>

section \<open>Sockets of the users of a channel\<close>

type_synonym users = "(string \<times> string) list"
type_synonym clients = "(string \<times> users) list"

definition getClientsByChannel :: "clients \<Rightarrow> string \<Rightarrow> users outcome" where
  "getClientsByChannel s channel =
     (if channel = [] then Inl ''channelID - required param''
      else Inr (case map_of s channel of None \<Rightarrow> [] | Some us \<Rightarrow> us))"

definition getReceiverIDBySenderID :: "clients \<Rightarrow> string \<Rightarrow> string \<Rightarrow> string option outcome" where
  "getReceiverIDBySenderID s sender channel =
     and_then (getClientsByChannel s channel) (\<lambda>us. Inr (find (\<lambda>u. u \<noteq> sender) (map fst us)))"

definition getSIDByIDs :: "clients \<Rightarrow> string \<Rightarrow> string \<Rightarrow> string option outcome" where
  "getSIDByIDs s user channel =
     (if channel = [] \<or> user = [] then Inl ''channelID, userID - required param''
      else Inr (case map_of s channel of None \<Rightarrow> None | Some us \<Rightarrow> map_of us user))"

definition wouldExceedChannelCapacity :: "clients \<Rightarrow> string \<Rightarrow> string \<Rightarrow> jsnum \<Rightarrow> bool" where
  "wouldExceedChannelCapacity s user channel capacity =
     (if user = [] \<or> channel = [] \<or> capacity = NotWhole \<or> whole capacity < 1 then True
      else (case getClientsByChannel s channel of Inl _ \<Rightarrow> False | Inr us \<Rightarrow> whole capacity \<le> int (length us)) \<and>
           (case getSIDByIDs s user channel of Inr (Some _) \<Rightarrow> False | _ \<Rightarrow> True))"

definition setClientToChannel :: "clients \<Rightarrow> string \<Rightarrow> string \<Rightarrow> string \<Rightarrow> clients" where
  "setClientToChannel s user channel sid =
     (case map_of s channel of
        Some us \<Rightarrow> put channel (put user sid us) s
      | None \<Rightarrow> put channel [(user, sid)] s)"

definition without :: "'k \<Rightarrow> ('k \<times> 'v) list \<Rightarrow> ('k \<times> 'v) list" where
  "without k m = filter (\<lambda>p. fst p \<noteq> k) m"

definition deleteClient :: "clients \<Rightarrow> string \<Rightarrow> string \<Rightarrow> string \<Rightarrow> clients \<times> bool" where
  "deleteClient s user channel expectedSid =
     (case map_of s channel of
        None \<Rightarrow> (s, False)
      | Some us \<Rightarrow>
          if map_of us user \<noteq> Some expectedSid then (s, False)
          else
            let us' = without user us
            in (if us' = [] then without channel s else put channel us' s, True))"

definition isSenderInChannel :: "clients \<Rightarrow> string \<Rightarrow> string \<Rightarrow> bool outcome" where
  "isSenderInChannel s channel sender =
     and_then (getClientsByChannel s channel) (\<lambda>us. Inr (sender \<noteq> [] \<and> sender \<in> set (map fst us)))"

datatype client_op =
    Connect string string string
  | Disconnect string string string
  | Socket_of string string
  | In_channel string string
  | Exceeds string string jsnum

datatype client_out = Done | Answer bool | Socket "string option outcome" | Present "bool outcome"

fun clients_step :: "clients \<Rightarrow> client_op \<Rightarrow> clients \<times> client_out" where
  "clients_step s (Connect u c sid) = (setClientToChannel s u c sid, Done)"
| "clients_step s (Disconnect u c sid) = (let (s', b) = deleteClient s u c sid in (s', Answer b))"
| "clients_step s (Socket_of u c) = (s, Socket (getSIDByIDs s u c))"
| "clients_step s (In_channel c u) = (s, Present (isSenderInChannel s c u))"
| "clients_step s (Exceeds u c n) = (s, Answer (wouldExceedChannelCapacity s u c n))"

text \<open>
  What the record promises: one socket for a user of a channel, the last one
  connected, which only its own disconnect removes.
\<close>

type_synonym slots = "string \<times> string \<rightharpoonup> string"

fun slots_step :: "slots \<Rightarrow> client_op \<Rightarrow> slots \<times> client_out" where
  "slots_step m (Connect u c sid) = (m((c, u) \<mapsto> sid), Done)"
| "slots_step m (Disconnect u c sid) = (if m (c, u) = Some sid then (m((c, u) := None), Answer True) else (m, Answer False))"
| "slots_step m (Socket_of u c) =
     (m, Socket (if c = [] \<or> u = [] then Inl ''channelID, userID - required param'' else Inr (m (c, u))))"
| "slots_step m (In_channel c u) =
     (m, Present (if c = [] then Inl ''channelID - required param'' else Inr (u \<noteq> [] \<and> m (c, u) \<noteq> None)))"
| "slots_step m (Exceeds u c n) =
     (m, Answer (u = [] \<or> c = [] \<or> n = NotWhole \<or> whole n < 1 \<or>
        whole n \<le> int (card {x. m (c, x) \<noteq> None}) \<and> m (c, u) = None))"

definition slot_of :: "clients \<Rightarrow> slots" where
  "slot_of s = (\<lambda>(c, u). case map_of s c of None \<Rightarrow> None | Some us \<Rightarrow> map_of us u)"

definition users_ok :: "users \<Rightarrow> bool" where
  "users_ok us \<longleftrightarrow> distinct (map fst us) \<and> us \<noteq> []"

definition clients_ok :: "clients \<Rightarrow> bool" where
  "clients_ok s \<longleftrightarrow> distinct (map fst s) \<and> list_all (\<lambda>p. users_ok (snd p)) s"

lemma map_of_without [simp]: "map_of (without k m) k' = (if k' = k then None else map_of m k')"
  by (induction m) (auto simp: without_def)

lemma distinct_without: "distinct (map fst m) \<Longrightarrow> distinct (map fst (without k m))"
  by (induction m) (auto simp: without_def)

lemma put_not_Nil: "put k v m \<noteq> []"
  by (cases m) (auto simp: put_def)

lemma clients_ok_put: "clients_ok s \<Longrightarrow> users_ok us \<Longrightarrow> clients_ok (put c us s)"
  by (auto simp: clients_ok_def distinct_put set_put list_all_iff)

lemma clients_ok_without: "clients_ok s \<Longrightarrow> clients_ok (without c s)"
  using distinct_without [of s c] by (auto simp: clients_ok_def list_all_iff without_def)

lemma clients_ok_users: "clients_ok s \<Longrightarrow> map_of s c = Some us \<Longrightarrow> users_ok us"
  by (auto simp: clients_ok_def list_all_iff dest: map_of_SomeD)

lemma length_dom: "distinct (map fst m) \<Longrightarrow> length m = card {k. map_of m k \<noteq> None}"
proof -
  assume "distinct (map fst m)"
  then have "card (set (map fst m)) = length m" using distinct_card by fastforce
  moreover have "set (map fst m) = {k. map_of m k \<noteq> None}" by (auto simp: map_of_eq_None_iff)
  ultimately show ?thesis by simp
qed

lemma channel_size:
  assumes "clients_ok s" "c \<noteq> []"
  shows "\<exists>us. getClientsByChannel s c = Inr us \<and> length us = card {x. slot_of s (c, x) \<noteq> None} \<and>
    (\<forall>u. u \<in> fst ` set us \<longleftrightarrow> slot_of s (c, u) \<noteq> None)"
proof (cases "map_of s c")
  case None
  then show ?thesis using assms(2) by (simp add: getClientsByChannel_def slot_of_def)
next
  case (Some us)
  then have "distinct (map fst us)" using clients_ok_users [OF assms(1)] by (simp add: users_ok_def)
  from length_dom [OF this] Some assms(2) show ?thesis by (simp add: getClientsByChannel_def slot_of_def map_of_eq_None_iff)
qed

definition client_rel :: "clients \<Rightarrow> slots \<Rightarrow> bool" where
  "client_rel s m \<longleftrightarrow> clients_ok s \<and> m = slot_of s"

lemma slot_of_put: "slot_of (put c us s) (c', u) = (if c' = c then map_of us u else slot_of s (c', u))"
  by (simp add: slot_of_def)

lemma slot_of_without: "slot_of (without c s) (c', u) = (if c' = c then None else slot_of s (c', u))"
  by (simp add: slot_of_def)

lemma set_refines:
  assumes "clients_ok s"
  shows "client_rel (setClientToChannel s u c sid) ((slot_of s)((c, u) \<mapsto> sid))"
proof (cases "map_of s c")
  case None
  then show ?thesis using assms
    by (auto simp: client_rel_def setClientToChannel_def slot_of_put fun_eq_iff users_ok_def intro!: clients_ok_put) (simp add: slot_of_def)
next
  case (Some us)
  then have "users_ok (put u sid us)" using clients_ok_users [OF assms] by (simp add: users_ok_def distinct_put put_not_Nil)
  with Some assms show ?thesis
    by (auto simp: client_rel_def setClientToChannel_def slot_of_put fun_eq_iff intro!: clients_ok_put) (simp add: slot_of_def)
qed

lemma delete_refines:
  assumes ok: "clients_ok s"
  shows "deleteClient s u c sid = (fst (deleteClient s u c sid), slot_of s (c, u) = Some sid)"
    "client_rel (fst (deleteClient s u c sid)) (if slot_of s (c, u) = Some sid then (slot_of s)((c, u) := None) else slot_of s)"
proof -
  show "deleteClient s u c sid = (fst (deleteClient s u c sid), slot_of s (c, u) = Some sid)"
    by (simp add: deleteClient_def slot_of_def Let_def split: option.splits)
  show "client_rel (fst (deleteClient s u c sid)) (if slot_of s (c, u) = Some sid then (slot_of s)((c, u) := None) else slot_of s)"
  proof (cases "slot_of s (c, u) = Some sid")
    case False
    then have "fst (deleteClient s u c sid) = s" by (auto simp: deleteClient_def slot_of_def split: option.splits)
    with False ok show ?thesis by (simp add: client_rel_def)
  next
    case True
    then obtain us where us: "map_of s c = Some us" "map_of us u = Some sid" by (auto simp: slot_of_def split: option.splits)
    then have del: "fst (deleteClient s u c sid) = (if without u us = [] then without c s else put c (without u us) s)"
      by (simp add: deleteClient_def Let_def)
    have "users_ok us" using clients_ok_users [OF ok us(1)] .
    then have "clients_ok (fst (deleteClient s u c sid))"
      unfolding del using ok by (auto simp: users_ok_def intro!: clients_ok_put clients_ok_without distinct_without)
    moreover have "slot_of (fst (deleteClient s u c sid)) (c', u') = (if c' = c \<and> u' = u then None else slot_of s (c', u'))" for c' u'
    proof -
      have "without u us = [] \<Longrightarrow> u' \<noteq> u \<Longrightarrow> map_of us u' = None" using map_of_without [of u us u'] by simp
      then show ?thesis unfolding del by (auto simp: slot_of_put slot_of_without) (auto simp: slot_of_def us)
    qed
    ultimately show ?thesis using True by (auto simp: client_rel_def fun_eq_iff)
  qed
qed

interpretation sockets: simulation clients_step slots_step client_rel
proof
  fix s m e
  assume rel: "client_rel s m"
  then have ok: "clients_ok s" and m: "m = slot_of s" by (auto simp: client_rel_def)
  show "client_rel (fst (clients_step s e)) (fst (slots_step m e))"
  proof (cases e)
    case (Disconnect u c sid)
    then show ?thesis using delete_refines(2) [OF ok, of u c sid]
      by (cases "slot_of s (c, u) = Some sid") (simp_all add: m split_beta)
  qed (use rel set_refines [OF ok] in \<open>simp_all add: m\<close>)
  show "snd (clients_step s e) = snd (slots_step m e)"
  proof (cases e)
    case (Disconnect u c sid)
    then show ?thesis using delete_refines(1) [OF ok, of u c sid] m by (auto simp: split_beta prod_eq_iff)
  next
    case (Socket_of u c)
    then show ?thesis by (simp add: m getSIDByIDs_def slot_of_def)
  next
    case (In_channel c u)
    then show ?thesis using channel_size [OF ok, of c] m
      by (cases "c = []") (auto simp: isSenderInChannel_def getClientsByChannel_def [of s "[]"])
  next
    case (Exceeds u c n)
    have "(case getSIDByIDs s u c of Inr (Some _) \<Rightarrow> False | _ \<Rightarrow> True) = (slot_of s (c, u) = None)" if "u \<noteq> []" "c \<noteq> []"
      using that by (simp add: getSIDByIDs_def slot_of_def split: option.splits)
    then show ?thesis using channel_size [OF ok, of c] m Exceeds by (auto simp: wouldExceedChannelCapacity_def)
  qed simp
qed

text \<open>
  C7. Whatever the sequence of connections, disconnections and questions, the
  nested record answers like a map from a user of a channel to one socket: the
  last connected socket holds the slot, a disconnect of another socket leaves it
  alone and says so, and the capacity check counts the users present.
\<close>

theorem clients_refine_socket_map:
  "outputs clients_step [] ops = outputs slots_step (\<lambda>_. None) ops"
  by (rule sockets.run_out) (simp add: client_rel_def clients_ok_def slot_of_def fun_eq_iff)

section \<open>The device trust control plane\<close>

definition device_operations :: "string list" where
  "device_operations = [''relay:connect'', ''relay:subscribe'', ''relay:message'', ''relay:signal'', ''attachment:create'',
     ''attachment:write'', ''attachment:read'', ''attachment:delete'', ''private-network:relay'', ''bridge:authorize'', ''device-control'']"

datatype trust_state = Dev_pending | Dev_active | Dev_revoked

record plane_record =
  lr_account :: string
  lr_device :: string
  lr_identity :: string
  lr_key :: string
  lr_state :: trust_state
  lr_epoch :: int
  lr_created :: int
  lr_revoked :: "int option"
  lr_updated :: int

record control_plane =
  cp_records :: "(string \<times> plane_record) list"
  cp_nonces :: "(string \<times> int) list"

definition PLANE_ERROR :: string where
  "PLANE_ERROR = ''Device authorization rejected.''"

definition plane_key :: "string \<Rightarrow> string \<Rightarrow> string" where
  "plane_key account device = account @ '':'' @ device"

definition register_device ::
  "control_plane \<Rightarrow> int \<Rightarrow> string \<Rightarrow> string \<Rightarrow> string \<Rightarrow> string \<Rightarrow> jsnum \<Rightarrow> control_plane \<times> plane_record outcome"
where
  "register_device p now account device ident key ep =
     (let k = plane_key account device; old = map_of (cp_records p) k
      in if account = [] \<or> device = [] \<or> ident = [] \<or> key = [] \<or> \<not> isSafeInteger ep \<or> whole ep < 0 then (p, Inl PLANE_ERROR)
         else if (case old of None \<Rightarrow> False | Some r \<Rightarrow> lr_state r = Dev_revoked \<or> lr_identity r \<noteq> ident \<or> lr_key r \<noteq> key \<or> whole ep < lr_epoch r)
         then (p, Inl PLANE_ERROR)
         else
           let r = \<lparr>lr_account = account, lr_device = device, lr_identity = ident, lr_key = key, lr_state = Dev_active,
                 lr_epoch = whole ep, lr_created = (case old of Some r \<Rightarrow> lr_created r | None \<Rightarrow> now), lr_revoked = None, lr_updated = now\<rparr>
           in (p\<lparr>cp_records := put k r (cp_records p)\<rparr>, Inr r))"

definition revoke_device :: "control_plane \<Rightarrow> int \<Rightarrow> string \<Rightarrow> string \<Rightarrow> jsnum \<Rightarrow> control_plane \<times> plane_record outcome" where
  "revoke_device p now account device ep =
     (case map_of (cp_records p) (plane_key account device) of
        None \<Rightarrow> (p, Inl PLANE_ERROR)
      | Some r \<Rightarrow>
          if lr_state r \<noteq> Dev_active \<or> \<not> isSafeInteger ep \<or> whole ep \<le> lr_epoch r then (p, Inl PLANE_ERROR)
          else
            let r' = r\<lparr>lr_state := Dev_revoked, lr_epoch := whole ep, lr_revoked := Some now, lr_updated := now\<rparr>
            in (p\<lparr>cp_records := put (plane_key account device) r' (cp_records p)\<rparr>, Inr r'))"

text \<open>A proof is the object on the wire; the signature covers its other properties in their order.\<close>

definition sign_proof :: "(string \<Rightarrow> string) \<Rightarrow> jsval \<Rightarrow> string" where
  "sign_proof hmac body = hmac (''k3ncrypt-device-proof-v1'' @ NUL @ stringify body)"

definition unsigned_proof :: "jsval \<Rightarrow> jsval" where
  "unsigned_proof proof = VObj (filter (\<lambda>p. fst p \<noteq> ''signature'') (object_props proof))"

definition issue_proof ::
  "(string \<Rightarrow> string) \<Rightarrow> control_plane \<Rightarrow> int \<Rightarrow> string \<Rightarrow> string \<Rightarrow> string \<Rightarrow> string \<Rightarrow> string \<Rightarrow> jsnum \<Rightarrow> jsval outcome"
where
  "issue_proof hmac p now random_id account device operationName nonce ttl =
     (case map_of (cp_records p) (plane_key account device) of
        None \<Rightarrow> Inl PLANE_ERROR
      | Some r \<Rightarrow>
          if lr_state r \<noteq> Dev_active \<or> operationName \<notin> set device_operations \<or> \<not> id_16_128 nonce \<or>
             \<not> isSafeInteger ttl \<or> whole ttl < 1 \<or> 60000 < whole ttl then Inl PLANE_ERROR
          else
            let body = [(''version'', VInt 1), (''proofId'', VStr random_id), (''accountIdentityReference'', VStr account),
                  (''deviceId'', VStr device), (''deviceIdentityReference'', VStr (lr_identity r)), (''operation'', VStr operationName),
                  (''trustEpoch'', VInt (lr_epoch r)), (''nonce'', VStr nonce), (''issuedAt'', VInt now), (''expiresAt'', VInt (now + whole ttl))]
            in Inr (VObj (body @ [(''signature'', VStr (sign_proof hmac (VObj body)))])))"

text \<open>
  Comparisons of the times of a proof with the clock. Times that are not whole
  numbers, which no issued proof has, compare as \<open>NaN\<close> does.
\<close>

definition at_most :: "jsval \<Rightarrow> int \<Rightarrow> bool" where
  "at_most v t = (case v of VNum (Whole n) \<Rightarrow> n \<le> t | _ \<Rightarrow> False)"

definition later_than :: "jsval \<Rightarrow> int \<Rightarrow> bool" where
  "later_than v t = (case v of VNum (Whole n) \<Rightarrow> t < n | _ \<Rightarrow> False)"

record proof_context =
  pc_account :: string
  pc_device :: string
  pc_operation :: string
  pc_nonce :: string

definition proof_admissible :: "(string \<Rightarrow> string) \<Rightarrow> int \<Rightarrow> jsval \<Rightarrow> proof_context \<Rightarrow> bool" where
  "proof_admissible hmac now proof ex \<longleftrightarrow> truthy proof \<and> get_prop proof ''version'' = VInt 1 \<and>
     pc_operation ex \<in> set device_operations \<and>
     get_prop proof ''accountIdentityReference'' = VStr (pc_account ex) \<and> get_prop proof ''deviceId'' = VStr (pc_device ex) \<and>
     get_prop proof ''operation'' = VStr (pc_operation ex) \<and> get_prop proof ''nonce'' = VStr (pc_nonce ex) \<and>
     \<not> at_most (get_prop proof ''expiresAt'') now \<and> \<not> later_than (get_prop proof ''issuedAt'') now \<and>
     str_of (get_prop proof ''signature'') = sign_proof hmac (unsigned_proof proof)"

definition nonce_key :: "jsval \<Rightarrow> string" where
  "nonce_key proof = js_string (get_prop proof ''proofId'') @ '':'' @ js_string (get_prop proof ''nonce'')"

definition verify_proof ::
  "(string \<Rightarrow> string) \<Rightarrow> control_plane \<Rightarrow> int \<Rightarrow> jsval \<Rightarrow> proof_context \<Rightarrow> bool \<Rightarrow> control_plane \<times> plane_record outcome"
where
  "verify_proof hmac p now proof ex consume =
     (if \<not> proof_admissible hmac now proof ex then (p, Inl PLANE_ERROR)
      else
        case map_of (cp_records p) (plane_key (pc_account ex) (pc_device ex)) of
          None \<Rightarrow> (p, Inl PLANE_ERROR)
        | Some r \<Rightarrow>
            if lr_state r \<noteq> Dev_active \<or> get_prop proof ''trustEpoch'' \<noteq> VInt (lr_epoch r) \<or>
               get_prop proof ''deviceIdentityReference'' \<noteq> VStr (lr_identity r) then (p, Inl PLANE_ERROR)
            else
              let live = filter (\<lambda>e. \<not> snd e \<le> now) (cp_nonces p); p' = p\<lparr>cp_nonces := live\<rparr>
              in if \<not> consume then (p', Inr r)
                 else if nonce_key proof \<in> fst ` set live then (p', Inl PLANE_ERROR)
                 else (p'\<lparr>cp_nonces := put (nonce_key proof) (num_of (get_prop proof ''expiresAt'')) live\<rparr>, Inr r))"

datatype plane_op =
    Register string string string string jsnum
  | Revoke string string jsnum
  | Verify jsval proof_context bool

fun plane_step :: "(string \<Rightarrow> string) \<Rightarrow> control_plane \<Rightarrow> int \<times> plane_op \<Rightarrow> control_plane \<times> plane_record outcome" where
  "plane_step hmac p (now, Register a d i k n) = register_device p now a d i k n"
| "plane_step hmac p (now, Revoke a d n) = revoke_device p now a d n"
| "plane_step hmac p (now, Verify x ex c) = verify_proof hmac p now x ex c"

text \<open>A recorded nonce stays until it expires, a revoked record stays revoked.\<close>

lemma put_keeps: "(k, v) \<in> set m \<Longrightarrow> k \<noteq> k' \<Longrightarrow> (k, v) \<in> set (put k' v' m)"
  by (force simp: put_def)

lemma put_new: "k \<notin> fst ` set m \<Longrightarrow> (k, v) \<in> set (put k v m)"
  by (simp add: put_def)

lemma verify_nonces:
  assumes "(k, e) \<in> set (cp_nonces p)" "now < e"
  shows "(k, e) \<in> set (cp_nonces (fst (verify_proof hmac p now x ex c)))"
proof -
  let ?live = "filter (\<lambda>e. \<not> snd e \<le> now) (cp_nonces p)"
  have live: "(k, e) \<in> set ?live" using assms by simp
  then have "nonce_key x \<notin> fst ` set ?live \<Longrightarrow> k \<noteq> nonce_key x" by force
  with live assms(1) show ?thesis
    by (auto simp: verify_proof_def Let_def put_keeps split: option.splits simp del: set_filter)
qed

lemma plane_step_nonces:
  "(k, e) \<in> set (cp_nonces p) \<Longrightarrow> fst op < e \<Longrightarrow> (k, e) \<in> set (cp_nonces (fst (plane_step hmac p op)))"
  by (cases "(hmac, p, op)" rule: plane_step.cases)
    (auto simp: register_device_def revoke_device_def Let_def verify_nonces split: option.splits)

lemma plane_run_nonces:
  "(k, e) \<in> set (cp_nonces p) \<Longrightarrow> \<forall>op \<in> set ops. fst op < e \<Longrightarrow> (k, e) \<in> set (cp_nonces (final (plane_step hmac) p ops))"
  by (induction ops arbitrary: p) (simp_all add: plane_step_nonces)

definition device_revoked :: "string \<Rightarrow> control_plane \<Rightarrow> bool" where
  "device_revoked k p \<longleftrightarrow> (\<exists>r. map_of (cp_records p) k = Some r \<and> lr_state r = Dev_revoked)"

interpretation revocation: invariant_machine "plane_step hmac" "device_revoked k" for hmac k
proof
  fix p e
  assume "device_revoked k p"
  then obtain r where "map_of (cp_records p) k = Some r" "lr_state r = Dev_revoked" by (auto simp: device_revoked_def)
  then show "device_revoked k (fst (plane_step hmac p e))"
    by (cases "(hmac, p, e)" rule: plane_step.cases)
      (auto simp: device_revoked_def register_device_def revoke_device_def verify_proof_def Let_def split: option.splits if_splits)
qed

lemma verify_accepts:
  assumes "snd (verify_proof hmac p now x ex c) = Inr r"
  shows "proof_admissible hmac now x ex" "\<not> device_revoked (plane_key (pc_account ex) (pc_device ex)) p"
    "c \<Longrightarrow> \<forall>e. now < e \<longrightarrow> (nonce_key x, e) \<notin> set (cp_nonces p)"
    "c \<Longrightarrow> (nonce_key x, num_of (get_prop x ''expiresAt'')) \<in> set (cp_nonces (fst (verify_proof hmac p now x ex c)))"
  using assms
  by (auto simp: verify_proof_def device_revoked_def Let_def put_new image_iff split: if_splits option.splits)

lemma revoke_revokes:
  "snd (revoke_device p now a d n) = Inr r \<Longrightarrow> device_revoked (plane_key a d) (fst (revoke_device p now a d n))"
  by (auto simp: revoke_device_def device_revoked_def Let_def split: option.splits if_splits)

text \<open>The state before event \<open>j\<close> of a run, from the state after an earlier event \<open>i\<close>.\<close>

lemma final_between:
  assumes "i < j" "j < length es"
  shows "final step s (take j es) =
    final step (fst (step (final step s (take i es)) (es ! i))) (take (j - Suc i) (drop (Suc i) es))"
proof -
  have "take j es = take i es @ es ! i # take (j - Suc i) (drop (Suc i) es)"
  proof -
    have "take j es = take i (take j es) @ (take j es) ! i # drop (Suc i) (take j es)"
      using assms by (intro id_take_nth_drop) simp
    with assms show ?thesis by (simp add: min_def drop_take)
  qed
  then show ?thesis by (simp add: final_append)
qed

text \<open>
  C11. In a run of the control plane under a clock that does not go back, an
  accepted proof was not accepted before, and no proof is accepted for a device
  after its revocation.
\<close>

theorem accepted_proof_is_fresh:
  assumes clock: "sorted (map fst es)" and ij: "i < j" "j < length es"
    and accepted: "es ! j = (now, Verify x ex c)" "outputs (plane_step hmac) p es ! j = Inr r"
    and expiry: "get_prop x ''expiresAt'' = VInt e"
  shows "(c \<longrightarrow> (\<forall>t ex'. es ! i = (t, Verify x ex' True) \<longrightarrow> isl (outputs (plane_step hmac) p es ! i))) \<and>
    (\<forall>t n. es ! i = (t, Revoke (pc_account ex) (pc_device ex) n) \<longrightarrow> isl (outputs (plane_step hmac) p es ! i))"
proof -
  let ?k = "plane_key (pc_account ex) (pc_device ex)"
  define before where "before = final (plane_step hmac) p (take i es)"
  define here where "here = final (plane_step hmac) p (take j es)"
  define between where "between = take (j - Suc i) (drop (Suc i) es)"
  have here: "here = final (plane_step hmac) (fst (plane_step hmac before (es ! i))) between"
    unfolding here_def before_def between_def by (rule final_between [OF ij])
  have out_i: "outputs (plane_step hmac) p es ! i = snd (plane_step hmac before (es ! i))"
    using ij by (simp add: nth_outputs before_def)
  have "snd (verify_proof hmac here now x ex c) = Inr r" using accepted ij by (simp add: nth_outputs here_def)
  note now = verify_accepts [OF this]
  have "now < e" using now(1) expiry by (simp add: proof_admissible_def at_most_def)
  have early: "fst op < e" if "op \<in> set between" for op
  proof -
    from that obtain m where "m < length between" "op = between ! m" by (metis in_set_conv_nth)
    then have "op = es ! (Suc i + m)" "Suc i + m < j" using ij by (auto simp: between_def)
    then have "fst op \<le> fst (es ! j)"
      using clock ij sorted_nth_mono [of "map fst es" "Suc i + m" j] by simp
    with \<open>now < e\<close> accepted(1) show ?thesis by simp
  qed
  have "isl (outputs (plane_step hmac) p es ! i)" if consume: "c" and event: "es ! i = (t, Verify x ex' True)" for t ex'
  proof (rule ccontr)
    assume "\<not> isl (outputs (plane_step hmac) p es ! i)"
    then obtain r' where "snd (verify_proof hmac before t x ex' True) = Inr r'" using out_i event
      by (cases "snd (verify_proof hmac before t x ex' True)") auto
    then have "(nonce_key x, e) \<in> set (cp_nonces (fst (plane_step hmac before (es ! i))))"
      using verify_accepts(4) expiry event by fastforce
    then have "(nonce_key x, e) \<in> set (cp_nonces here)" unfolding here by (rule plane_run_nonces) (simp add: early)
    with now(3) [OF consume] \<open>now < e\<close> show False by blast
  qed
  moreover have "isl (outputs (plane_step hmac) p es ! i)" if event: "es ! i = (t, Revoke (pc_account ex) (pc_device ex) n)" for t n
  proof (rule ccontr)
    assume "\<not> isl (outputs (plane_step hmac) p es ! i)"
    then obtain r' where "snd (revoke_device before t (pc_account ex) (pc_device ex) n) = Inr r'" using out_i event
      by (cases "snd (revoke_device before t (pc_account ex) (pc_device ex) n)") auto
    then have "device_revoked ?k (fst (plane_step hmac before (es ! i)))" using revoke_revokes event by fastforce
    then have "device_revoked ?k here" unfolding here by (rule revocation.run_inv)
    with now(2) show False by blast
  qed
  ultimately show ?thesis by blast
qed

definition example_proof :: jsval where
  "example_proof = VObj [(''version'', VInt 1), (''proofId'', VStr ''p''), (''accountIdentityReference'', VStr ''a''), (''deviceId'', VStr ''d''),
     (''deviceIdentityReference'', VStr ''i''), (''operation'', VStr ''relay:connect''), (''trustEpoch'', VInt 0), (''nonce'', VStr ''n''),
     (''issuedAt'', VInt 1), (''expiresAt'', VInt 9), (''signature'', VStr ''s'')]"

definition example_context :: "string \<Rightarrow> proof_context" where
  "example_context operationName = \<lparr>pc_account = ''a'', pc_device = ''d'', pc_operation = operationName, pc_nonce = ''n''\<rparr>"

definition example_events :: "(int \<times> plane_op) list" where
  "example_events = [(1, Register ''a'' ''d'' ''i'' ''k'' (Whole 0)), (2, Verify example_proof (example_context ''relay:message'') True),
     (3, Verify example_proof (example_context ''relay:connect'') True)]"

theorem accepted_proof_is_fresh_witness:
  "isl (outputs (plane_step (\<lambda>_. ''s'')) \<lparr>cp_records = [], cp_nonces = []\<rparr> example_events ! 1)"
proof -
  have "\<exists>r. outputs (plane_step (\<lambda>_. ''s'')) \<lparr>cp_records = [], cp_nonces = []\<rparr> example_events ! 2 = Inr r"
    by (simp add: example_events_def register_device_def verify_proof_def proof_admissible_def example_proof_def example_context_def
        device_operations_def at_most_def later_than_def sign_proof_def put_def Let_def)
  then obtain r where "outputs (plane_step (\<lambda>_. ''s'')) \<lparr>cp_records = [], cp_nonces = []\<rparr> example_events ! 2 = Inr r" ..
  moreover have "sorted (map fst example_events)" "2 < length example_events" "get_prop example_proof ''expiresAt'' = VInt 9"
    "example_events ! 2 = (3, Verify example_proof (example_context ''relay:connect'') True)"
    "example_events ! 1 = (2, Verify example_proof (example_context ''relay:message'') True)"
    by (simp_all add: example_events_def example_proof_def)
  ultimately show ?thesis
    using accepted_proof_is_fresh [of example_events 1 2 3 example_proof "example_context ''relay:connect''" True "\<lambda>_. ''s''"] by force
qed

section \<open>Authorization of attachment requests\<close>

record access_record =
  ar_conversation :: string
  ar_owner :: string
  ar_recipient :: "string option"
  ar_senderIdentity :: "string option"
  ar_recipientIdentity :: "string option"

record request_context =
  rc_session :: string
  rc_participant :: string
  rc_conversation :: string
  rc_permissions :: "string list"
  rc_request :: string
  rc_identity :: "string option"
  rc_created :: int
  rc_expires :: int

text \<open>\<open>/^[A-Za-z0-9._:-]{1,256}$/\<close> and \<open>/^[0-9a-f]{8}-[0-9a-f]{4}-[1-8][0-9a-f]{3}-[89ab][0-9a-f]{3}-[0-9a-f]{12}$/i\<close>\<close>

definition ID_ok :: "string \<Rightarrow> bool" where
  "ID_ok s \<longleftrightarrow> s \<noteq> [] \<and> length s \<le> 256 \<and> list_all is_record_char s"

definition is_hex :: "char \<Rightarrow> bool" where
  "is_hex c \<longleftrightarrow> is_hex_dash c \<and> c \<noteq> CHR ''-''"

definition UUID_ok :: "string \<Rightarrow> bool" where
  "UUID_ok s \<longleftrightarrow> length s = 36 \<and> s ! 8 = CHR ''-'' \<and> s ! 13 = CHR ''-'' \<and> s ! 18 = CHR ''-'' \<and> s ! 23 = CHR ''-'' \<and>
     list_all is_hex (uuid_groups s) \<and> s ! 14 \<in> set ''12345678'' \<and> s ! 19 \<in> set ''89abAB''"

definition AUTH_ERROR :: string where
  "AUTH_ERROR = ''Authorization failed.''"

definition validateContext :: "request_context \<Rightarrow> int \<Rightarrow> unit outcome" where
  "validateContext ctx now = require (ID_ok (rc_session ctx) \<and> ID_ok (rc_participant ctx) \<and> UUID_ok (rc_conversation ctx) \<and>
     UUID_ok (rc_request ctx) \<and> rc_created ctx < rc_expires ctx \<and> now < rc_expires ctx) AUTH_ERROR"

text \<open>
  What a request finds outside: the trust adapter, the membership store and the
  attachment store, whose look-up may throw.
\<close>

record request_world =
  rw_trusted :: "unit outcome"
  rw_member :: "string \<Rightarrow> string \<Rightarrow> bool"
  rw_identity :: "(string \<Rightarrow> string \<Rightarrow> string option) option"
  rw_lookup :: "string \<Rightarrow> access_record option outcome"

definition revalidate :: "request_context \<Rightarrow> request_world \<Rightarrow> int \<Rightarrow> int \<Rightarrow> unit outcome" where
  "revalidate ctx w now now' =
     and_then (validateContext ctx now) (\<lambda>_. and_then (rw_trusted w) (\<lambda>_. validateContext ctx now'))"

definition consumeRequest :: "string list \<Rightarrow> string \<Rightarrow> string list \<times> unit outcome" where
  "consumeRequest used i = (if i \<in> set used then (used, Inl AUTH_ERROR) else (used @ [i], Inr ()))"

definition after_checks :: "string list \<Rightarrow> request_context \<Rightarrow> 'a outcome \<Rightarrow> string list \<times> 'a outcome" where
  "after_checks used ctx r =
     (case r of
        Inl e \<Rightarrow> (used, Inl e)
      | Inr a \<Rightarrow> let (used', u) = consumeRequest used (rc_request ctx) in (used', and_then u (\<lambda>_. Inr a)))"

definition authorizeConversation ::
  "string list \<Rightarrow> request_context \<Rightarrow> request_world \<Rightarrow> int \<Rightarrow> string \<Rightarrow> string \<Rightarrow> string list \<times> unit outcome"
where
  "authorizeConversation used ctx w now conversation permission =
     after_checks used ctx
       (and_then (validateContext ctx now) (\<lambda>_.
        and_then (rw_trusted w) (\<lambda>_.
          require (rc_conversation ctx = conversation \<and> permission \<in> set (rc_permissions ctx) \<and>
            rw_member w conversation (rc_participant ctx)) AUTH_ERROR)))"

definition identity_pattern :: "string \<Rightarrow> bool" where
  "identity_pattern s \<longleftrightarrow> take 3 s = ''K3 '' \<and> identity_groups 10 (drop 3 s)"

definition authorizeTransferCreation ::
  "string list \<Rightarrow> request_context \<Rightarrow> request_world \<Rightarrow> int \<Rightarrow> string \<Rightarrow> string \<Rightarrow> string list \<times> unit outcome"
where
  "authorizeTransferCreation used ctx w now recipient recipientIdentity =
     after_checks used ctx
       (and_then (validateContext ctx now) (\<lambda>_.
        and_then (rw_trusted w) (\<lambda>_.
        and_then (require (rc_participant ctx \<noteq> recipient \<and>
            (case rc_identity ctx of None \<Rightarrow> False | Some i \<Rightarrow> identity_pattern i) \<and> identity_pattern recipientIdentity \<and>
            ''attachment:create'' \<in> set (rc_permissions ctx) \<and> rw_member w (rc_conversation ctx) (rc_participant ctx) \<and>
            rw_member w (rc_conversation ctx) recipient) AUTH_ERROR) (\<lambda>_.
          require (case rw_identity w of None \<Rightarrow> False | Some f \<Rightarrow> recipientIdentity \<noteq> [] \<and> f (rc_conversation ctx) recipient = Some recipientIdentity)
            AUTH_ERROR))))"

text \<open>Absent and empty optional names are both false.\<close>

definition given :: "string option \<Rightarrow> bool" where
  "given x \<longleftrightarrow> x \<noteq> None \<and> x \<noteq> Some []"

definition attachment_allowed :: "request_context \<Rightarrow> request_world \<Rightarrow> access_record \<Rightarrow> string \<Rightarrow> bool" where
  "attachment_allowed ctx w r permission \<longleftrightarrow>
     ar_conversation r = rc_conversation ctx \<and> permission \<in> set (rc_permissions ctx) \<and> rw_member w (ar_conversation r) (rc_participant ctx) \<and>
     \<not> (permission \<in> {''attachment:write'', ''attachment:delete''} \<and>
        (rc_participant ctx \<noteq> ar_owner r \<or> given (ar_senderIdentity r) \<and> rc_identity ctx \<noteq> ar_senderIdentity r)) \<and>
     \<not> (permission = ''attachment:read'' \<and> given (ar_recipient r) \<and>
        (Some (rc_participant ctx) \<noteq> ar_recipient r \<or> \<not> given (ar_recipientIdentity r) \<or> rc_identity ctx \<noteq> ar_recipientIdentity r))"

definition authorizeAttachment ::
  "string list \<Rightarrow> request_context \<Rightarrow> request_world \<Rightarrow> int \<Rightarrow> string \<Rightarrow> string \<Rightarrow> string list \<times> access_record outcome"
where
  "authorizeAttachment used ctx w now attachmentId permission =
     after_checks used ctx
       (and_then (validateContext ctx now) (\<lambda>_.
        and_then (rw_trusted w) (\<lambda>_.
          case rw_lookup w attachmentId of
            Inr (Some r) \<Rightarrow> and_then (require (attachment_allowed ctx w r permission) AUTH_ERROR) (\<lambda>_. Inr r)
          | _ \<Rightarrow> Inl AUTH_ERROR)))"

definition register_access :: "(string \<times> access_record) list \<Rightarrow> string \<Rightarrow> access_record \<Rightarrow> (string \<times> access_record) list \<times> unit outcome" where
  "register_access m i r = (if i \<in> fst ` set m then (m, Inl AUTH_ERROR) else (m @ [(i, r)], Inr ()))"

definition lookup_access :: "(string \<times> access_record) list \<Rightarrow> string \<Rightarrow> access_record option outcome" where
  "lookup_access m i = Inr (map_of m i)"

datatype request_op =
    Conversation_request request_context request_world int string string
  | Transfer_request request_context request_world int string string
  | Attachment_request request_context request_world int string string

fun request_step :: "string list \<Rightarrow> request_op \<Rightarrow> string list \<times> unit outcome" where
  "request_step used (Conversation_request ctx w now c p) = authorizeConversation used ctx w now c p"
| "request_step used (Transfer_request ctx w now r i) = authorizeTransferCreation used ctx w now r i"
| "request_step used (Attachment_request ctx w now i p) =
     (let (used', r) = authorizeAttachment used ctx w now i p in (used', and_then r (\<lambda>_. Inr ())))"

fun request_of :: "request_op \<Rightarrow> string" where
  "request_of (Conversation_request ctx w now c p) = rc_request ctx"
| "request_of (Transfer_request ctx w now r i) = rc_request ctx"
| "request_of (Attachment_request ctx w now i p) = rc_request ctx"

lemma after_checks_ok:
  "snd (after_checks used ctx r) = Inr a \<Longrightarrow>
     r = Inr a \<and> rc_request ctx \<notin> set used \<and> fst (after_checks used ctx r) = used @ [rc_request ctx]"
  by (auto simp: after_checks_def consumeRequest_def Let_def split: sum.splits if_splits)

lemma after_checks_used: "set used \<subseteq> set (fst (after_checks used ctx r))"
  by (auto simp: after_checks_def consumeRequest_def Let_def split: sum.splits)

lemma request_step_ok:
  assumes "snd (request_step used e) = Inr u"
  shows "request_of e \<notin> set used \<and> request_of e \<in> set (fst (request_step used e))"
  using assms
  by (cases e) (auto simp: authorizeConversation_def authorizeTransferCreation_def authorizeAttachment_def split_beta dest: after_checks_ok)

interpretation requests: monotone_machine request_step "\<lambda>_. True" "\<lambda>used used'. set used \<subseteq> set used'"
proof
  fix used e
  show "set used \<subseteq> set (fst (request_step used e))"
    by (cases e) (simp_all add: authorizeConversation_def authorizeTransferCreation_def authorizeAttachment_def split_beta after_checks_used)
qed auto

text \<open>A request identifier is accepted once, and an attachment is written by its owner and read by its recipient.\<close>

lemma request_accepted_once:
  assumes "i < j" "j < length es" "request_of (es ! i) = request_of (es ! j)" "outputs request_step used es ! i = Inr u"
  shows "isl (outputs request_step used es ! j)"
proof -
  define before where "before = final request_step used (take i es)"
  have "request_of (es ! i) \<in> set (fst (request_step before (es ! i)))"
    using request_step_ok [of before "es ! i" u] assms by (simp add: nth_outputs before_def)
  then have "request_of (es ! j) \<in> set (final request_step used (take j es))"
    unfolding final_between [OF assms(1,2)] before_def assms(3) [symmetric] using requests.run_grows by blast
  with request_step_ok [of "final request_step used (take j es)" "es ! j"] assms(2) show ?thesis
    by (cases "outputs request_step used es ! j") (auto simp: nth_outputs)
qed

lemma attachment_bound_to_participants:
  assumes "snd (authorizeAttachment used ctx w now i permission) = Inr r"
  shows "ar_conversation r = rc_conversation ctx \<and> rw_member w (rc_conversation ctx) (rc_participant ctx) \<and> now < rc_expires ctx \<and>
    (permission = ''attachment:write'' \<or> permission = ''attachment:delete'' \<longrightarrow> rc_participant ctx = ar_owner r) \<and>
    (permission = ''attachment:read'' \<and> given (ar_recipient r) \<longrightarrow> ar_recipient r = Some (rc_participant ctx))"
  using after_checks_ok [OF assms [unfolded authorizeAttachment_def]]
  by (auto simp: attachment_allowed_def validateContext_def split: sum.splits option.splits)

end
