(* ===== verification/Conversations.thy ===== *)
theory Conversations
  imports RelayAuthority
begin

text \<open>
  The client's index of saved conversations
  (\<open>client/src/product/sessionStore.ts\<close>) and the profile a contact claims
  (\<open>client/src/product/profileMetadata.ts\<close>).

  A descriptor is the JSON object of the index. The tag \<open>safeDiagnosticCode\<close> of a
  storage failure stands for the error, whose text is always the same. Every
  commit of the index is one compare-and-swap: between reading and committing an
  arbitrary change \<open>env n\<close> of the store may happen.
\<close>

section \<open>Descriptors\<close>

definition is_js_space :: "char \<Rightarrow> bool" where
  "is_js_space c \<longleftrightarrow> 9 \<le> code c \<and> code c \<le> 13 \<or> code c = 32 \<or> code c = 160"

definition trim_text :: "string \<Rightarrow> string" where
  "trim_text s = rev (dropWhile is_js_space (rev (dropWhile is_js_space s)))"

definition CONVERSATION_WINDOW :: nat where
  "CONVERSATION_WINDOW = 1000"

definition MAX_CONFLICT_RETRIES :: nat where
  "MAX_CONFLICT_RETRIES = 64"

definition SESSION_RECORD :: string where
  "SESSION_RECORD = ''product-session''"

definition INDEX_ID :: string where
  "INDEX_ID = ''conversations''"

definition REMOVALS_ID :: string where
  "REMOVALS_ID = ''conversation-removals''"

text \<open>\<open>/^K3 [A-Z0-9_ -]{20,128}$/\<close> and \<open>/^[A-Za-z0-9_-]{43}$/\<close>\<close>

definition commitment_pattern :: "string \<Rightarrow> bool" where
  "commitment_pattern s \<longleftrightarrow> take 3 s = ''K3 '' \<and> 23 \<le> length s \<and> length s \<le> 131 \<and>
     list_all (\<lambda>c. is_fingerprint_char c \<or> c = CHR '' '') (drop 3 s)"

definition secret_pattern :: "string \<Rightarrow> bool" where
  "secret_pattern s \<longleftrightarrow> length s = 43 \<and> list_all is_id_char s"

definition if_present :: "(jsval \<Rightarrow> bool) \<Rightarrow> jsval \<Rightarrow> bool" where
  "if_present P v \<longleftrightarrow> v = VUndefined \<or> P v"

definition bootstrap_states :: "string list" where
  "bootstrap_states = [''PENDING_LOCAL'', ''PENDING_REMOTE'', ''ESTABLISHED'', ''FAILED_OR_UNSUPPORTED'']"

fun is_bool :: "jsval \<Rightarrow> bool" where
  "is_bool (VBool _) = True"
| "is_bool _ = False"

definition nickname_ok :: "jsval \<Rightarrow> bool" where
  "nickname_ok v \<longleftrightarrow> is_string v \<and> trim_text (str_of v) \<noteq> [] \<and> length (str_of v) \<le> 80 \<and> \<not> list_ex is_control (str_of v)"

definition invitation_ok :: "jsval \<Rightarrow> bool" where
  "invitation_ok v \<longleftrightarrow> is_object v \<and> get_prop v ''version'' = VInt 2"

definition natural :: "jsval \<Rightarrow> bool" where
  "natural v \<longleftrightarrow> is_safe_num v \<and> 0 \<le> num_of v"

definition descriptor_ok :: "jsval \<Rightarrow> bool" where
  "descriptor_ok v \<longleftrightarrow> is_object v \<and>
     if_present (\<lambda>x. js_string x \<in> {''invitation'', ''accepted''}) (get_prop v ''relationship'') \<and>
     get_prop v ''version'' = VInt 1 \<and> is_string (get_prop v ''roomId'') \<and> UUID_ok (str_of (get_prop v ''roomId'')) \<and>
     is_string (get_prop v ''controlCapability'') \<and> secret_pattern (str_of (get_prop v ''controlCapability'')) \<and>
     if_present (\<lambda>x. is_string x \<and> 8 \<le> length (str_of x)) (get_prop v ''remoteAddress'') \<and>
     if_present (\<lambda>x. is_string x \<and> commitment_pattern (str_of x)) (get_prop v ''remoteIdentityCommitment'') \<and>
     if_present (\<lambda>x. js_string x \<in> set bootstrap_states) (get_prop v ''bootstrapState'') \<and>
     if_present invitation_ok (get_prop v ''signedInvitation'') \<and>
     if_present natural (get_prop v ''pendingInvitationExpiresAt'') \<and>
     if_present nickname_ok (get_prop v ''localNickname'') \<and>
     if_present is_bool (get_prop v ''locallyDismissed'') \<and> if_present is_bool (get_prop v ''locallyArchived'') \<and>
     is_string (get_prop v ''label'') \<and> trim_text (str_of (get_prop v ''label'')) \<noteq> [] \<and> length (str_of (get_prop v ''label'')) \<le> 80 \<and>
     natural (get_prop v ''updatedAt'')"

definition prop_when :: "bool \<Rightarrow> string \<Rightarrow> jsval \<Rightarrow> (string \<times> jsval) list" where
  "prop_when b k v = (if b then [(k, v)] else [])"

definition validateConversationDescriptor :: "jsval \<Rightarrow> jsval outcome" where
  "validateConversationDescriptor v =
     and_then (require (descriptor_ok v) ''Saved conversation is invalid.'') (\<lambda>_.
       Inr (VObj ([(''version'', VInt 1)] @
         prop_when (get_prop v ''relationship'' \<in> {VStr ''invitation'', VStr ''accepted''}) ''relationship'' (get_prop v ''relationship'') @
         [(''roomId'', get_prop v ''roomId''), (''controlCapability'', get_prop v ''controlCapability'')] @
         prop_when (truthy (get_prop v ''remoteAddress'')) ''remoteAddress'' (get_prop v ''remoteAddress'') @
         prop_when (truthy (get_prop v ''remoteIdentityCommitment'')) ''remoteIdentityCommitment'' (get_prop v ''remoteIdentityCommitment'') @
         prop_when (truthy (get_prop v ''signedInvitation'')) ''signedInvitation'' (get_prop v ''signedInvitation'') @
         prop_when (natural (get_prop v ''pendingInvitationExpiresAt'')) ''pendingInvitationExpiresAt'' (get_prop v ''pendingInvitationExpiresAt'') @
         prop_when (truthy (get_prop v ''bootstrapState'')) ''bootstrapState'' (get_prop v ''bootstrapState'') @
         [(''label'', VStr (trim_text (str_of (get_prop v ''label''))))] @
         prop_when (nickname_ok (get_prop v ''localNickname'')) ''localNickname'' (VStr (trim_text (str_of (get_prop v ''localNickname'')))) @
         prop_when (is_bool (get_prop v ''locallyDismissed'')) ''locallyDismissed'' (get_prop v ''locallyDismissed'') @
         prop_when (is_bool (get_prop v ''locallyArchived'')) ''locallyArchived'' (get_prop v ''locallyArchived'') @
         [(''updatedAt'', get_prop v ''updatedAt'')])))"

definition room_id :: "jsval \<Rightarrow> string" where
  "room_id v = str_of (get_prop v ''roomId'')"

definition roomOf :: "jsval \<Rightarrow> string option" where
  "roomOf v = (case validateConversationDescriptor v of Inr d \<Rightarrow> Some (room_id d) | Inl _ \<Rightarrow> None)"

section \<open>Claimed profiles\<close>

definition PROFILE_RECORD :: string where
  "PROFILE_RECORD = ''product-remote-profile''"

definition PROFILE_PREFIX :: string where
  "PROFILE_PREFIX = ''k3ncrypt-profile:''"

text \<open>\<open>/\s+/g\<close> replaced by one space.\<close>

fun squeeze :: "string \<Rightarrow> string" where
  "squeeze [] = []"
| "squeeze (c # s) = (if is_js_space c then (case s of d # _ \<Rightarrow> if is_js_space d then squeeze s else CHR '' '' # squeeze s | [] \<Rightarrow> [CHR '' ''])
     else c # squeeze s)"

definition normalizeDisplayName :: "jsval \<Rightarrow> string outcome" where
  "normalizeDisplayName v =
     and_then (require (is_string v) ''Display name is invalid.'') (\<lambda>_.
       let name = squeeze (nfc (trim_text (str_of v)))
       in and_then (require (name \<noteq> [] \<and> length name \<le> 40 \<and> utf8_length name \<le> 160 \<and>
              \<not> list_ex (\<lambda>c. code c \<le> 31 \<or> 127 \<le> code c \<and> code c \<le> 159) (str_of v)) ''Display name must be 1-40 characters and at most 160 UTF-8 bytes.'') (\<lambda>_.
          Inr name))"

definition profile_value :: "string \<Rightarrow> jsval \<Rightarrow> jsval" where
  "profile_value name v = VObj [(''version'', VInt 1), (''displayName'', VStr name), (''identityFingerprint'', get_prop v ''identityFingerprint''),
     (''revision'', get_prop v ''revision'')]"

definition parse_profile :: "jsval \<Rightarrow> jsval option" where
  "parse_profile v =
     (if is_plain_object v \<and> join (sort (object_keys v)) = ''displayName,identityFingerprint,revision,version'' \<and>
         get_prop v ''version'' = VInt 1 \<and> is_string (get_prop v ''identityFingerprint'') \<and>
         commitment_pattern (str_of (get_prop v ''identityFingerprint'')) \<and>
         is_safe_num (get_prop v ''revision'') \<and> 1 \<le> num_of (get_prop v ''revision'')
      then (case normalizeDisplayName (get_prop v ''displayName'') of Inr name \<Rightarrow> Some (profile_value name v) | Inl _ \<Rightarrow> None)
      else None)"

definition encodeProfileMessage :: "jsval \<Rightarrow> string outcome" where
  "encodeProfileMessage v =
     and_then (some_or ''Profile metadata is invalid.'' (parse_profile v)) (\<lambda>p. Inr (PROFILE_PREFIX @ stringify p))"

text \<open>The text of the message, and what \<open>JSON.parse\<close> makes of it after the prefix (\<open>None\<close> when it throws).\<close>

definition decodeProfileMessage :: "string \<Rightarrow> jsval option \<Rightarrow> jsval option" where
  "decodeProfileMessage message parsed =
     (if take (length PROFILE_PREFIX) message \<noteq> PROFILE_PREFIX \<or> 1024 < utf8_length message then None
      else Option.bind parsed parse_profile)"

definition readRemoteProfile :: "store \<Rightarrow> string \<Rightarrow> string option \<Rightarrow> jsval option" where
  "readRemoteProfile s room fingerprint =
     (case (read_cell s PROFILE_RECORD room, fingerprint) of
        (Some (JsonText v), Some f) \<Rightarrow>
          if f = [] then None
          else (case parse_profile v of
             Some p \<Rightarrow> if get_prop p ''identityFingerprint'' = VStr f then Some p else None
           | None \<Rightarrow> None)
      | _ \<Rightarrow> None)"

definition prepareProfileAcceptance :: "store \<Rightarrow> string \<Rightarrow> string \<Rightarrow> jsval option \<Rightarrow> string option \<Rightarrow> record_update list" where
  "prepareProfileAcceptance s room message parsed fingerprint =
     (case (decodeProfileMessage message parsed, fingerprint) of
        (Some p, Some f) \<Rightarrow>
          if f = [] \<or> get_prop p ''identityFingerprint'' \<noteq> VStr f then []
          else if (case readRemoteProfile s room fingerprint of
              Some current \<Rightarrow> num_of (get_prop p ''revision'') \<le> num_of (get_prop current ''revision'') | None \<Rightarrow> False) then []
          else [\<lparr>update_key = (PROFILE_RECORD, room), expected = read_cell s PROFILE_RECORD room, next_cell = JsonText (json_image p)\<rparr>]
      | _ \<Rightarrow> [])"

section \<open>The index\<close>

definition updated_at :: "jsval \<Rightarrow> int" where
  "updated_at v = num_of (get_prop v ''updatedAt'')"

fun first_descriptors :: "string list \<Rightarrow> jsval list \<Rightarrow> jsval list" where
  "first_descriptors seen [] = []"
| "first_descriptors seen (v # vs) =
     (case validateConversationDescriptor v of
        Inl _ \<Rightarrow> first_descriptors seen vs
      | Inr d \<Rightarrow> if room_id d \<in> set seen then first_descriptors seen vs else d # first_descriptors (room_id d # seen) vs)"

text \<open>The pinned identity under which a claimed profile may be shown.\<close>

definition projected_pin :: "store \<Rightarrow> jsval \<Rightarrow> string option" where
  "projected_pin s d =
     (let pin = (if is_string (get_prop d ''remoteIdentityCommitment'') then Some (str_of (get_prop d ''remoteIdentityCommitment'')) else None)
      in if truthy (get_prop d ''remoteAddress'') then
           (case read_cell s ''contact-identity'' (str_of (get_prop d ''remoteAddress'')) of
              Some (JsonText c) \<Rightarrow>
                if is_object c \<and> has_prop c ''identityId'' \<and> get_prop c ''identityId'' = get_prop d ''remoteIdentityCommitment'' \<and>
                   has_prop c ''changeStatus'' \<and> get_prop c ''changeStatus'' = VStr ''unchanged'' then pin else None
            | _ \<Rightarrow> None)
         else pin)"

definition project_profile :: "store \<Rightarrow> jsval \<Rightarrow> jsval" where
  "project_profile s d = set_prop d ''remoteDisplayName''
     (case readRemoteProfile s (room_id d) (projected_pin s d) of Some p \<Rightarrow> get_prop p ''displayName'' | None \<Rightarrow> VUndefined)"

definition readConversationDescriptors :: "store \<Rightarrow> bool \<Rightarrow> jsval list" where
  "readConversationDescriptors s projectProfiles =
     (case read_cell s SESSION_RECORD INDEX_ID of
        Some (JsonText (VArr vs)) \<Rightarrow>
          map (if projectProfiles then project_profile s else id)
            (take CONVERSATION_WINDOW (sort_key (\<lambda>d. - updated_at d) (first_descriptors [] vs)))
      | _ \<Rightarrow> [])"

definition decodeArray :: "cell option \<Rightarrow> jsval list outcome" where
  "decodeArray bytes =
     (case bytes of
        None \<Rightarrow> Inr []
      | Some c \<Rightarrow> and_then (parse_cell ''SyntaxError'' c) (\<lambda>v.
          and_then (require (is_array v) ''Saved conversation list is invalid.'') (\<lambda>_. Inr (array_of v))))"

definition encode_array :: "jsval list \<Rightarrow> cell" where
  "encode_array vs = JsonText (json_image (VArr vs))"

definition spread :: "jsval option \<Rightarrow> jsval \<Rightarrow> jsval" where
  "spread base v = VObj (fold (\<lambda>(k, x) ps. put k x ps) (object_props v) (case base of Some b \<Rightarrow> object_props b | None \<Rightarrow> []))"

type_synonym change = "store \<Rightarrow> jsval option \<Rightarrow> jsval outcome"

text \<open>What one attempt writes, from the two lists it read.\<close>

definition plan_mutation :: "store \<Rightarrow> string \<Rightarrow> change option \<Rightarrow> jsval list \<Rightarrow> jsval list \<Rightarrow> (jsval list \<times> jsval list) outcome" where
  "plan_mutation s room change raw removals =
     and_then (require (list_all (\<lambda>v. is_string v \<and> UUID_ok (str_of v)) removals) ''Saved removal markers are invalid.'') (\<lambda>_.
     and_then (require (\<not> (change \<noteq> None \<and> VStr room \<in> set removals)) ''CONVERSATION_REMOVED'') (\<lambda>_.
     let matches = filter (\<lambda>v. roomOf v = Some room) raw; retained = filter (\<lambda>v. roomOf v \<noteq> Some room) raw
     in and_then (require (length matches \<le> 1) ''Saved conversation is invalid.'') (\<lambda>_.
        let matching = (case matches of v # _ \<Rightarrow> Some v | [] \<Rightarrow> None) in
        and_then (case matching of Some v \<Rightarrow> and_then (validateConversationDescriptor v) (\<lambda>d. Inr (Some d)) | None \<Rightarrow> Inr None) (\<lambda>current.
        case change of
          None \<Rightarrow> Inr (retained, if VStr room \<in> set removals then removals else removals @ [VStr room])
        | Some f \<Rightarrow>
            and_then (f s current) (\<lambda>new.
            and_then (require (\<not> (current = None \<and> CONVERSATION_WINDOW \<le> length (filter (\<lambda>v. roomOf v \<noteq> None) raw))) ''CONVERSATION_INDEX_LIMIT'') (\<lambda>_.
              Inr (spread matching new # retained, removals)))))))"

fun mutate_attempts ::
  "nat \<Rightarrow> (nat \<Rightarrow> store \<Rightarrow> store) \<Rightarrow> store \<Rightarrow> string \<Rightarrow> change option \<Rightarrow> store \<times> jsval list outcome"
where
  "mutate_attempts 0 env s room change = (s, Inl ''CONVERSATION_STORAGE_CONFLICT'')"
| "mutate_attempts (Suc n) env s room change =
     (case and_then (decodeArray (read_cell s SESSION_RECORD INDEX_ID)) (\<lambda>raw.
        and_then (decodeArray (read_cell s SESSION_RECORD REMOVALS_ID)) (\<lambda>removals. plan_mutation s room change raw removals)) of
        Inl e \<Rightarrow> (s, Inl e)
      | Inr (raw', removals') \<Rightarrow>
          let (s', ok) = compareAndSwapRecords (env n s)
                [\<lparr>update_key = (SESSION_RECORD, INDEX_ID), expected = read_cell s SESSION_RECORD INDEX_ID, next_cell = encode_array raw'\<rparr>,
                 \<lparr>update_key = (SESSION_RECORD, REMOVALS_ID), expected = read_cell s SESSION_RECORD REMOVALS_ID, next_cell = encode_array removals'\<rparr>]
          in if ok then (s', Inr (readConversationDescriptors s' False)) else mutate_attempts n env s' room change)"

definition mutate :: "(nat \<Rightarrow> store \<Rightarrow> store) \<Rightarrow> store \<Rightarrow> string \<Rightarrow> change option \<Rightarrow> store \<times> jsval list outcome" where
  "mutate env s room change =
     (if \<not> UUID_ok room then (s, Inl ''Saved conversation is invalid.'')
      else if \<not> casAvailable s then (s, Inl ''CONVERSATION_STORAGE_UNAVAILABLE'')
      else mutate_attempts MAX_CONFLICT_RETRIES env s room change)"

definition coalesce :: "jsval \<Rightarrow> jsval \<Rightarrow> jsval" where
  "coalesce a b = (if a = VUndefined \<or> a = VNull then b else a)"

definition merge_descriptor :: "jsval \<Rightarrow> change" where
  "merge_descriptor d s current =
     (case current of
        None \<Rightarrow> Inr d
      | Some c \<Rightarrow>
          if get_prop c ''controlCapability'' \<noteq> get_prop d ''controlCapability'' \<or>
             truthy (get_prop c ''remoteAddress'') \<and> get_prop c ''remoteAddress'' \<noteq> get_prop d ''remoteAddress'' \<or>
             truthy (get_prop c ''remoteIdentityCommitment'') \<and> get_prop c ''remoteIdentityCommitment'' \<noteq> get_prop d ''remoteIdentityCommitment''
          then Inl ''ROOM_MEMBERSHIP_MISMATCH''
          else validateConversationDescriptor (set_prop (set_prop (set_prop (set_prop (set_prop (spread (Some c) d)
            ''signedInvitation'' (coalesce (get_prop c ''signedInvitation'') (get_prop d ''signedInvitation'')))
            ''bootstrapState'' (if get_prop c ''bootstrapState'' = VStr ''ESTABLISHED'' then get_prop c ''bootstrapState''
               else coalesce (get_prop d ''bootstrapState'') (get_prop c ''bootstrapState'')))
            ''relationship'' (if get_prop c ''relationship'' = VStr ''accepted'' then get_prop c ''relationship''
               else coalesce (get_prop d ''relationship'') (get_prop c ''relationship'')))
            ''localNickname'' (coalesce (get_prop d ''localNickname'') (get_prop c ''localNickname'')))
            ''locallyArchived'' (get_prop c ''locallyArchived'')))"

definition saveConversationDescriptor :: "(nat \<Rightarrow> store \<Rightarrow> store) \<Rightarrow> store \<Rightarrow> jsval \<Rightarrow> store \<times> jsval list outcome" where
  "saveConversationDescriptor env s v =
     (case validateConversationDescriptor v of
        Inl e \<Rightarrow> (s, Inl e)
      | Inr d \<Rightarrow> mutate env s (room_id d) (Some (merge_descriptor d)))"

text \<open>A new pinned identity must be the one the contact registry already accepted.\<close>

definition registry_accepts :: "store \<Rightarrow> jsval \<Rightarrow> jsval \<Rightarrow> unit outcome" where
  "registry_accepts s address identity =
     (if truthy address then
        (case read_cell s ''contact-identity'' (str_of address) of
           None \<Rightarrow> Inl ''ROOM_MEMBERSHIP_MISMATCH''
         | Some c \<Rightarrow> and_then (parse_cell ''SyntaxError'' c) (\<lambda>contact.
             require (is_object contact \<and> has_prop contact ''identityId'' \<and> get_prop contact ''identityId'' = identity \<and>
               has_prop contact ''contactId'' \<and> get_prop contact ''contactId'' = address) ''ROOM_MEMBERSHIP_MISMATCH''))
      else Inl ''ROOM_MEMBERSHIP_MISMATCH'')"

definition patch_descriptor :: "int \<Rightarrow> jsval \<Rightarrow> change" where
  "patch_descriptor now patch s current =
     (case current of
        None \<Rightarrow> Inl ''CONVERSATION_REMOVED''
      | Some c \<Rightarrow>
          and_then (require (\<not> (has_prop patch ''remoteAddress'' \<and> \<not> truthy (get_prop patch ''remoteAddress'') \<or>
              has_prop patch ''remoteIdentityCommitment'' \<and> \<not> truthy (get_prop patch ''remoteIdentityCommitment''))) ''ROOM_MEMBERSHIP_MISMATCH'') (\<lambda>_.
          and_then (require (\<not> (truthy (get_prop patch ''remoteAddress'') \<and> truthy (get_prop c ''remoteAddress'') \<and>
              get_prop patch ''remoteAddress'' \<noteq> get_prop c ''remoteAddress'')) ''ROOM_MEMBERSHIP_MISMATCH'') (\<lambda>_.
          and_then (if truthy (get_prop patch ''remoteIdentityCommitment'') \<and>
                get_prop patch ''remoteIdentityCommitment'' \<noteq> get_prop c ''remoteIdentityCommitment''
              then registry_accepts s (coalesce (get_prop patch ''remoteAddress'') (get_prop c ''remoteAddress'')) (get_prop patch ''remoteIdentityCommitment'')
              else Inr ()) (\<lambda>_.
            validateConversationDescriptor (set_prop (set_prop (set_prop (spread (Some c) patch) ''updatedAt'' (VInt now))
              ''bootstrapState'' (if get_prop c ''bootstrapState'' = VStr ''ESTABLISHED'' then VStr ''ESTABLISHED''
                 else coalesce (get_prop patch ''bootstrapState'') (get_prop c ''bootstrapState'')))
              ''relationship'' (if get_prop c ''relationship'' = VStr ''accepted'' then VStr ''accepted''
                 else coalesce (get_prop patch ''relationship'') (get_prop c ''relationship'')))))))"

definition updateConversationDescriptor :: "(nat \<Rightarrow> store \<Rightarrow> store) \<Rightarrow> int \<Rightarrow> store \<Rightarrow> string \<Rightarrow> jsval \<Rightarrow> store \<times> jsval list outcome" where
  "updateConversationDescriptor env now s room patch = mutate env s room (Some (patch_descriptor now patch))"

definition removeConversationDescriptor :: "(nat \<Rightarrow> store \<Rightarrow> store) \<Rightarrow> store \<Rightarrow> string \<Rightarrow> store \<times> jsval list outcome" where
  "removeConversationDescriptor env s room = mutate env s room None"

section \<open>A removed conversation does not come back\<close>

definition index_of :: "store \<Rightarrow> jsval list" where
  "index_of s = (case decodeArray (read_cell s SESSION_RECORD INDEX_ID) of Inr vs \<Rightarrow> vs | Inl _ \<Rightarrow> [])"

definition removed_rooms :: "store \<Rightarrow> jsval list" where
  "removed_rooms s = (case decodeArray (read_cell s SESSION_RECORD REMOVALS_ID) of Inr vs \<Rightarrow> vs | Inl _ \<Rightarrow> [])"

definition index_ok :: "store \<Rightarrow> bool" where
  "index_ok s \<longleftrightarrow> list_all json_ok (index_of s) \<and> (\<forall>v \<in> set (index_of s). \<forall>r. roomOf v = Some r \<longrightarrow> VStr r \<notin> set (removed_rooms s))"

definition removals_grow :: "store \<Rightarrow> store \<Rightarrow> bool" where
  "removals_grow s t \<longleftrightarrow> set (removed_rooms s) \<subseteq> set (removed_rooms t)"

lemma validated_room: "validateConversationDescriptor v = Inr d \<Longrightarrow> get_prop d ''roomId'' = get_prop v ''roomId'' \<and> is_string (get_prop v ''roomId'')"
  by (auto simp: validateConversationDescriptor_def descriptor_ok_def prop_when_def)

lemma roomOf_room: "roomOf v = Some r \<Longrightarrow> get_prop v ''roomId'' = VStr r"
  using validated_room [of v]
  by (auto simp: roomOf_def room_id_def split: sum.splits elim: is_string.elims)

lemma roomOf_image: "get_prop v ''roomId'' = VStr room \<Longrightarrow> roomOf (json_image v) = Some r \<Longrightarrow> r = room"
  using roomOf_room [of "json_image v" r] get_json_image [of v "''roomId''"] by simp

lemma get_fold_put: "map_of (fold (\<lambda>(k, x) ps. put k x ps) xs ps) k = (case map_of (rev xs) k of Some x \<Rightarrow> Some x | None \<Rightarrow> map_of ps k)"
  by (induction xs arbitrary: ps) (auto simp: map_add_def split: option.splits)

text \<open>A change that keeps the room of the conversation it is applied to.\<close>

definition keeps_room :: "string \<Rightarrow> change \<Rightarrow> bool" where
  "keeps_room room f \<longleftrightarrow> (\<forall>s current new. (\<forall>c. current = Some c \<longrightarrow> get_prop c ''roomId'' = VStr room) \<longrightarrow>
     f s current = Inr new \<longrightarrow> (\<exists>ps. new = VObj ps \<and> map_of (rev ps) ''roomId'' = Some (VStr room)))"

lemma spread_room:
  "map_of (rev ps) ''roomId'' = Some (VStr room) \<Longrightarrow> get_prop (spread base (VObj ps)) ''roomId'' = VStr room"
  by (simp add: spread_def get_fold_put)

lemma plan_mutation_ok:
  assumes "plan_mutation s room change raw removals = Inr (raw', removals')" "\<And>f. change = Some f \<Longrightarrow> keeps_room room f"
  shows "set removals \<subseteq> set removals'" "\<forall>v \<in> set removals'. is_string v" "change = None \<Longrightarrow> VStr room \<in> set removals'"
    "\<forall>v \<in> set raw'. (v \<in> set raw \<and> roomOf v \<noteq> Some room) \<or>
      change \<noteq> None \<and> get_prop v ''roomId'' = VStr room \<and> VStr room \<notin> set removals \<and> removals' = removals"
    "change = None \<Longrightarrow> set removals' = insert (VStr room) (set removals)"
proof -
  let ?retained = "filter (\<lambda>v. roomOf v \<noteq> Some room) raw"
  have strings: "list_all (\<lambda>v. is_string v \<and> UUID_ok (str_of v)) removals" using assms(1) by (simp add: plan_mutation_def)
  have all: "set removals \<subseteq> set removals' \<and> (\<forall>v \<in> set removals'. is_string v) \<and> (change = None \<longrightarrow> set removals' = insert (VStr room) (set removals)) \<and>
    (\<forall>v \<in> set raw'. (v \<in> set raw \<and> roomOf v \<noteq> Some room) \<or>
      change \<noteq> None \<and> get_prop v ''roomId'' = VStr room \<and> VStr room \<notin> set removals \<and> removals' = removals)"
  proof (cases change)
    case None
    with assms(1) have "raw' = ?retained" "removals' = (if VStr room \<in> set removals then removals else removals @ [VStr room])"
      by (auto simp: plan_mutation_def Let_def)
    with None strings show ?thesis by (auto simp: list_all_iff)
  next
    case (Some f)
    define matching where "matching = (case filter (\<lambda>v. roomOf v = Some room) raw of v # _ \<Rightarrow> Some v | [] \<Rightarrow> None)"
    from assms(1) Some obtain current new where fresh: "VStr room \<notin> set removals"
      and current: "(case matching of Some v \<Rightarrow> and_then (validateConversationDescriptor v) (\<lambda>d. Inr (Some d)) | None \<Rightarrow> Inr None) = Inr current"
      and new: "f s current = Inr new" and out: "raw' = spread matching new # ?retained" "removals' = removals"
      by (auto simp: plan_mutation_def Let_def matching_def)
    have "matching = Some v \<Longrightarrow> v \<in> set (filter (\<lambda>v. roomOf v = Some room) raw)" for v
      by (cases "filter (\<lambda>v. roomOf v = Some room) raw") (auto simp: matching_def)
    then have "matching = Some v \<Longrightarrow> get_prop v ''roomId'' = VStr room" for v using roomOf_room by simp
    then have "current = Some c \<Longrightarrow> get_prop c ''roomId'' = VStr room" for c
      using current validated_room by (cases matching) fastforce+
    with assms(2) [OF Some] new obtain ps where "new = VObj ps" "map_of (rev ps) ''roomId'' = Some (VStr room)"
      unfolding keeps_room_def by blast
    then have "get_prop (spread matching new) ''roomId'' = VStr room" using spread_room by simp
    with Some fresh out strings show ?thesis by (auto simp: list_all_iff)
  qed
  then show "set removals \<subseteq> set removals'" "\<forall>v \<in> set removals'. is_string v" "change = None \<Longrightarrow> VStr room \<in> set removals'"
    "\<forall>v \<in> set raw'. (v \<in> set raw \<and> roomOf v \<noteq> Some room) \<or>
      change \<noteq> None \<and> get_prop v ''roomId'' = VStr room \<and> VStr room \<notin> set removals \<and> removals' = removals"
    "change = None \<Longrightarrow> set removals' = insert (VStr room) (set removals)" by auto
qed

lemma image_strings: "\<forall>v \<in> set vs. is_string v \<Longrightarrow> map json_image vs = vs"
  by (induction vs) (auto elim: is_string.elims)

text \<open>What a successful commit leaves, in terms of the lists it was planned from.\<close>

lemma commit_ok:
  assumes ok: "index_ok t" and raw: "index_of t = raw" "removed_rooms t = removals"
    and plan: "plan_mutation s room change raw removals = Inr (raw', removals')" "\<And>f. change = Some f \<Longrightarrow> keeps_room room f"
    and new: "read_cell t' SESSION_RECORD INDEX_ID = Some (encode_array raw')" "read_cell t' SESSION_RECORD REMOVALS_ID = Some (encode_array removals')"
  shows "index_ok t' \<and> removals_grow t t' \<and> (change = None \<longrightarrow> VStr room \<in> set (removed_rooms t'))"
proof -
  note plan_facts = plan_mutation_ok [OF plan]
  have index: "index_of t' = map json_image raw'" using new(1) by (simp add: index_of_def decodeArray_def encode_array_def)
  have removed: "removed_rooms t' = removals'"
    using new(2) image_strings [OF plan_facts(2)] by (simp add: removed_rooms_def decodeArray_def encode_array_def)
  have "VStr r \<notin> set removals'" if "v \<in> set raw'" "roomOf (json_image v) = Some r" for v r
  proof (cases "v \<in> set raw \<and> roomOf v \<noteq> Some room")
    case True
    then have "json_image v = v" using ok raw json_image_id by (auto simp: index_ok_def list_all_iff)
    then have "roomOf v = Some r" using that(2) by simp
    with True ok raw have "VStr r \<notin> set removals" "r \<noteq> room" by (auto simp: index_ok_def)
    moreover have "removals' = removals \<or> set removals' = insert (VStr room) (set removals)"
      using plan_facts(5) plan(1) by (cases change) (auto simp: plan_mutation_def Let_def)
    ultimately show ?thesis by auto
  next
    case False
    with plan_facts(4) that(1) have "get_prop v ''roomId'' = VStr room" "VStr room \<notin> set removals" "removals' = removals" by auto
    with roomOf_image [OF _ that(2)] show ?thesis by auto
  qed
  then have "index_ok t'" using index removed json_image_ok by (auto simp: index_ok_def list_all_iff)
  with plan_facts(1,3) removed raw show ?thesis by (simp add: removals_grow_def)
qed

lemma mutate_attempts_ok:
  assumes "index_ok s" "\<And>f. change = Some f \<Longrightarrow> keeps_room room f" "mutate_attempts n (\<lambda>_ u. u) s room change = (s', r)"
  shows "index_ok s' \<and> removals_grow s s' \<and> (change = None \<and> \<not> isl r \<longrightarrow> VStr room \<in> set (removed_rooms s'))"
proof (cases n)
  case 0
  with assms show ?thesis by (auto simp: removals_grow_def)
next
  case (Suc k)
  show ?thesis
  proof (cases "and_then (decodeArray (read_cell s SESSION_RECORD INDEX_ID)) (\<lambda>raw.
        and_then (decodeArray (read_cell s SESSION_RECORD REMOVALS_ID)) (\<lambda>removals. plan_mutation s room change raw removals))")
    case (Inl e)
    with assms Suc show ?thesis by (auto simp: removals_grow_def)
  next
    case (Inr plan)
    obtain raw' removals' where plan: "plan = (raw', removals')" by (rule prod.exhaust)
    from Inr plan obtain raw removals where decoded: "decodeArray (read_cell s SESSION_RECORD INDEX_ID) = Inr raw"
      "decodeArray (read_cell s SESSION_RECORD REMOVALS_ID) = Inr removals" "plan_mutation s room change raw removals = Inr (raw', removals')"
      by auto
    let ?us = "[\<lparr>update_key = (SESSION_RECORD, INDEX_ID), expected = read_cell s SESSION_RECORD INDEX_ID, next_cell = encode_array raw'\<rparr>,
       \<lparr>update_key = (SESSION_RECORD, REMOVALS_ID), expected = read_cell s SESSION_RECORD REMOVALS_ID, next_cell = encode_array removals'\<rparr>]"
    obtain s1 where cas: "compareAndSwapRecords s ?us = (s1, True)" by (simp add: compareAndSwapRecords_def read_cell_def)
    with assms(3) decoded have "s' = s1" unfolding Suc by simp
    with cas have "s' = fst (compareAndSwapRecords s ?us)" by simp
    then have "read_cell s' SESSION_RECORD INDEX_ID = Some (encode_array raw')" "read_cell s' SESSION_RECORD REMOVALS_ID = Some (encode_array removals')"
      by (simp_all add: compareAndSwapRecords_def read_cell_def INDEX_ID_def REMOVALS_ID_def)
    with commit_ok [OF assms(1) _ _ decoded(3) assms(2)] decoded show ?thesis by (simp add: index_of_def removed_rooms_def)
  qed
qed

lemma mutate_ok:
  assumes "index_ok s" "\<And>f. change = Some f \<Longrightarrow> keeps_room room f" "mutate (\<lambda>_ u. u) s room change = (s', r)"
  shows "index_ok s' \<and> removals_grow s s' \<and> (change = None \<and> \<not> isl r \<longrightarrow> VStr room \<in> set (removed_rooms s'))"
  using mutate_attempts_ok [OF assms(1,2)] assms by (auto simp: mutate_def removals_grow_def split: if_splits)

text \<open>The changes of the client keep the room: a patch never names it.\<close>

definition patch_keys :: "string list" where
  "patch_keys = [''label'', ''localNickname'', ''bootstrapState'', ''relationship'', ''remoteAddress'', ''remoteIdentityCommitment'',
     ''locallyDismissed'', ''locallyArchived'', ''pendingInvitationExpiresAt'']"

definition patch_ok :: "jsval \<Rightarrow> bool" where
  "patch_ok patch \<longleftrightarrow> list_all (\<lambda>k. k \<in> set patch_keys) (map fst (object_props patch))"

lemma validated_shape:
  "validateConversationDescriptor v = Inr d \<Longrightarrow> \<exists>ps. d = VObj ps \<and> map_of (rev ps) ''roomId'' = Some (get_prop v ''roomId'')"
  by (auto simp: validateConversationDescriptor_def prop_when_def)

lemma set_prop_spread: "get_prop (set_prop (spread b v) k x) k' = (if k' = k then x else get_prop (spread b v) k')"
  "\<exists>ps. set_prop (spread b v) k x = VObj ps"
  by (simp_all add: spread_def)

lemma get_set_prop_object: "is_plain_object v \<Longrightarrow> get_prop (set_prop v k x) k' = (if k' = k then x else get_prop v k')"
  "is_plain_object v \<Longrightarrow> is_plain_object (set_prop v k x)"
  by (cases v; simp)+

lemma plain_spread [simp]: "is_plain_object (spread b v)"
  by (simp add: spread_def)

lemma merge_keeps_room:
  assumes "validateConversationDescriptor v = Inr d" "get_prop v ''roomId'' = VStr room"
  shows "keeps_room room (merge_descriptor d)"
  unfolding keeps_room_def
proof (intro allI impI)
  fix s current new
  assume new: "merge_descriptor d s current = Inr new"
  from validated_shape [OF assms(1)] assms(2) obtain ps where d: "d = VObj ps" "map_of (rev ps) ''roomId'' = Some (VStr room)" by auto
  show "\<exists>ps. new = VObj ps \<and> map_of (rev ps) ''roomId'' = Some (VStr room)"
  proof (cases current)
    case None
    with new d show ?thesis by (auto simp: merge_descriptor_def)
  next
    case (Some c)
    then obtain w where w: "validateConversationDescriptor w = Inr new" "get_prop w ''roomId'' = get_prop (spread (Some c) d) ''roomId''"
      using new by (auto simp: merge_descriptor_def get_set_prop_object split: if_splits)
    with validated_shape [OF w(1)] d spread_room show ?thesis by auto
  qed
qed

lemma patch_keeps_room:
  assumes "patch_ok patch"
  shows "keeps_room room (patch_descriptor now patch)"
  unfolding keeps_room_def
proof (intro allI impI)
  fix s current new
  assume same: "\<forall>c. current = Some c \<longrightarrow> get_prop c ''roomId'' = VStr room" and new: "patch_descriptor now patch s current = Inr new"
  then obtain c w where c: "current = Some c" and w: "validateConversationDescriptor w = Inr new" "get_prop w ''roomId'' = get_prop (spread (Some c) patch) ''roomId''"
    by (cases current) (auto simp: patch_descriptor_def get_set_prop_object)
  have "''roomId'' \<notin> fst ` set (object_props patch)" using assms by (auto simp: patch_ok_def list_all_iff patch_keys_def)
  then have "map_of (rev (object_props patch)) ''roomId'' = None" by (simp add: map_of_eq_None_iff)
  moreover have "get_prop c ''roomId'' = VStr room" using same c by blast
  ultimately have "get_prop (spread (Some c) patch) ''roomId'' = VStr room" by (cases c) (simp_all add: spread_def get_fold_put)
  with validated_shape [OF w(1)] w(2) show "\<exists>ps. new = VObj ps \<and> map_of (rev ps) ''roomId'' = Some (VStr room)" by auto
qed

datatype index_op = Save_descriptor jsval | Update_descriptor int string jsval | Remove_descriptor string

fun op_typed :: "index_op \<Rightarrow> bool" where
  "op_typed (Update_descriptor now room patch) = patch_ok patch"
| "op_typed _ = True"

fun index_step :: "store \<Rightarrow> index_op \<Rightarrow> store \<times> jsval list outcome" where
  "index_step s (Save_descriptor v) = saveConversationDescriptor (\<lambda>_ u. u) s v"
| "index_step s (Update_descriptor now room patch) = updateConversationDescriptor (\<lambda>_ u. u) now s room patch"
| "index_step s (Remove_descriptor room) = removeConversationDescriptor (\<lambda>_ u. u) s room"

lemma index_step_ok:
  assumes "index_ok s" "op_typed e"
  shows "index_ok (fst (index_step s e)) \<and> removals_grow s (fst (index_step s e))"
proof (cases e)
  case (Save_descriptor v)
  show ?thesis
  proof (cases "validateConversationDescriptor v")
    case (Inl x)
    with assms Save_descriptor show ?thesis by (simp add: saveConversationDescriptor_def removals_grow_def)
  next
    case (Inr d)
    then have "get_prop v ''roomId'' = VStr (room_id d)" using validated_room [OF Inr] by (auto simp: room_id_def elim: is_string.elims)
    with mutate_ok [OF assms(1), of "Some (merge_descriptor d)" "room_id d"] merge_keeps_room [OF Inr] Inr Save_descriptor
    show ?thesis by (simp add: saveConversationDescriptor_def prod_eq_iff)
  qed
next
  case (Update_descriptor now room patch)
  with mutate_ok [OF assms(1), of "Some (patch_descriptor now patch)" room] patch_keeps_room assms(2)
  show ?thesis by (simp add: updateConversationDescriptor_def prod_eq_iff)
next
  case (Remove_descriptor room)
  with mutate_ok [OF assms(1), of None room] show ?thesis by (simp add: removeConversationDescriptor_def prod_eq_iff)
qed

lemma index_run_ok:
  "index_ok s \<Longrightarrow> list_all op_typed ops \<Longrightarrow> index_ok (final index_step s ops) \<and> removals_grow s (final index_step s ops)"
proof (induction ops arbitrary: s)
  case (Cons e ops)
  then have "index_ok (fst (index_step s e)) \<and> removals_grow s (fst (index_step s e))" using index_step_ok by simp
  with Cons show ?case by (fastforce simp: removals_grow_def)
qed (simp add: removals_grow_def)

lemma retries_Suc: "MAX_CONFLICT_RETRIES = Suc 63"
  by (simp add: MAX_CONFLICT_RETRIES_def)

lemma save_removed_refused:
  assumes "VStr (room_id d) \<in> set (removed_rooms s)" "validateConversationDescriptor v = Inr d"
  shows "isl (snd (saveConversationDescriptor env s v))"
proof -
  have "decodeArray (read_cell s SESSION_RECORD REMOVALS_ID) = Inr (removed_rooms s)"
    using assms(1) by (auto simp: removed_rooms_def split: sum.splits)
  then have "\<exists>e. and_then (decodeArray (read_cell s SESSION_RECORD INDEX_ID)) (\<lambda>raw.
      and_then (decodeArray (read_cell s SESSION_RECORD REMOVALS_ID)) (\<lambda>removals.
        plan_mutation s (room_id d) (Some (merge_descriptor d)) raw removals)) = Inl e"
    using assms(1) by (cases "decodeArray (read_cell s SESSION_RECORD INDEX_ID)") (auto simp: plan_mutation_def require_def)
  then have "isl (snd (mutate_attempts (Suc n) env s (room_id d) (Some (merge_descriptor d))))" for n by auto
  then have "isl (snd (mutate_attempts MAX_CONFLICT_RETRIES env s (room_id d) (Some (merge_descriptor d))))"
    unfolding retries_Suc .
  then show ?thesis using assms(2) by (simp add: saveConversationDescriptor_def mutate_def)
qed

text \<open>
  C15. Once a conversation was removed, no sequence of saves, updates and removals
  brings an entry of its room back into the index, and saving it again is
  refused: every commit compares and swaps the index together with the removal
  markers.
\<close>

theorem removed_conversation_stays_removed:
  assumes "index_ok s" and "removeConversationDescriptor (\<lambda>_ u. u) s room = (s', Inr rest)" and "list_all op_typed ops"
  shows "(\<forall>v \<in> set (index_of (final index_step s' ops)). roomOf v \<noteq> Some room) \<and>
    (\<forall>v. roomOf v = Some room \<longrightarrow> isl (snd (saveConversationDescriptor env (final index_step s' ops) v)))"
proof -
  from mutate_ok [OF assms(1), of None room s' "Inr rest"] assms(2)
  have "index_ok s'" and "VStr room \<in> set (removed_rooms s')" by (simp_all add: removeConversationDescriptor_def)
  with index_run_ok [OF _ assms(3)] have run: "index_ok (final index_step s' ops)" "VStr room \<in> set (removed_rooms (final index_step s' ops))"
    by (auto simp: removals_grow_def)
  moreover have "isl (snd (saveConversationDescriptor env (final index_step s' ops) v))" if "roomOf v = Some room" for v
  proof -
    from that obtain d where "validateConversationDescriptor v = Inr d" "room_id d = room" by (auto simp: roomOf_def split: sum.splits)
    with save_removed_refused [of d "final index_step s' ops" v env] run(2) show ?thesis by simp
  qed
  ultimately show ?thesis by (auto simp: index_ok_def)
qed

definition example_room :: string where
  "example_room = ''00000000-0000-4000-8000-000000000000''"

definition blank_store :: store where
  "blank_store = \<lparr>cells = (\<lambda>_. None), casAvailable = True\<rparr>"

lemma example_room_ok: "UUID_ok example_room"
  by (simp add: UUID_ok_def example_room_def uuid_groups_def is_hex_def is_hex_dash_def is_lower_hex_def is_digit_def code_def)

theorem removed_conversation_stays_removed_witness:
  "list_all (\<lambda>v. roomOf v \<noteq> Some example_room)
     (index_of (final index_step (fst (removeConversationDescriptor (\<lambda>_ u. u) blank_store example_room)) [Remove_descriptor example_room]))"
proof -
  have ok: "index_ok blank_store" by (simp add: index_ok_def index_of_def read_cell_def blank_store_def decodeArray_def)
  have "\<exists>rest. snd (mutate_attempts (Suc n) (\<lambda>_ u. u) blank_store example_room None) = Inr rest" for n
    by (simp add: blank_store_def read_cell_def decodeArray_def plan_mutation_def compareAndSwapRecords_def)
  from this [of 63] have "\<exists>rest. snd (mutate_attempts MAX_CONFLICT_RETRIES (\<lambda>_ u. u) blank_store example_room None) = Inr rest"
    unfolding retries_Suc .
  then have "\<exists>rest. snd (removeConversationDescriptor (\<lambda>_ u. u) blank_store example_room) = Inr rest"
    by (simp add: removeConversationDescriptor_def mutate_def example_room_ok blank_store_def)
  then obtain rest where "removeConversationDescriptor (\<lambda>_ u. u) blank_store example_room =
      (fst (removeConversationDescriptor (\<lambda>_ u. u) blank_store example_room), Inr rest)" by (auto simp: prod_eq_iff)
  from removed_conversation_stays_removed [OF ok this, of "[Remove_descriptor example_room]"] show ?thesis by (simp add: list_all_iff)
qed

end
