(* ===== verification/ConversationList.thy ===== *)
theory ConversationList
  imports Conversations
begin

text \<open>
  What the client shows of its saved conversations: the classification of failures
  into safe codes (\<open>client/src/product/safeDiagnostics.ts\<close>), whether a saved
  conversation may open and how the index and the sidebar are divided
  (\<open>client/src/product/conversationEligibility.ts\<close>), unsent drafts
  (\<open>composerDrafts.ts\<close>), the keys of the message list (\<open>messageList.ts\<close>) and the
  reasons that block a call (\<open>client/src/calls/callLaunchReadiness.ts\<close>).

  A thrown value is an \<open>Error\<close> with the properties the classification reads; the
  errors of the modelled stores carry their message, and \<open>SyntaxError\<close> and
  \<open>TypeError\<close> stand for the messages of the engine. The room probe and the clock
  are arguments.
\<close>

section \<open>Safe codes\<close>

definition SAFE_DIAGNOSTIC_CODES :: "string list" where
  "SAFE_DIAGNOSTIC_CODES = [''FILE_RATE_LIMITED'', ''FILE_PREFLIGHT_FAILED'', ''FILE_CREATE_FAILED'',
    ''FILE_MANIFEST_UPLOAD_FAILED'', ''FILE_CHUNK_UPLOAD_FAILED'', ''FILE_FINALIZE_FAILED'',
    ''FILE_REFERENCE_SEND_FAILED'', ''FILE_RECIPIENT_FETCH_FAILED'', ''FILE_DOWNLOAD_FAILED'',
    ''FILE_AUTHENTICATION_FAILED'', ''FILE_SAVE_FAILED'', ''FILE_SERVER_STATE_CONFLICT'',
    ''FILE_TRANSFER_EXPIRED'', ''FILE_TRANSFER_CANCELED'', ''FILE_AUTHORIZATION_FAILED'',
    ''FILE_QUOTA_EXCEEDED'', ''CONVERSATION_RECORD_INVALID'', ''CONVERSATION_INVITATION_UNACCEPTED'',
    ''CONVERSATION_INVITATION_EXPIRED'', ''CONVERSATION_STATE_INCOMPLETE'',
    ''CONVERSATION_RESTORE_FAILED'', ''CONVERSATION_SESSION_MISSING'', ''CONVERSATION_ROOM_MISSING'',
    ''CONTACT_REGISTRY_MISSING'', ''CONVERSATION_PREKEY_UNAVAILABLE'',
    ''CONVERSATION_ROUTING_AUTHORIZATION_UNAVAILABLE'', ''MESSAGE_HISTORY_ENTRY_QUARANTINED'',
    ''CONVERSATION_STORAGE_UNAVAILABLE'', ''CONVERSATION_STORAGE_CONFLICT'', ''CONVERSATION_REMOVED'',
    ''CONVERSATION_INDEX_LIMIT'', ''CONVERSATION_LOCAL_RECORD_INVALID'', ''CONVERSATION_IN_USE'',
    ''CONVERSATION_INVITATION_LOOKUP_FAILED'', ''CONVERSATION_OPEN_SUPERSEDED'',
    ''CONVERSATION_MUX_AUTHENTICATION_REJECTED'', ''CONVERSATION_MUX_SUBSCRIPTION_REJECTED'',
    ''CONVERSATION_MUX_HANDLE_UNAVAILABLE'', ''CONVERSATION_MUX_PROOF_UNAVAILABLE'',
    ''PINNED_IDENTITY_MISSING'', ''PINNED_IDENTITY_CHANGED'', ''VERIFICATION_RECORD_MISSING'',
    ''VERIFICATION_RESET_LOCAL'', ''CURRENT_IDENTITY_UNAVAILABLE'', ''ROOM_MEMBERSHIP_MISMATCH'',
    ''RECIPIENT_AUTHORITY_MISSING'', ''RECIPIENT_AUTHORITY_CHANGED'',
    ''FILE_RECIPIENT_BINDING_MISMATCH'', ''SERVICE_NOT_READY'', ''NETWORK_FAILURE'',
    ''VERIFICATION_REQUIRED'', ''UNKNOWN_SAFE_FAILURE'']"

record thrown =
  tag :: jsval
  restoreFailureCategory :: jsval
  message :: string
  status :: jsval
  syntaxError :: bool
  typeError :: bool

definition thrown_of :: "string \<Rightarrow> thrown" where
  "thrown_of m = \<lparr>tag = VUndefined, restoreFailureCategory = VUndefined, message = m, status = VUndefined,
     syntaxError = (m = ''SyntaxError''), typeError = (m = ''TypeError'')\<rparr>"

definition lower_char :: "char \<Rightarrow> char" where
  "lower_char c = (if 65 \<le> code c \<and> code c \<le> 90 \<or> 192 \<le> code c \<and> code c \<le> 222 \<and> code c \<noteq> 215
     then char_of (code c + 32) else c)"

definition has_text :: "string \<Rightarrow> string \<Rightarrow> bool" where
  "has_text m t = list_ex (\<lambda>n. take (length t) (drop n m) = t) [0..<Suc (length m)]"

datatype diagnostic_context = ConversationOpen | ContactAuthority | FileSend

definition retry_status :: "int \<Rightarrow> bool" where
  "retry_status n \<longleftrightarrow> n = 408 \<or> n = 425 \<or> n = 429 \<or> 500 \<le> n \<and> n \<le> 599"

text \<open>Lines 36 to 51: the codes that only opening a conversation gives.\<close>

definition open_code :: "string \<Rightarrow> jsval \<Rightarrow> string option" where
  "open_code m st =
     (if (case st of VNum n \<Rightarrow> retry_status (whole n) | _ \<Rightarrow> False) then Some ''NETWORK_FAILURE''
      else if st = VNum (Whole 404) \<and> (has_text m ''pre-key'' \<or> has_text m ''prekey'')
        then Some ''CONVERSATION_PREKEY_UNAVAILABLE''
      else if m = ''authenticated routing recovery unavailable''
        then Some ''CONVERSATION_ROUTING_AUTHORIZATION_UNAVAILABLE''
      else if has_text m ''saved conversation'' \<and> has_text m ''invalid'' then Some ''CONVERSATION_RECORD_INVALID''
      else if has_text m ''active in another tab'' then Some ''CONVERSATION_IN_USE''
      else if m = ''conversation open was superseded.'' then Some ''CONVERSATION_OPEN_SUPERSEDED''
      else if m = ''this private invitation expired. create a fresh conversation to continue.''
        then Some ''CONVERSATION_INVITATION_LOOKUP_FAILED''
      else if m \<in> {''mux device authentication rejected.'', ''device authentication rejected.'',
          ''relay authentication rejected.''} then Some ''CONVERSATION_MUX_AUTHENTICATION_REJECTED''
      else if m \<in> {''mux room subscription rejected.'', ''room subscription rejected.''}
        then Some ''CONVERSATION_MUX_SUBSCRIPTION_REJECTED''
      else if m \<in> {''a mux room handle already exists for this room.'', ''mux room handle is closed.'',
          ''mux relay connection is closed.''} then Some ''CONVERSATION_MUX_HANDLE_UNAVAILABLE''
      else if m = ''mux device authorization is unavailable.'' then Some ''CONVERSATION_MUX_PROOF_UNAVAILABLE''
      else None)"

text \<open>Lines 55 to 71: the codes read from the words of a message.\<close>

definition message_code :: "string \<Rightarrow> bool \<Rightarrow> string" where
  "message_code m type_error =
     (if has_text m ''unknown contact identity'' then ''CONTACT_REGISTRY_MISSING''
      else if has_text m ''file contact verification unavailable'' \<or>
          has_text m ''verification record'' \<and> has_text m ''missing'' then ''VERIFICATION_RECORD_MISSING''
      else if has_text m ''trust reset'' then ''VERIFICATION_RESET_LOCAL''
      else if has_text m ''unlock this device'' \<or> has_text m ''current identity unavailable''
        then ''CURRENT_IDENTITY_UNAVAILABLE''
      else if has_text m ''contact identity'' \<and> has_text m ''unavailable'' then ''PINNED_IDENTITY_MISSING''
      else if has_text m ''identity changed'' \<or> has_text m ''changed-pending-review'' \<or>
          has_text m ''identity does not match'' then ''PINNED_IDENTITY_CHANGED''
      else if has_text m ''verification reset'' then ''VERIFICATION_RESET_LOCAL''
      else if has_text m ''current identity'' \<and> has_text m ''unavailable'' then ''CURRENT_IDENTITY_UNAVAILABLE''
      else if has_text m ''room membership'' then ''ROOM_MEMBERSHIP_MISMATCH''
      else if has_text m ''recipient authority'' \<and> has_text m ''changed'' then ''RECIPIENT_AUTHORITY_CHANGED''
      else if has_text m ''recipient identity'' \<and> has_text m ''changed'' then ''RECIPIENT_AUTHORITY_CHANGED''
      else if has_text m ''recipient authority'' \<or> has_text m ''verified unchanged contact required''
        then ''RECIPIENT_AUTHORITY_MISSING''
      else if has_text m ''file identity binding'' \<or> has_text m ''file recipient binding''
        then ''FILE_RECIPIENT_BINDING_MISMATCH''
      else if has_text m ''not initialized'' \<or> has_text m ''service not ready'' then ''SERVICE_NOT_READY''
      else if type_error \<or> list_ex (has_text m) [''network'', ''fetch'', ''timeout'', ''timed out'',
          ''connection refused'', ''transport''] then ''NETWORK_FAILURE''
      else if list_ex (has_text m) [''verification'', ''identity'', ''review''] then ''VERIFICATION_REQUIRED''
      else ''UNKNOWN_SAFE_FAILURE'')"

definition untagged_code :: "diagnostic_context \<Rightarrow> thrown \<Rightarrow> string \<Rightarrow> string option \<Rightarrow> string" where
  "untagged_code ctx error m opening =
     (if restoreFailureCategory error = VStr ''session-record-missing'' then ''CONVERSATION_SESSION_MISSING''
      else case opening of
        Some c \<Rightarrow> c
      | None \<Rightarrow>
          if has_text m ''session'' \<and> (has_text m ''missing'' \<or> has_text m ''not found'')
            then ''CONVERSATION_SESSION_MISSING''
          else if ctx = ConversationOpen \<and> (has_text m ''secure record authentication'' \<or>
              has_text m ''protocol record is invalid'' \<or> syntaxError error) then ''CONVERSATION_LOCAL_RECORD_INVALID''
          else message_code m (typeError error))"

definition classifySafeDiagnostic :: "diagnostic_context \<Rightarrow> thrown \<Rightarrow> string" where
  "classifySafeDiagnostic ctx error =
     (let m = map lower_char (message error);
          opening = (if ctx = ConversationOpen then open_code m (status error) else None)
      in case tag error of
           VStr t \<Rightarrow> if t \<in> set SAFE_DIAGNOSTIC_CODES then t
             else untagged_code ctx error m opening
         | _ \<Rightarrow> untagged_code ctx error m opening)"

section \<open>Which saved conversations may open\<close>

text \<open>A probe of the room at the relay: a code, nothing, or an error.\<close>

type_synonym room_probe = "jsval \<Rightarrow> thrown + string option"

fun cell_nonempty :: "cell \<Rightarrow> bool" where
  "cell_nonempty (JsonText v) = True"
| "cell_nonempty (RawText t) = (t \<noteq> [])"

text \<open>Lines 17 to 31 for a valid descriptor: the code that denies, or none.\<close>

definition local_eligibility :: "store \<Rightarrow> jsval \<Rightarrow> string option outcome" where
  "local_eligibility s d =
     and_then (read_mode s (room_id d)) (\<lambda>stored_mode.
     case stored_mode of
       None \<Rightarrow> Inr (Some ''CONVERSATION_STATE_INCOMPLETE'')
     | Some mode \<Rightarrow>
         let remote = get_prop d ''remoteAddress''; bootstrap = get_prop d ''bootstrapState'';
             pin = get_prop d ''remoteIdentityCommitment'';
             routed = (truthy (get_prop mode ''localAddress'') \<and> truthy (get_prop mode ''routingProof'')) in
         if truthy remote \<and> truthy bootstrap \<and> bootstrap \<noteq> VStr ''ESTABLISHED'' \<and> routed then Inr None
         else if get_prop d ''relationship'' = VStr ''invitation'' \<and> \<not> truthy remote \<and> routed then Inr None
         else if \<not> truthy (get_prop mode ''remoteAddress'') \<and> \<not> truthy remote
           then Inr (Some ''CONVERSATION_INVITATION_UNACCEPTED'')
         else if \<not> routed then Inr (Some ''CONVERSATION_STATE_INCOMPLETE'')
         else if \<not> truthy (get_prop mode ''remoteAddress'') \<or> \<not> truthy remote \<or>
             get_prop mode ''remoteAddress'' \<noteq> remote \<or> get_prop mode ''localAddress'' = get_prop mode ''remoteAddress''
           then Inr (Some ''ROOM_MEMBERSHIP_MISMATCH'')
         else and_then (snd (get_contact s (str_of (get_prop mode ''remoteAddress'')) False)) (\<lambda>stored_contact.
           case stored_contact of
             None \<Rightarrow> Inr (Some ''CONTACT_REGISTRY_MISSING'')
           | Some contact \<Rightarrow>
               if get_prop contact ''contactId'' \<noteq> get_prop mode ''remoteAddress'' \<or> \<not> truthy pin \<or>
                   get_prop contact ''identityId'' \<noteq> pin then Inr (Some ''ROOM_MEMBERSHIP_MISMATCH'')
               else if \<not> truthy (get_prop mode ''sessionId'') \<or>
                   \<not> (case read_cell s ''vodozemac-session'' (room_id d) of Some c \<Rightarrow> cell_nonempty c | None \<Rightarrow> False)
                 then Inr (Some ''CONVERSATION_SESSION_MISSING'')
               else Inr None))"

definition open_failure :: "thrown \<Rightarrow> string" where
  "open_failure error =
     (let c = classifySafeDiagnostic ConversationOpen error
      in if c = ''UNKNOWN_SAFE_FAILURE'' then ''CONVERSATION_STORAGE_UNAVAILABLE'' else c)"

definition conversationEligibility :: "store \<Rightarrow> jsval \<Rightarrow> room_probe option \<Rightarrow> string option" where
  "conversationEligibility s v probe =
     (case validateConversationDescriptor v of
        Inl _ \<Rightarrow> Some ''CONVERSATION_RECORD_INVALID''
      | Inr d \<Rightarrow>
          (case (case probe of Some f \<Rightarrow> f d | None \<Rightarrow> Inr None) of
             Inl error \<Rightarrow> Some (open_failure error)
           | Inr (Some unavailable) \<Rightarrow> Some unavailable
           | Inr None \<Rightarrow>
               (case local_eligibility s d of
                  Inl e \<Rightarrow> Some (open_failure (thrown_of e))
                | Inr result \<Rightarrow> result)))"

record conversation_diagnostic =
  diag_room :: "string option"
  diag_label :: string
  diag_state :: string
  diag_code :: "string option"

definition authoritativeTerminal :: "string \<Rightarrow> bool" where
  "authoritativeTerminal c \<longleftrightarrow> c \<in> {''CONVERSATION_INVITATION_EXPIRED'', ''CONVERSATION_ROOM_MISSING'', ''CONVERSATION_REMOVED''}"

definition availability :: "string \<Rightarrow> string" where
  "availability c =
     (if authoritativeTerminal c then ''terminal''
      else if c = ''CONVERSATION_INVITATION_UNACCEPTED'' then ''pending''
      else if c \<in> {''ROOM_MEMBERSHIP_MISMATCH'', ''PINNED_IDENTITY_CHANGED'', ''VERIFICATION_REQUIRED'',
          ''CONVERSATION_MUX_AUTHENTICATION_REJECTED''} then ''review-required''
      else if c \<in> {''CONVERSATION_STATE_INCOMPLETE'', ''CONVERSATION_SESSION_MISSING'', ''CONTACT_REGISTRY_MISSING'',
          ''CONVERSATION_LOCAL_RECORD_INVALID'', ''CONVERSATION_RECORD_INVALID''} then ''local-incomplete''
      else ''retryable'')"

definition shown_label :: "jsval \<Rightarrow> string" where
  "shown_label d = str_of (nullish (get_prop d ''localNickname'')
     (nullish (get_prop d ''remoteDisplayName'') (get_prop d ''label'')))"

definition conversationDiagnostic :: "jsval \<Rightarrow> string \<Rightarrow> conversation_diagnostic" where
  "conversationDiagnostic d c =
     (let l = shown_label d in
      \<lparr>diag_room = Some (room_id d),
       diag_label = (if l = ''Private contact''
         then l @ [CHR '' '', CHR 0xB7, CHR '' ''] @ drop (length (room_id d) - 8) (room_id d) else l),
       diag_state = availability c, diag_code = Some c\<rparr>)"

section \<open>The sidebar\<close>

definition remote_failures :: "string list" where
  "remote_failures = [''CONVERSATION_PREKEY_UNAVAILABLE'', ''CONVERSATION_ROUTING_AUTHORIZATION_UNAVAILABLE'',
     ''NETWORK_FAILURE'', ''SERVICE_NOT_READY'']"

definition shows_despite :: "jsval \<Rightarrow> string option \<Rightarrow> bool" where
  "shows_despite d c \<longleftrightarrow> (case c of Some t \<Rightarrow> t \<in> set remote_failures | None \<Rightarrow> False) \<and>
     truthy (get_prop d ''remoteAddress'') \<and> truthy (get_prop d ''remoteIdentityCommitment'') \<and>
     (\<not> truthy (get_prop d ''bootstrapState'') \<or> get_prop d ''bootstrapState'' = VStr ''ESTABLISHED'')"

definition is_invitation :: "jsval \<Rightarrow> bool" where
  "is_invitation d \<longleftrightarrow> get_prop d ''relationship'' = VStr ''invitation'' \<and> \<not> truthy (get_prop d ''remoteAddress'')"

definition invitation_expiry :: "jsval \<Rightarrow> jsval" where
  "invitation_expiry d = nullish (get_prop (get_prop d ''signedInvitation'') ''expiresAt'')
     (get_prop d ''pendingInvitationExpiresAt'')"

definition has_expired :: "int \<Rightarrow> jsval \<Rightarrow> bool" where
  "has_expired now d \<longleftrightarrow> is_invitation d \<and> is_safe_num (invitation_expiry d) \<and> num_of (invitation_expiry d) \<le> now"

definition archived :: "jsval \<Rightarrow> bool" where
  "archived d \<longleftrightarrow> truthy (get_prop d ''locallyArchived'')"

definition terminal_rooms :: "conversation_diagnostic list \<Rightarrow> string list" where
  "terminal_rooms ds = concat (map (\<lambda>i. case (diag_room i, diag_code i) of
     (Some r, Some c) \<Rightarrow> if r \<noteq> [] \<and> authoritativeTerminal c then [r] else [] | _ \<Rightarrow> []) ds)"

definition is_pending :: "int \<Rightarrow> string list \<Rightarrow> jsval \<Rightarrow> bool" where
  "is_pending now terminal d \<longleftrightarrow> is_invitation d \<and> \<not> has_expired now d \<and> room_id d \<notin> set terminal"

record sidebar =
  chats :: "jsval list"
  pendingInvitations :: "jsval list"
  unavailable :: "conversation_diagnostic list"

text \<open>Lines 88 to 93: the diagnostics that stay.\<close>

definition expire_diagnostic :: "int \<Rightarrow> jsval list \<Rightarrow> conversation_diagnostic \<Rightarrow> conversation_diagnostic" where
  "expire_diagnostic now ds i =
     (case find (\<lambda>d. diag_room i = Some (room_id d)) ds of
        Some d \<Rightarrow> if has_expired now d \<and> diag_code i \<in> {Some ''CONVERSATION_STATE_INCOMPLETE'',
              Some ''CONVERSATION_INVITATION_UNACCEPTED''}
            then conversationDiagnostic d ''CONVERSATION_INVITATION_EXPIRED'' else i
      | None \<Rightarrow> i)"

definition kept_diagnostics :: "int \<Rightarrow> string list \<Rightarrow> jsval list \<Rightarrow> conversation_diagnostic list \<Rightarrow>
    conversation_diagnostic list" where
  "kept_diagnostics now terminal ds diagnostics =
     filter (\<lambda>i. \<not> list_ex (\<lambda>d. archived d \<and> Some (room_id d) = diag_room i) ds \<and>
         \<not> list_ex (\<lambda>d. Some (room_id d) = diag_room i \<and>
            (is_pending now terminal d \<or> shows_despite d (diag_code i))) ds)
       (map (expire_diagnostic now ds) diagnostics)"

definition diagnosed_rooms :: "conversation_diagnostic list \<Rightarrow> string list" where
  "diagnosed_rooms is = concat (map (\<lambda>i. case diag_room i of Some r \<Rightarrow> if r \<noteq> [] then [r] else [] | None \<Rightarrow> []) is)"

definition report :: "jsval \<Rightarrow> string \<Rightarrow> sidebar \<Rightarrow> sidebar" where
  "report d c g = (if room_id d \<in> set (diagnosed_rooms (unavailable g)) then g
     else g\<lparr>unavailable := unavailable g @ [conversationDiagnostic d c]\<rparr>)"

text \<open>Lines 96 to 113, for one descriptor.\<close>

definition place_descriptor :: "int \<Rightarrow> string list \<Rightarrow> jsval \<Rightarrow> sidebar \<Rightarrow> sidebar" where
  "place_descriptor now terminal d g =
     (if archived d then g
      else if is_pending now terminal d then g\<lparr>pendingInvitations := pendingInvitations g @ [d]\<rparr>
      else
        let g1 = (if has_expired now d then report d ''CONVERSATION_INVITATION_EXPIRED'' g else g) in
        if get_prop d ''bootstrapState'' \<in> {VStr ''PENDING_LOCAL'', VStr ''PENDING_REMOTE'', VStr ''FAILED_OR_UNSUPPORTED''}
          then report d ''CONVERSATION_INVITATION_UNACCEPTED'' g1
        else if room_id d \<in> set (diagnosed_rooms (unavailable g1)) then g1
        else g1\<lparr>chats := chats g1 @ [d]\<rparr>)"

definition classifySidebarConversations :: "int \<Rightarrow> jsval list \<Rightarrow> conversation_diagnostic list \<Rightarrow> sidebar \<times> jsval list" where
  "classifySidebarConversations now ds diagnostics =
     (let terminal = terminal_rooms diagnostics in
      (fold (place_descriptor now terminal) ds
         \<lparr>chats = [], pendingInvitations = [], unavailable = kept_diagnostics now terminal ds diagnostics\<rparr>,
       filter archived ds))"

section \<open>Reading the index\<close>

definition plain_diagnostic :: "string \<Rightarrow> string \<Rightarrow> string \<Rightarrow> conversation_diagnostic" where
  "plain_diagnostic l st c = \<lparr>diag_room = None, diag_label = l, diag_state = st, diag_code = Some c\<rparr>"

text \<open>
  The display name of the projected descriptor with the same pinned identity, and
  where it is shown: next to a failure the descriptor as it is when there is none.
\<close>

definition same_pin :: "jsval list \<Rightarrow> jsval \<Rightarrow> jsval option" where
  "same_pin ds d =
     (case find (\<lambda>x. room_id x = room_id d) ds of
        Some x \<Rightarrow> if get_prop x ''remoteIdentityCommitment'' = get_prop d ''remoteIdentityCommitment'' then Some x else None
      | None \<Rightarrow> None)"

definition display_name :: "jsval option \<Rightarrow> jsval" where
  "display_name x = (case x of Some v \<Rightarrow> get_prop v ''remoteDisplayName'' | None \<Rightarrow> VUndefined)"

record index_scan =
  scan_found :: "jsval list"
  scan_unavailable :: "conversation_diagnostic list"
  scan_seen :: "string list"
  scan_omitted :: nat

definition add_bounded :: "conversation_diagnostic \<Rightarrow> index_scan \<Rightarrow> index_scan" where
  "add_bounded i g = (if length (scan_unavailable g) < CONVERSATION_WINDOW
     then g\<lparr>scan_unavailable := scan_unavailable g @ [i]\<rparr> else g)"

definition scan_entry :: "store \<Rightarrow> jsval list \<Rightarrow> room_probe option \<Rightarrow> string list \<Rightarrow> jsval \<Rightarrow> index_scan \<Rightarrow> index_scan" where
  "scan_entry s ds probe visible v g =
     (case validateConversationDescriptor v of
        Inl _ \<Rightarrow> add_bounded (plain_diagnostic ''Invalid saved entry'' ''local-incomplete'' ''CONVERSATION_RECORD_INVALID'') g
      | Inr d \<Rightarrow>
          if room_id d \<in> set (scan_seen g) then add_bounded (conversationDiagnostic d ''CONVERSATION_RECORD_INVALID'') g
          else
            let g1 = g\<lparr>scan_seen := room_id d # scan_seen g\<rparr> in
            if room_id d \<notin> set visible then g1\<lparr>scan_omitted := Suc (scan_omitted g1)\<rparr>
            else
              let named = (if same_pin ds d \<noteq> None \<or>
                      find (\<lambda>x. room_id x = room_id d) ds = None \<and> get_prop d ''remoteIdentityCommitment'' = VUndefined
                    then set_prop d ''remoteDisplayName'' (display_name (same_pin ds d)) else d);
                  shown = set_prop d ''remoteDisplayName'' (display_name (same_pin ds d))
              in case conversationEligibility s v probe of
                   None \<Rightarrow> g1\<lparr>scan_found := scan_found g1 @ [shown]\<rparr>
                 | Some failure \<Rightarrow>
                     let g2 = g1\<lparr>scan_unavailable := scan_unavailable g1 @ [conversationDiagnostic named failure]\<rparr>
                     in if authoritativeTerminal failure then g2
                        else g2\<lparr>scan_found := scan_found g2 @ [shown]\<rparr>)"

definition scan_index :: "store \<Rightarrow> jsval list \<Rightarrow> room_probe option \<Rightarrow> jsval list \<Rightarrow> index_scan" where
  "scan_index s ds probe raw =
     (let visible = map room_id (take CONVERSATION_WINDOW (sort_key (\<lambda>d. - updated_at d) (first_descriptors [] raw)))
      in fold (scan_entry s ds probe visible) raw
           \<lparr>scan_found = [], scan_unavailable = [], scan_seen = [], scan_omitted = 0\<rparr>)"

definition readConversationIndex :: "store \<Rightarrow> jsval list \<Rightarrow> room_probe option \<Rightarrow>
    jsval list \<times> conversation_diagnostic list" where
  "readConversationIndex s ds probe =
     (let invalid = (ds, [plain_diagnostic ''Saved conversation index'' ''local-incomplete'' ''CONVERSATION_RECORD_INVALID'']);
          read_raw = (\<lambda>raw. let g = scan_index s ds probe raw in
            (sort_key (\<lambda>d. - updated_at d) (scan_found g),
             scan_unavailable g @ (if scan_omitted g = 0 then [] else
               [plain_diagnostic (show_nat (scan_omitted g) @ '' additional saved entries'') ''deferred''
                  ''CONVERSATION_INDEX_LIMIT''])))
      in case read_cell s SESSION_RECORD INDEX_ID of
           None \<Rightarrow> read_raw []
         | Some (JsonText (VArr raw)) \<Rightarrow> read_raw raw
         | Some _ \<Rightarrow> invalid)"

section \<open>Drafts, keys and call readiness\<close>

definition MAX_DRAFT_ROOMS :: nat where
  "MAX_DRAFT_ROOMS = 64"

text \<open>
  Objects compared by identity (the scope a draft belongs to, the ticket of a
  send) are numbers; a new ticket is a number not used before. The maps keep
  their insertion order.
\<close>

record drafts_state =
  draft_scope :: "nat option"
  version :: nat
  sending :: "(string \<times> nat) list"
  drafts :: "(string \<times> string) list"
  next_ticket :: nat

definition no_drafts :: drafts_state where
  "no_drafts = \<lparr>draft_scope = None, version = 0, sending = [], drafts = [], next_ticket = 0\<rparr>"

definition changed :: "drafts_state \<Rightarrow> drafts_state" where
  "changed st = st\<lparr>version := Suc (version st)\<rparr>"

definition bind_scope :: "drafts_state \<Rightarrow> nat option \<Rightarrow> drafts_state" where
  "bind_scope st sc = (if sc \<noteq> draft_scope st
     then changed (st\<lparr>drafts := [], sending := [], draft_scope := sc\<rparr>) else st)"

definition isSending :: "drafts_state \<Rightarrow> string \<Rightarrow> bool" where
  "isSending st room = (map_of (sending st) room \<noteq> None)"

definition boundTo :: "drafts_state \<Rightarrow> nat option \<Rightarrow> bool" where
  "boundTo st sc \<longleftrightarrow> sc \<noteq> None \<and> draft_scope st = sc"

definition beginSend :: "drafts_state \<Rightarrow> string \<Rightarrow> nat option \<Rightarrow> drafts_state \<times> nat option" where
  "beginSend st room sc =
     (if room = [] \<or> \<not> boundTo st sc \<or> isSending st room \<or> MAX_DRAFT_ROOMS \<le> length (sending st) then (st, None)
      else (changed (st\<lparr>sending := sending st @ [(room, next_ticket st)], next_ticket := Suc (next_ticket st)\<rparr>),
        Some (next_ticket st)))"

definition endSend :: "drafts_state \<Rightarrow> string \<Rightarrow> nat \<Rightarrow> nat option \<Rightarrow> drafts_state" where
  "endSend st room ticket sc =
     (if \<not> boundTo st sc \<or> map_of (sending st) room \<noteq> Some ticket then st
      else changed (st\<lparr>sending := filter (\<lambda>p. fst p \<noteq> room) (sending st)\<rparr>))"

definition get_draft :: "drafts_state \<Rightarrow> string \<Rightarrow> string" where
  "get_draft st room = (if room = [] then [] else case map_of (drafts st) room of Some t \<Rightarrow> t | None \<Rightarrow> [])"

definition set_draft :: "drafts_state \<Rightarrow> string \<Rightarrow> string \<Rightarrow> drafts_state" where
  "set_draft st room typed =
     (let rest = filter (\<lambda>p. fst p \<noteq> room) (drafts st) in
      if room = [] then st
      else if trim_text typed = [] then changed (st\<lparr>drafts := rest\<rparr>)
      else let ds = rest @ [(room, typed)]
           in changed (st\<lparr>drafts := drop (length ds - MAX_DRAFT_ROOMS) ds\<rparr>))"

definition clearIfUnchanged :: "drafts_state \<Rightarrow> string \<Rightarrow> string \<Rightarrow> drafts_state \<times> bool" where
  "clearIfUnchanged st room sent =
     (if room = [] \<or> map_of (drafts st) room \<noteq> Some sent then (st, False)
      else (changed (st\<lparr>drafts := filter (\<lambda>p. fst p \<noteq> room) (drafts st)\<rparr>), True))"

definition clearAll :: "drafts_state \<Rightarrow> drafts_state" where
  "clearAll st = changed (st\<lparr>drafts := [], sending := []\<rparr>)"

fun keys_from :: "string \<Rightarrow> string list \<Rightarrow> string list \<Rightarrow> string list" where
  "keys_from room seen [] = []"
| "keys_from room seen (i # is) =
     (let base = (if i = [] then ''message'' else i)
      in stringify (VArr [VStr room, VStr base, VNum (Whole (int (count_list seen base)))])
         # keys_from room (base # seen) is)"

definition messageKeys :: "string list \<Rightarrow> string \<Rightarrow> string list" where
  "messageKeys ids room = keys_from room [] ids"

record call_readiness =
  hasConversation :: bool
  modernProtocol :: bool
  connected :: bool
  healthySession :: bool
  contactCheck :: "string option"
  contactChange :: "string option"
  callInProgress :: bool

definition getCallLaunchBlockReason :: "call_readiness \<Rightarrow> string option" where
  "getCallLaunchBlockReason x =
     (if \<not> hasConversation x then Some ''no-conversation''
      else if \<not> modernProtocol x then Some ''upgrade-required''
      else if contactChange x = Some ''changed-pending-review'' then Some ''identity-change-pending-review''
      else if contactChange x \<noteq> Some ''unchanged'' \<or> contactCheck x = None \<or> contactCheck x = Some ''unknown''
        then Some ''verification-unavailable''
      else if contactCheck x \<noteq> Some ''verified'' then Some ''verification-required''
      else if \<not> connected x \<or> \<not> healthySession x then Some ''connection-unavailable''
      else if callInProgress x then Some ''call-in-progress''
      else None)"

text \<open>The objects an observation of a room was started with, and those that are current when it ends.\<close>

record observation =
  obs_operation :: nat
  obs_scope :: "nat option"
  obs_descriptor :: "nat option"

definition roomObservationCurrent :: "observation \<Rightarrow> observation \<Rightarrow> bool \<Rightarrow> bool \<Rightarrow> bool" where
  "roomObservationCurrent first current aborted is_connected \<longleftrightarrow>
     obs_scope first \<noteq> None \<and> \<not> aborted \<and> \<not> is_connected \<and> obs_operation first = obs_operation current \<and>
     obs_scope first = obs_scope current \<and> obs_descriptor first = obs_descriptor current"

text \<open>Which terminal code an observation reports, with what \<open>isCurrent\<close> said before and after the probe.\<close>

definition observed_terminal :: "jsval \<Rightarrow> room_probe \<Rightarrow> bool \<Rightarrow> bool \<Rightarrow> string option" where
  "observed_terminal d probe before after =
     (if \<not> before then None
      else case probe d of
        Inr (Some c) \<Rightarrow> if authoritativeTerminal c \<and> after then Some c else None
      | _ \<Rightarrow> None)"

section \<open>Opening rests on the pinned identity\<close>

text \<open>A descriptor of a contact with whom the bootstrap is finished.\<close>

definition established :: "jsval \<Rightarrow> bool" where
  "established d \<longleftrightarrow> truthy (get_prop d ''remoteAddress'') \<and>
     (\<not> truthy (get_prop d ''bootstrapState'') \<or> get_prop d ''bootstrapState'' = VStr ''ESTABLISHED'')"

definition pinned_session :: "store \<Rightarrow> jsval \<Rightarrow> bool" where
  "pinned_session s d \<longleftrightarrow>
     (case (read_mode s (room_id d), snd (get_contact s (str_of (get_prop d ''remoteAddress'')) False)) of
        (Inr (Some mode), Inr (Some contact)) \<Rightarrow>
          get_prop mode ''remoteAddress'' = get_prop d ''remoteAddress'' \<and>
          get_prop contact ''contactId'' = get_prop d ''remoteAddress'' \<and>
          truthy (get_prop d ''remoteIdentityCommitment'') \<and>
          get_prop contact ''identityId'' = get_prop d ''remoteIdentityCommitment'' \<and>
          (case read_cell s ''vodozemac-session'' (room_id d) of Some c \<Rightarrow> cell_nonempty c | None \<Rightarrow> False)
      | _ \<Rightarrow> False)"

lemma local_eligibility_pinned:
  assumes "local_eligibility s d = Inr None" and "established d"
  shows "pinned_session s d"
proof -
  obtain mode where mode: "read_mode s (room_id d) = Inr (Some mode)"
    using assms(1) by (cases "read_mode s (room_id d)") (auto simp: local_eligibility_def split: option.splits)
  show ?thesis
  proof (cases "snd (get_contact s (str_of (get_prop mode ''remoteAddress'')) False)")
    case (Inl e)
    then show ?thesis
      using assms mode by (auto simp: local_eligibility_def established_def Let_def split: if_splits)
  next
    case (Inr c)
    then show ?thesis
      using assms mode
      by (auto simp: local_eligibility_def established_def pinned_session_def Let_def split: if_splits option.splits)
  qed
qed

text \<open>
  C8. A saved conversation with an established contact opens only when its local
  records agree: the stored protocol names the same remote address, the contact
  registry pins the identity the descriptor commits to, and a session is stored.
\<close>

theorem open_requires_pinned_identity:
  assumes "validateConversationDescriptor v = Inr d" and "established d"
    and "conversationEligibility s v probe = None"
  shows "pinned_session s d"
proof -
  have "local_eligibility s d = Inr None"
    using assms(1,3) by (auto simp: conversationEligibility_def split: sum.splits option.splits)
  then show ?thesis using assms(2) by (rule local_eligibility_pinned)
qed

section \<open>The sidebar shows every conversation\<close>

definition shown_in :: "sidebar \<Rightarrow> jsval \<Rightarrow> bool" where
  "shown_in g d \<longleftrightarrow> d \<in> set (chats g) \<or> d \<in> set (pendingInvitations g) \<or>
     room_id d \<in> set (diagnosed_rooms (unavailable g))"

definition sidebar_grows :: "sidebar \<Rightarrow> sidebar \<Rightarrow> bool" where
  "sidebar_grows g h \<longleftrightarrow> set (chats g) \<subseteq> set (chats h) \<and> set (pendingInvitations g) \<subseteq> set (pendingInvitations h) \<and>
     set (diagnosed_rooms (unavailable g)) \<subseteq> set (diagnosed_rooms (unavailable h))"

lemma report_grows: "sidebar_grows g (report d c g)"
  by (auto simp: sidebar_grows_def report_def diagnosed_rooms_def)

lemma report_rooms: "room_id d \<noteq> [] \<Longrightarrow> room_id d \<in> set (diagnosed_rooms (unavailable (report d c g)))"
  by (auto simp: report_def diagnosed_rooms_def conversationDiagnostic_def Let_def)

lemma sidebar_grows_refl [simp]: "sidebar_grows g g"
  by (simp add: sidebar_grows_def)

lemma sidebar_grows_trans: "sidebar_grows g h \<Longrightarrow> sidebar_grows h k \<Longrightarrow> sidebar_grows g k"
  by (auto simp: sidebar_grows_def)

lemma shown_in_grows: "shown_in g d \<Longrightarrow> sidebar_grows g h \<Longrightarrow> shown_in h d"
  by (auto simp: shown_in_def sidebar_grows_def)

lemma append_grows:
  "sidebar_grows g (g\<lparr>chats := chats g @ xs\<rparr>)" "sidebar_grows g (g\<lparr>pendingInvitations := pendingInvitations g @ xs\<rparr>)"
  by (simp_all add: sidebar_grows_def)

lemma place_grows: "sidebar_grows g (place_descriptor now terminal d g)"
proof -
  have "sidebar_grows g (report d c (report d c' g))" for c c'
    using sidebar_grows_trans report_grows by blast
  moreover have "sidebar_grows g ((report d c g)\<lparr>chats := chats (report d c g) @ [d]\<rparr>)" for c
    using sidebar_grows_trans report_grows append_grows(1) by blast
  ultimately show ?thesis
    by (simp add: place_descriptor_def Let_def report_grows append_grows)
qed

lemma place_shows: "\<not> archived d \<Longrightarrow> room_id d \<noteq> [] \<Longrightarrow> shown_in (place_descriptor now terminal d g) d"
  by (auto simp: place_descriptor_def Let_def shown_in_def report_rooms)

lemma fold_place_grows: "sidebar_grows g (fold (place_descriptor now terminal) ds g)"
  by (induction ds arbitrary: g) (auto intro: sidebar_grows_trans place_grows)

lemma fold_place_shows:
  "d \<in> set ds \<Longrightarrow> \<not> archived d \<Longrightarrow> room_id d \<noteq> [] \<Longrightarrow> shown_in (fold (place_descriptor now terminal) ds g) d"
  by (induction ds arbitrary: g) (auto intro: shown_in_grows [OF place_shows fold_place_grows])

text \<open>
  C30. The sidebar hides no saved conversation: each one is archived, a chat, a
  pending invitation, or its room is listed among the unavailable ones.
\<close>

theorem sidebar_hides_nothing:
  assumes "d \<in> set ds" and "room_id d \<noteq> []"
  shows "d \<in> set (snd (classifySidebarConversations now ds diagnostics)) \<or>
    shown_in (fst (classifySidebarConversations now ds diagnostics)) d"
  using assms fold_place_shows [OF assms(1) _ assms(2)]
  by (cases "archived d") (simp_all add: classifySidebarConversations_def Let_def)

section \<open>Keys, drafts and calls\<close>

lemma message_key_inj:
  "stringify (VArr [VStr r, VStr b, VNum (Whole (int n))]) = stringify (VArr [VStr r, VStr c, VNum (Whole (int k))])
    \<longleftrightarrow> b = c \<and> n = k"
  using stringify_inj [of "VArr [VStr r, VStr b, VNum (Whole (int n))]" "VArr [VStr r, VStr c, VNum (Whole (int k))]"]
  by auto

lemma keys_from_shape:
  "x \<in> set (keys_from room seen is) \<Longrightarrow> \<exists>b n. x = stringify (VArr [VStr room, VStr b, VNum (Whole (int n))]) \<and>
     count_list seen b \<le> n"
proof (induction "is" arbitrary: seen)
  case (Cons i ids)
  then show ?case
    by (fastforce simp del: stringify.simps simp: Let_def split: if_splits)
qed simp

text \<open>No two messages share a key, even when they share an identifier.\<close>

lemma keys_from_distinct: "distinct (keys_from room seen is)"
proof (induction "is" arbitrary: seen)
  case (Cons i ids)
  let ?b = "if i = [] then ''message'' else i"
  have "stringify (VArr [VStr room, VStr ?b, VNum (Whole (int (count_list seen ?b)))]) \<notin> set (keys_from room (?b # seen) ids)"
  proof
    assume "stringify (VArr [VStr room, VStr ?b, VNum (Whole (int (count_list seen ?b)))]) \<in> set (keys_from room (?b # seen) ids)"
    from keys_from_shape [OF this] obtain b n where
      "stringify (VArr [VStr room, VStr ?b, VNum (Whole (int (count_list seen ?b)))]) =
         stringify (VArr [VStr room, VStr b, VNum (Whole (int n))])" and le: "count_list (?b # seen) b \<le> n"
      by blast
    then have b: "?b = b" and n: "count_list seen ?b = n" unfolding message_key_inj by blast+
    from le n show False unfolding b by simp
  qed
  with Cons.IH show ?case by (simp add: Let_def del: stringify.simps)
qed simp

lemma messageKeys_distinct: "distinct (messageKeys ids room)"
  by (simp add: messageKeys_def keys_from_distinct)

text \<open>At most 64 drafts and as many sends, each room once.\<close>

datatype draft_request =
    Bind "nat option"
  | BeginSend string "nat option"
  | EndSend string nat "nat option"
  | SetDraft string string
  | ClearDraft string string
  | ClearAll

fun draft_step :: "drafts_state \<Rightarrow> draft_request \<Rightarrow> drafts_state \<times> nat option" where
  "draft_step st (Bind sc) = (bind_scope st sc, None)"
| "draft_step st (BeginSend room sc) = beginSend st room sc"
| "draft_step st (EndSend room ticket sc) = (endSend st room ticket sc, None)"
| "draft_step st (SetDraft room typed) = (set_draft st room typed, None)"
| "draft_step st (ClearDraft room sent) = (fst (clearIfUnchanged st room sent), None)"
| "draft_step st ClearAll = (clearAll st, None)"

definition drafts_ok :: "drafts_state \<Rightarrow> bool" where
  "drafts_ok st \<longleftrightarrow> length (drafts st) \<le> MAX_DRAFT_ROOMS \<and> length (sending st) \<le> MAX_DRAFT_ROOMS \<and>
     distinct (map fst (drafts st)) \<and> distinct (map fst (sending st))"

lemma length_filter_bound: "length xs \<le> n \<Longrightarrow> length (filter P xs) \<le> n"
  using le_trans length_filter_le by blast

lemma distinct_keys_filter: "distinct (map fst xs) \<Longrightarrow> distinct (map fst (filter P xs))"
  by (induction xs) auto

lemma distinct_keys_drop: "distinct (map fst xs) \<Longrightarrow> distinct (map fst (drop n xs))"
  by (metis distinct_drop drop_map)

interpretation drafts: invariant_machine draft_step drafts_ok
proof
  fix st q
  assume ok: "drafts_ok st"
  show "drafts_ok (fst (draft_step st q))"
  proof (cases q)
    case (SetDraft room typed)
    define ds where "ds = filter (\<lambda>p. fst p \<noteq> room) (drafts st) @ [(room, typed)]"
    have "distinct (map fst ds)"
      using ok distinct_keys_filter by (auto simp: drafts_ok_def ds_def)
    from distinct_keys_drop [OF this] have "distinct (map fst (drop (length ds - MAX_DRAFT_ROOMS) ds))" .
    moreover have "length (drop (length ds - MAX_DRAFT_ROOMS) ds) \<le> MAX_DRAFT_ROOMS" by simp
    ultimately show ?thesis
      using ok SetDraft by (cases "trim_text typed = []"; cases "room = []")
        (simp_all only: draft_step.simps set_draft_def changed_def drafts_ok_def Let_def ds_def [symmetric]
          if_True if_False fst_conv, simp_all add: distinct_keys_filter length_filter_bound)
  next
    case (BeginSend room sc)
    then show ?thesis using ok
      by (auto simp: beginSend_def changed_def drafts_ok_def isSending_def map_of_eq_None_iff)
  qed (use ok in \<open>auto simp: bind_scope_def endSend_def clearIfUnchanged_def clearAll_def changed_def drafts_ok_def
      distinct_keys_filter length_filter_bound\<close>)
qed

lemma drafts_bounded: "drafts_ok (final draft_step no_drafts reqs)"
  by (rule drafts.run_inv) (simp add: no_drafts_def drafts_ok_def)

text \<open>A call may start only for a checked, unchanged contact over a healthy modern session.\<close>

lemma call_launch_ready:
  "getCallLaunchBlockReason x = None \<longleftrightarrow> hasConversation x \<and> modernProtocol x \<and> contactChange x = Some ''unchanged'' \<and>
     contactCheck x = Some ''verified'' \<and> connected x \<and> healthySession x \<and> \<not> callInProgress x"
  by (auto simp: getCallLaunchBlockReason_def)

text \<open>What an observation reports is terminal.\<close>

lemma observed_terminal_only: "observed_terminal d probe before after = Some c \<Longrightarrow> authoritativeTerminal c"
  by (auto simp: observed_terminal_def split: if_splits sum.splits option.splits)

section \<open>Examples\<close>

definition sample_descriptor :: jsval where
  "sample_descriptor = VObj [(''version'', VInt 1), (''roomId'', VStr ''00000000-0000-4000-8000-000000000001''),
     (''label'', VStr ''Alice''), (''updatedAt'', VInt 5)]"

theorem sidebar_hides_nothing_witness:
  "sample_descriptor \<in> set (snd (classifySidebarConversations 0 [sample_descriptor] [])) \<or>
    shown_in (fst (classifySidebarConversations 0 [sample_descriptor] [])) sample_descriptor"
  by (rule sidebar_hides_nothing) (simp_all add: sample_descriptor_def room_id_def)

definition sample_pin :: string where
  "sample_pin = ''K3 AAAAAAAAAAAAAAAAAAAA''"

definition sample_saved :: jsval where
  "sample_saved = VObj [(''version'', VInt 1), (''roomId'', VStr example_room),
     (''controlCapability'', VStr (replicate 43 (CHR ''a''))), (''remoteAddress'', VStr ''bob-address''),
     (''remoteIdentityCommitment'', VStr sample_pin), (''label'', VStr ''Bob''), (''updatedAt'', VInt 5)]"

definition sample_mode :: jsval where
  "sample_mode = VObj [(''version'', VInt 1), (''mode'', VStr ''modern''), (''sessionId'', VStr ''s''),
     (''localAddress'', VStr ''alice-address''), (''remoteAddress'', VStr ''bob-address''),
     (''routingProof'', VStr (replicate 43 (CHR ''a'')))]"

definition sample_contact :: jsval where
  "sample_contact = VObj [(''contactId'', VStr ''bob-address''), (''identityId'', VStr sample_pin),
     (''algorithm'', VStr ''vodozemac''), (''publicKey'', VStr ''AQ''), (''verification'', VStr ''verified''),
     (''changeStatus'', VStr ''unchanged'')]"

definition sample_store :: store where
  "sample_store = \<lparr>cells = (\<lambda>k. if k = (''contact-identity'', ''bob-address'') then Some (JsonText sample_contact)
     else if k = (MODE_RECORD, example_room) then Some (JsonText sample_mode)
     else if k = (''vodozemac-session'', example_room) then Some (RawText ''x'') else None), casAvailable = True\<rparr>"

lemma sample_saved_ok: "descriptor_ok sample_saved"
  by (simp add: descriptor_ok_def sample_saved_def example_room_ok secret_pattern_def commitment_pattern_def
      sample_pin_def if_present_def natural_def trim_text_def is_js_space_def code_def is_id_char_def
      is_fingerprint_char_def list_all_iff safe_int_def MAX_SAFE_INTEGER_def)

lemma sample_mode_ok: "mode_ok sample_mode"
  by (simp add: mode_ok_def sample_mode_def mode_keys_def short_text_def routing_proof_ok_def is_id_char_def code_def
      list_all_iff)

lemma sample_contact_parses: "parseStored (JsonText sample_contact) = Inr sample_contact"
  by (simp add: parseStored_def sample_contact_def stored_contact_ok_def stored_keys_def fromBase64Url_def atob_def
      drop_padding_def sextet_def is_ascii_space_def is_digit_def code_def numeral_2_eq_2)

theorem open_requires_pinned_identity_witness:
  "\<exists>d. validateConversationDescriptor sample_saved = Inr d \<and> established d \<and> pinned_session sample_store d"
proof -
  obtain d where d: "validateConversationDescriptor sample_saved = Inr d"
    using sample_saved_ok by (simp add: validateConversationDescriptor_def require_def)
  have fields: "room_id d = example_room" "get_prop d ''remoteAddress'' = VStr ''bob-address''"
    "get_prop d ''remoteIdentityCommitment'' = VStr sample_pin" "get_prop d ''bootstrapState'' = VUndefined"
    "get_prop d ''relationship'' = VUndefined"
    using d sample_saved_ok
    by (auto simp: validateConversationDescriptor_def require_def prop_when_def room_id_def sample_saved_def sample_pin_def
        natural_def nickname_ok_def)
  have mode: "read_mode sample_store example_room = Inr (Some sample_mode)"
    using sample_mode_ok by (simp add: read_mode_def read_cell_def sample_store_def MODE_RECORD_def decodeMode_def require_def)
  have contact: "snd (get_contact sample_store ''bob-address'' False) = Inr (Some sample_contact)"
    using sample_contact_parses
    by (simp add: get_contact_def read_cell_def sample_store_def CONTACT_RECORD_def MODE_RECORD_def applyRecoveryReset_def)
  have session: "read_cell sample_store ''vodozemac-session'' example_room = Some (RawText ''x'')"
    by (simp add: read_cell_def sample_store_def MODE_RECORD_def)
  have est: "established d" by (simp add: established_def fields)
  have "local_eligibility sample_store d = Inr None"
    by (simp add: local_eligibility_def fields mode Let_def)
      (simp add: sample_mode_def contact session, simp add: sample_contact_def sample_pin_def)
  then have "conversationEligibility sample_store sample_saved None = None"
    using d by (simp add: conversationEligibility_def)
  from open_requires_pinned_identity [OF d est this] d est show ?thesis by blast
qed

end
