(* ===== verification/MessageHistory.thy ===== *)
theory MessageHistory
  imports Contacts
begin

text \<open>
  The saved message history of a conversation
  (\<open>client/src/product/messageStore.ts\<close>) and the locally observed calls that
  appear in it (\<open>client/src/product/callHistory.ts\<close>).

  A saved message is the JSON object in the record. \<open>Date.parse\<close> and
  \<open>toISOString\<close> are parameters: which texts the former accepts is left to the
  engine. Writers race through compare-and-swap: between the reading of an
  attempt and its swap an arbitrary change \<open>env n\<close> of the store happens.
\<close>

section \<open>Calls observed on this device\<close>

datatype media = Audio | Video
datatype outcome_kind = Call_completed | Call_missed | Call_declined | Call_canceled | Call_failed
datatype direction = Incoming | Outgoing

record call_event =
  ce_mode :: media
  ce_outcome :: outcome_kind
  ce_direction :: direction
  ce_duration :: "int option"

fun lower_kind :: "media \<Rightarrow> string" where
  "lower_kind Video = ''video call''"
| "lower_kind Audio = ''voice call''"

fun callEventLabel :: "call_event \<Rightarrow> string" where
  "callEventLabel e =
     (let kind = (if ce_mode e = Video then ''Video call'' else ''Voice call'')
      in case ce_outcome e of
           Call_completed \<Rightarrow> kind
         | Call_missed \<Rightarrow> ''Missed '' @ lower_kind (ce_mode e)
         | Call_declined \<Rightarrow> ''Declined call''
         | Call_canceled \<Rightarrow> ''Canceled call''
         | Call_failed \<Rightarrow> ''Failed call'')"

definition formatCallDuration :: "nat \<Rightarrow> string" where
  "formatCallDuration seconds =
     show_nat (seconds div 60) @ '':'' @ (let r = show_nat (seconds mod 60) in replicate (2 - length r) (CHR ''0'') @ r)"

datatype tone = Tone_direction direction | Tone_missed | Tone_declined | Tone_failed

definition callRowSummary :: "call_event \<Rightarrow> string \<times> string option \<times> tone" where
  "callRowSummary e =
     (let lead = (case ce_outcome e of Call_missed \<Rightarrow> ''Missed'' | Call_declined \<Rightarrow> ''Declined'' | Call_canceled \<Rightarrow> ''Canceled''
            | Call_failed \<Rightarrow> ''Failed'' | Call_completed \<Rightarrow> if ce_direction e = Incoming then ''Incoming'' else ''Outgoing'');
          colour = (case ce_outcome e of Call_missed \<Rightarrow> Tone_missed | Call_declined \<Rightarrow> Tone_declined | Call_failed \<Rightarrow> Tone_failed
            | _ \<Rightarrow> Tone_direction (ce_direction e))
      in (lead @ '' '' @ lower_kind (ce_mode e),
          (case ce_duration e of Some n \<Rightarrow> if ce_outcome e = Call_completed then Some (formatCallDuration (nat n)) else None | None \<Rightarrow> None),
          colour))"

definition validLocalCallEvent :: "jsval \<Rightarrow> bool" where
  "validLocalCallEvent v \<longleftrightarrow> is_object v \<and>
     list_all (\<lambda>k. k \<in> {''mode'', ''outcome'', ''direction'', ''durationSeconds''}) (object_keys v) \<and>
     js_string (get_prop v ''mode'') \<in> {''audio'', ''video''} \<and>
     js_string (get_prop v ''outcome'') \<in> {''completed'', ''missed'', ''declined'', ''canceled'', ''failed''} \<and>
     js_string (get_prop v ''direction'') \<in> {''incoming'', ''outgoing''} \<and>
     (get_prop v ''durationSeconds'' = VUndefined \<or>
      is_safe_num (get_prop v ''durationSeconds'') \<and> 0 \<le> num_of (get_prop v ''durationSeconds''))"

record observed_call =
  oc_room :: string
  oc_binding :: string
  oc_direction :: direction
  oc_connected :: "int option"
  oc_finished :: bool
  oc_failed :: bool

datatype call_phase = Ringing | Connected | Ended | Rejected | Cancelled | Expired | Phase_failed | Other_phase

record call_session =
  cs_call :: string
  cs_room :: string
  cs_binding :: string
  cs_phase :: call_phase
  cs_media :: media

type_synonym observed_calls = "(string \<times> observed_call) list"

definition mark_failed :: "observed_calls \<Rightarrow> string \<Rightarrow> observed_calls" where
  "mark_failed m i = (case map_of m i of Some c \<Rightarrow> if oc_finished c then m else put i (c\<lparr>oc_failed := True\<rparr>) m | None \<Rightarrow> m)"

definition mark_connected :: "observed_calls \<Rightarrow> string \<Rightarrow> int \<Rightarrow> observed_calls" where
  "mark_connected m i now =
     (case map_of m i of
        Some c \<Rightarrow>
          if oc_finished c then m
          else put i (c\<lparr>oc_connected := (case oc_connected c of Some t \<Rightarrow> Some t | None \<Rightarrow> Some now)\<rparr>) m
      | None \<Rightarrow> m)"

definition phase_terminal :: "call_phase \<Rightarrow> bool" where
  "phase_terminal p \<longleftrightarrow> p \<in> {Ended, Rejected, Cancelled, Expired, Phase_failed}"

definition call_outcome :: "call_phase \<Rightarrow> observed_call \<Rightarrow> outcome_kind" where
  "call_outcome p c =
     (if p = Rejected then Call_declined
      else if p = Phase_failed \<or> oc_failed c then Call_failed
      else if oc_connected c \<noteq> None then Call_completed
      else if oc_direction c = Incoming then Call_missed else Call_canceled)"

definition finish_call :: "observed_calls \<Rightarrow> call_session \<Rightarrow> observed_call \<Rightarrow> int \<Rightarrow> observed_calls \<times> call_event option" where
  "finish_call m session c now =
     (let m' = put (cs_call session) (c\<lparr>oc_finished := True\<rparr>) m;
          e = \<lparr>ce_mode = cs_media session, ce_outcome = call_outcome (cs_phase session) c, ce_direction = oc_direction c,
            ce_duration = map_option (\<lambda>t. max 0 ((now - t) div 1000)) (oc_connected c)\<rparr>
      in (if 2000 < length m' then tl m' else m', Some e))"

definition observe_call :: "observed_calls \<Rightarrow> call_session \<Rightarrow> int \<Rightarrow> observed_calls \<times> call_event option" where
  "observe_call m session now =
     (let known = map_of m (cs_call session); terminal = phase_terminal (cs_phase session) in
      if (case known of Some c \<Rightarrow> oc_room c \<noteq> cs_room session \<or> oc_binding c \<noteq> cs_binding session | None \<Rightarrow> False) then (m, None)
      else if known = None \<and> terminal then (m, None)
      else
        let m1 = (case known of Some c \<Rightarrow> m | None \<Rightarrow> put (cs_call session)
              \<lparr>oc_room = cs_room session, oc_binding = cs_binding session,
               oc_direction = (if cs_phase session = Ringing then Incoming else Outgoing),
               oc_connected = None, oc_finished = False, oc_failed = False\<rparr> m);
            m2 = (if cs_phase session = Connected then mark_connected m1 (cs_call session) now else m1)
        in case map_of m2 (cs_call session) of
             Some c \<Rightarrow> if \<not> terminal \<or> oc_finished c then (m2, None) else finish_call m2 session c now
           | None \<Rightarrow> (m2, None))"

section \<open>Saved messages\<close>

definition HISTORY :: string where "HISTORY = ''product-messages''"
definition QUARANTINE :: string where "QUARANTINE = ''product-message-quarantine''"
definition MAX_MESSAGES :: nat where "MAX_MESSAGES = 2000"
definition MAX_QUARANTINE_BYTES :: nat where "MAX_QUARANTINE_BYTES = 3 * 1024 * 1024"

definition deliveryRank :: "jsval \<Rightarrow> nat" where
  "deliveryRank v = (if v = VStr ''accepted'' then 3 else if v = VStr ''held'' then 2 else if v = VStr ''failed'' then 1 else 0)"

definition valid_message :: "(string \<Rightarrow> int option) \<Rightarrow> jsval \<Rightarrow> bool" where
  "valid_message parse_date v \<longleftrightarrow> is_object v \<and>
     is_string (get_prop v ''id'') \<and> str_of (get_prop v ''id'') \<noteq> [] \<and> is_string (get_prop v ''sender'') \<and>
     is_string (get_prop v ''text'') \<and> length (str_of (get_prop v ''text'')) \<le> 192 * 1024 \<and>
     get_prop v ''type'' \<in> {VStr ''sent'', VStr ''received''} \<and> is_string (get_prop v ''timestamp'') \<and>
     parse_date (str_of (get_prop v ''timestamp'')) \<noteq> None \<and>
     (get_prop v ''callEvent'' = VUndefined \<or>
      take 11 (str_of (get_prop v ''id'')) = ''local-call:'' \<and> validLocalCallEvent (get_prop v ''callEvent'')) \<and>
     (get_prop v ''delivery'' = VUndefined \<or> js_string (get_prop v ''delivery'') \<in> {''pending'', ''accepted'', ''failed'', ''held''}) \<and>
     get_prop v ''relayAccepted'' \<in> {VUndefined, VBool True, VBool False}"

definition HISTORY_ERROR :: string where "HISTORY_ERROR = ''Saved messages are invalid.''"

definition decode_history :: "(string \<Rightarrow> int option) \<Rightarrow> cell option \<Rightarrow> jsval list outcome" where
  "decode_history parse_date bytes =
     (case bytes of
        None \<Rightarrow> Inr []
      | Some c \<Rightarrow>
          and_then (parse_cell ''SyntaxError'' c) (\<lambda>v.
          and_then (require (is_array v \<and> length (array_of v) \<le> MAX_MESSAGES \<and> list_all (valid_message parse_date) (array_of v)) HISTORY_ERROR) (\<lambda>_.
            Inr (array_of v))))"

definition quarantine_entry_ok :: "jsval \<Rightarrow> bool" where
  "quarantine_entry_ok v \<longleftrightarrow> is_plain_object v \<and> is_safe_num (get_prop v ''index'') \<and>
     get_prop v ''reason'' = VStr ''invalid-message-entry'' \<and> has_prop v ''value''"

definition readQuarantine :: "cell option \<Rightarrow> jsval list outcome" where
  "readQuarantine bytes =
     (case bytes of
        None \<Rightarrow> Inr []
      | Some c \<Rightarrow>
          and_then (parse_cell ''Saved message quarantine is invalid.'' c) (\<lambda>v.
          and_then (require (is_plain_object v \<and> get_prop v ''version'' = VInt 1 \<and> is_array (get_prop v ''entries'') \<and>
            list_all quarantine_entry_ok (array_of (get_prop v ''entries''))) ''Saved message quarantine is invalid.'') (\<lambda>_.
            Inr (array_of (get_prop v ''entries'')))))"

definition parseHistoryArray :: "cell \<Rightarrow> jsval list outcome" where
  "parseHistoryArray c =
     and_then (parse_cell HISTORY_ERROR c) (\<lambda>v.
     and_then (require (is_array v \<and> length (array_of v) \<le> MAX_MESSAGES) HISTORY_ERROR) (\<lambda>_. Inr (array_of v)))"

definition last_messages :: "jsval list \<Rightarrow> jsval list" where
  "last_messages ms = drop (length ms - MAX_MESSAGES) ms"

definition encode_history :: "jsval list \<Rightarrow> cell" where
  "encode_history ms = JsonText (json_image (VArr (last_messages ms)))"

record message =
  msg_props :: "(string \<times> jsval) list"
  msg_time :: int

definition toStored :: "(int \<Rightarrow> string) \<Rightarrow> message \<Rightarrow> jsval" where
  "toStored to_iso m = set_prop (VObj (msg_props m)) ''timestamp'' (VStr (to_iso (msg_time m)))"

definition message_id :: "jsval \<Rightarrow> string" where
  "message_id v = str_of (get_prop v ''id'')"

definition quarantined :: "(string \<Rightarrow> int option) \<Rightarrow> jsval list \<Rightarrow> jsval list" where
  "quarantined parse_date values = map (\<lambda>(i, v). VObj [(''index'', VInt (int i)), (''value'', v), (''reason'', VStr ''invalid-message-entry'')])
     (filter (\<lambda>(i, v). \<not> valid_message parse_date v) (List.enumerate 0 values))"

definition quarantine_record :: "jsval list \<Rightarrow> jsval" where
  "quarantine_record entries = VObj [(''version'', VInt 1), (''entries'', VArr entries)]"

fun read_attempts ::
  "nat \<Rightarrow> (string \<Rightarrow> int option) \<Rightarrow> (nat \<Rightarrow> store \<Rightarrow> store) \<Rightarrow> store \<Rightarrow> string \<Rightarrow> store \<times> jsval list outcome"
where
  "read_attempts 0 parse_date env s room = (s, Inl ''Message history changed too often to restore safely.'')"
| "read_attempts (Suc n) parse_date env s room =
     (case read_cell s HISTORY room of
        None \<Rightarrow> (s, Inr [])
      | Some bytes \<Rightarrow>
          (case parseHistoryArray bytes of
             Inl e \<Rightarrow> (s, Inl e)
           | Inr values \<Rightarrow>
               let valids = filter (valid_message parse_date) values in
               if length valids = length values then (s, Inr valids)
               else if \<not> casAvailable s then (s, Inl HISTORY_ERROR)
               else
                 case readQuarantine (read_cell s QUARANTINE room) of
                   Inl e \<Rightarrow> (s, Inl e)
                 | Inr prior \<Rightarrow>
                     let rec = quarantine_record (prior @ quarantined parse_date values) in
                     if MAX_QUARANTINE_BYTES < utf8_length (stringify rec) then (s, Inl HISTORY_ERROR)
                     else
                       let (s', ok) = compareAndSwapRecords (env n s)
                             [\<lparr>update_key = (QUARANTINE, room), expected = read_cell s QUARANTINE room, next_cell = JsonText (json_image rec)\<rparr>,
                              \<lparr>update_key = (HISTORY, room), expected = Some bytes, next_cell = encode_history valids\<rparr>]
                       in if ok then (s', Inr valids) else read_attempts n parse_date env s' room))"

definition readMessages :: "(string \<Rightarrow> int option) \<Rightarrow> (nat \<Rightarrow> store \<Rightarrow> store) \<Rightarrow> store \<Rightarrow> string \<Rightarrow> store \<times> jsval list outcome" where
  "readMessages = read_attempts 8"

definition prepareMessageAcceptance ::
  "(string \<Rightarrow> int option) \<Rightarrow> (int \<Rightarrow> string) \<Rightarrow> store \<Rightarrow> string \<Rightarrow> message \<Rightarrow> record_update outcome"
where
  "prepareMessageAcceptance parse_date to_iso s room m =
     (let old = read_cell s HISTORY room; saved = toStored to_iso m
      in and_then (decode_history parse_date old) (\<lambda>current.
           case find (\<lambda>v. get_prop v ''id'' = get_prop saved ''id'') current of
             Some v \<Rightarrow>
               and_then (require (get_prop v ''sender'' = get_prop saved ''sender'' \<and> get_prop v ''text'' = get_prop saved ''text'' \<and>
                 get_prop v ''type'' = get_prop saved ''type'') ''Accepted message identity conflicts with saved history.'') (\<lambda>_.
               Inr \<lparr>update_key = (HISTORY, room), expected = old,
                    next_cell = (case old of Some c \<Rightarrow> c | None \<Rightarrow> encode_history current)\<rparr>)
           | None \<Rightarrow> Inr \<lparr>update_key = (HISTORY, room), expected = old, next_cell = encode_history (current @ [saved])\<rparr>))"

definition prepareHeldTextRetry ::
  "(string \<Rightarrow> int option) \<Rightarrow> (int \<Rightarrow> string) \<Rightarrow> store \<Rightarrow> string \<Rightarrow> string \<Rightarrow> message \<Rightarrow> record_update outcome"
where
  "prepareHeldTextRetry parse_date to_iso s room previousId replacement =
     (let old = read_cell s HISTORY room; saved = toStored to_iso replacement
      in and_then (decode_history parse_date old) (\<lambda>current.
         and_then (some_or ''This message needs a new secure send action.''
             (find (\<lambda>v. message_id v = previousId \<and> get_prop v ''type'' = VStr ''sent'') current)) (\<lambda>previous.
         and_then (require (get_prop previous ''delivery'' = VStr ''held'' \<and> take 14 (str_of (get_prop previous ''text'')) \<noteq> ''k3ncrypt-file-'' \<and>
             get_prop previous ''text'' = get_prop saved ''text'') ''This message needs a new secure send action.'') (\<lambda>_.
           Inr \<lparr>update_key = (HISTORY, room), expected = old,
                next_cell = encode_history (filter (\<lambda>v. message_id v \<noteq> previousId) current @ [saved])\<rparr>))))"







section \<open>A saved message survives concurrent writers\<close>

definition content_keys :: "string list" where
  "content_keys = [''id'', ''sender'', ''text'', ''type'', ''timestamp'']"

text \<open>The same message, with a delivery state at least as advanced.\<close>

definition carries :: "jsval \<Rightarrow> jsval \<Rightarrow> bool" where
  "carries m m' \<longleftrightarrow> (\<forall>k \<in> set content_keys. get_prop m' k = get_prop m k) \<and>
     deliveryRank (get_prop m ''delivery'') \<le> deliveryRank (get_prop m' ''delivery'') \<and>
     (get_prop m ''relayAccepted'' = VBool True \<longrightarrow> get_prop m' ''relayAccepted'' = VBool True)"

lemma carries_refl [simp]: "carries m m"
  by (simp add: carries_def)


lemma carries_id: "carries m m' \<Longrightarrow> message_id m' = message_id m"
  by (simp add: carries_def content_keys_def message_id_def)



























end
