(* ===== verification/ReplayGuard.thy ===== *)
theory ReplayGuard
  imports Prelude
begin

text \<open>
  The replay window of \<open>service/src/utils/replayGuard.ts\<close>. Each context keeps
  the highest sequence number accepted and the accepted numbers that are still
  inside the window; older ones are pruned. The theory shows that the pruned
  window decides exactly as the reference that remembers every number it ever
  accepted, that its memory is bounded by the window size, and that no number
  is accepted twice.
\<close>

section \<open>The guard\<close>

record replay_window =
  highest :: int
  seen :: "int set"

record replay_guard =
  windowSize :: int
  windows :: "string \<rightharpoonup> replay_window"

definition new_guard :: "jsnum \<Rightarrow> replay_guard outcome" where
  "new_guard sz =
     (if \<not> isSafeInteger sz \<or> whole sz < 1
      then Inl ''Replay window size must be a positive safe integer.''
      else Inr \<lparr>windowSize = whole sz, windows = Map.empty\<rparr>)"

definition accept :: "replay_guard \<Rightarrow> string \<Rightarrow> jsnum \<Rightarrow> replay_guard \<times> bool" where
  "accept g context_key seq =
     (if \<not> isSafeInteger seq \<or> whole seq < 1 then (g, False)
      else case windows g context_key of
        None \<Rightarrow>
          (g\<lparr>windows := (windows g)(context_key \<mapsto>
             \<lparr>highest = whole seq, seen = {whole seq}\<rparr>)\<rparr>, True)
      | Some w \<Rightarrow>
          if whole seq \<in> seen w \<or> whole seq \<le> highest w - windowSize g then (g, False)
          else
            let seen1 = insert (whole seq) (seen w);
                highest1 = max (highest w) (whole seq);
                minimum = highest1 - windowSize g + 1;
                seen2 = Set.filter (\<lambda>s. \<not> s < minimum) seen1
            in (g\<lparr>windows := (windows g)(context_key \<mapsto>
                  \<lparr>highest = highest1, seen = seen2\<rparr>)\<rparr>, True))"

definition reset :: "replay_guard \<Rightarrow> string \<Rightarrow> replay_guard" where
  "reset g context_key = g\<lparr>windows := (windows g)(context_key := None)\<rparr>"

definition clear :: "replay_guard \<Rightarrow> replay_guard" where
  "clear g = g\<lparr>windows := Map.empty\<rparr>"

datatype guard_event = Accept string jsnum | Reset string | Clear

fun guard_step :: "replay_guard \<Rightarrow> guard_event \<Rightarrow> replay_guard \<times> bool" where
  "guard_step g (Accept c n) = accept g c n"
| "guard_step g (Reset c) = (reset g c, False)"
| "guard_step g Clear = (clear g, False)"

section \<open>The invariant and the reference\<close>

text \<open>A window holds its highest number and nothing outside the window.\<close>

definition window_ok :: "int \<Rightarrow> replay_window \<Rightarrow> bool" where
  "window_ok sz w \<longleftrightarrow>
     highest w \<in> seen w \<and> 1 \<le> highest w \<and> seen w \<subseteq> {highest w - sz <.. highest w}"

definition guard_ok :: "replay_guard \<Rightarrow> bool" where
  "guard_ok g \<longleftrightarrow> 1 \<le> windowSize g \<and>
     (\<forall>c w. windows g c = Some w \<longrightarrow> window_ok (windowSize g) w)"

text \<open>
  The reference: per context the set of all numbers accepted so far. A number
  is accepted when it is new and not older than the newest by the window size
  or more.
\<close>

definition ref_accepts :: "int \<Rightarrow> int set \<Rightarrow> jsnum \<Rightarrow> bool" where
  "ref_accepts sz hist seq \<longleftrightarrow>
     isSafeInteger seq \<and> 1 \<le> whole seq \<and>
     (hist = {} \<or> whole seq \<notin> hist \<and> Max hist - sz < whole seq)"

fun ref_step :: "int \<Rightarrow> (string \<Rightarrow> int set) \<Rightarrow> guard_event \<Rightarrow> (string \<Rightarrow> int set) \<times> bool" where
  "ref_step sz h (Accept c n) =
     (if ref_accepts sz (h c) n then (h(c := insert (whole n) (h c)), True) else (h, False))"
| "ref_step sz h (Reset c) = (h(c := {}), False)"
| "ref_step sz h Clear = ((\<lambda>_. {}), False)"

text \<open>The windows are the histories cut off below the newest number.\<close>

definition window_rel :: "int \<Rightarrow> replay_window option \<Rightarrow> int set \<Rightarrow> bool" where
  "window_rel sz wo hist \<longleftrightarrow> finite hist \<and>
     (case wo of
        None \<Rightarrow> hist = {}
      | Some w \<Rightarrow> hist \<noteq> {} \<and> highest w = Max hist \<and> seen w = {n \<in> hist. Max hist - sz < n})"

definition history_rel :: "replay_guard \<Rightarrow> (string \<Rightarrow> int set) \<Rightarrow> bool" where
  "history_rel g h \<longleftrightarrow> (\<forall>c. window_rel (windowSize g) (windows g c) (h c))"

section \<open>Lemmas\<close>

lemma windowSize_step [simp]: "windowSize (fst (guard_step g e)) = windowSize g"
  by (cases e) (simp_all add: accept_def reset_def clear_def Let_def split: option.split)

lemma window_ok_insert:
  assumes "window_ok sz w" and "1 \<le> sz" and "1 \<le> n" and "highest w - sz < n"
  shows "window_ok sz \<lparr>highest = max (highest w) n,
    seen = Set.filter (\<lambda>s. \<not> s < max (highest w) n - sz + 1) (insert n (seen w))\<rparr>"
  using assms by (auto simp: window_ok_def max_def dest: subsetD)

lemma accept_keeps_ok: "guard_ok g \<Longrightarrow> guard_ok (fst (accept g c n))"
  using window_ok_insert [where n = "whole n"]
  by (auto simp: accept_def guard_ok_def Let_def simp del: Set.filter_eq split: option.split)
    (auto simp: window_ok_def)

lemma reset_clear_ok: "guard_ok g \<Longrightarrow> guard_ok (reset g c)" "guard_ok g \<Longrightarrow> guard_ok (clear g)"
  by (auto simp: guard_ok_def reset_def clear_def)

lemma guard_step_ok: "guard_ok g \<Longrightarrow> guard_ok (fst (guard_step g e))"
  by (cases e) (simp_all add: accept_keeps_ok reset_clear_ok)

interpretation guard: invariant_machine guard_step guard_ok
  by unfold_locales (rule guard_step_ok)

lemma new_guard_ok: "new_guard n = Inr g \<Longrightarrow> guard_ok g"
  by (auto simp: new_guard_def guard_ok_def split: if_splits)

lemma new_guard_rel: "new_guard n = Inr g \<Longrightarrow> history_rel g (\<lambda>_. {})"
  by (auto simp: new_guard_def history_rel_def window_rel_def split: if_splits)

lemma windowSize_run [simp]: "windowSize (final guard_step g es) = windowSize g"
  by (induction es arbitrary: g) simp_all

lemma window_card:
  assumes "window_ok sz w" and "0 \<le> sz"
  shows "finite (seen w)" and "int (card (seen w)) \<le> sz"
proof -
  from assms have sub: "seen w \<subseteq> {highest w - sz <.. highest w}"
    by (simp add: window_ok_def)
  then show "finite (seen w)" by (rule finite_subset) simp
  from sub have "card (seen w) \<le> card {highest w - sz <.. highest w}"
    by (intro card_mono) simp_all
  with assms show "int (card (seen w)) \<le> sz" by simp
qed

text \<open>The guard simulates the reference, so it answers every run as the reference does.\<close>

lemma window_rel_insert:
  assumes "window_rel sz (Some w) hist"
  shows "window_rel sz (Some \<lparr>highest = max (highest w) n,
    seen = Set.filter (\<lambda>s. \<not> s < max (highest w) n - sz + 1) (insert n (seen w))\<rparr>) (insert n hist)"
proof -
  from assms have fin: "finite hist" and ne: "hist \<noteq> {}" and hi: "highest w = Max hist"
    and sn: "seen w = {n \<in> hist. Max hist - sz < n}"
    by (simp_all add: window_rel_def)
  then have mx: "Max (insert n hist) = max (highest w) n" by (simp add: max.commute)
  have "s \<in> {m \<in> insert n hist. max (highest w) n - sz < m} \<longleftrightarrow>
      s \<in> Set.filter (\<lambda>s. \<not> s < max (highest w) n - sz + 1) (insert n (seen w))" for s
    unfolding sn hi by auto
  then have "Set.filter (\<lambda>s. \<not> s < max (highest w) n - sz + 1) (insert n (seen w)) =
      {m \<in> insert n hist. max (highest w) n - sz < m}" by blast
  with fin mx show ?thesis by (simp only: window_rel_def) simp
qed

lemma accept_decides:
  assumes "window_rel (windowSize g) (windows g c) hist"
  shows "snd (accept g c n) = ref_accepts (windowSize g) hist n"
proof (cases "windows g c")
  case None
  with assms show ?thesis by (auto simp: accept_def ref_accepts_def window_rel_def)
next
  case (Some w)
  with assms have "hist \<noteq> {}" "highest w = Max hist"
    "whole n \<in> seen w \<longleftrightarrow> whole n \<in> hist \<and> Max hist - windowSize g < whole n"
    by (simp_all add: window_rel_def)
  with Some show ?thesis by (auto simp: accept_def ref_accepts_def Let_def)
qed

lemma accept_windows:
  assumes rel: "window_rel (windowSize g) (windows g c) hist" and "1 \<le> windowSize g"
    and acc: "ref_accepts (windowSize g) hist n"
  shows "\<exists>w. windows (fst (accept g c n)) = (windows g)(c \<mapsto> w) \<and>
    window_rel (windowSize g) (Some w) (insert (whole n) hist)"
proof (cases "windows g c")
  case None
  with assms show ?thesis
    by (auto simp: accept_def ref_accepts_def window_rel_def)
next
  case (Some w)
  with rel window_rel_insert [of "windowSize g" w hist "whole n"]
  have "window_rel (windowSize g) (Some \<lparr>highest = max (highest w) (whole n),
      seen = Set.filter (\<lambda>s. \<not> s < max (highest w) (whole n) - windowSize g + 1)
        (insert (whole n) (seen w))\<rparr>) (insert (whole n) hist)" by simp
  moreover from Some rel acc have "snd (accept g c n)" by (simp add: accept_decides)
  ultimately show ?thesis
    using Some by (auto simp: accept_def Let_def split: if_splits)
qed

lemma accept_rejects: "\<not> snd (accept g c n) \<Longrightarrow> fst (accept g c n) = g"
  by (auto simp: accept_def Let_def split: option.splits if_splits)

lemma accept_simulates:
  assumes sz: "1 \<le> windowSize g" and rel: "history_rel g h"
  shows "history_rel (fst (accept g c n)) (fst (ref_step (windowSize g) h (Accept c n)))
    \<and> snd (accept g c n) = snd (ref_step (windowSize g) h (Accept c n))"
proof -
  from rel have r: "window_rel (windowSize g) (windows g d) (h d)" for d
    by (simp add: history_rel_def)
  show ?thesis
  proof (cases "ref_accepts (windowSize g) (h c) n")
    case True
    with accept_windows [OF r sz True] windowSize_step [of g "Accept c n"] r
    show ?thesis by (auto simp: history_rel_def accept_decides [OF r])
  next
    case False
    with rel show ?thesis by (simp add: accept_decides [OF r] accept_rejects)
  qed
qed

lemma reset_clear_rel:
  "history_rel g h \<Longrightarrow> history_rel (reset g c) (h(c := {}))"
  "history_rel (clear g) (\<lambda>_. {})"
  by (simp_all add: history_rel_def window_rel_def reset_def clear_def)

interpretation window: simulation guard_step "ref_step sz"
  "\<lambda>g h. 1 \<le> sz \<and> windowSize g = sz \<and> history_rel g h" for sz
proof unfold_locales
  fix g h e
  assume r: "1 \<le> sz \<and> windowSize g = sz \<and> history_rel g h"
  show "1 \<le> sz \<and> windowSize (fst (guard_step g e)) = sz \<and>
      history_rel (fst (guard_step g e)) (fst (ref_step sz h e))"
    using r accept_simulates [of g h] windowSize_step [of g e]
    by (cases e) (simp_all add: reset_clear_rel)
  show "snd (guard_step g e) = snd (ref_step sz h e)"
    using r accept_simulates [of g h] by (cases e) auto
qed

text \<open>What the reference has accepted stays accepted until its context is reset.\<close>

fun forgets :: "string \<Rightarrow> guard_event \<Rightarrow> bool" where
  "forgets c (Accept d n) = False"
| "forgets c (Reset d) = (c = d)"
| "forgets c Clear = True"

lemma ref_remembers:
  "k \<in> h c \<Longrightarrow> \<not> forgets c e \<Longrightarrow> k \<in> fst (ref_step sz h e) c"
  by (cases e) auto

lemma ref_run_remembers:
  "k \<in> h c \<Longrightarrow> list_all (\<lambda>e. \<not> forgets c e) es \<Longrightarrow> k \<in> final (ref_step sz) h es c"
  by (induction es arbitrary: h) (simp_all add: ref_remembers)

lemma ref_rejects: "whole n \<in> hist \<Longrightarrow> \<not> ref_accepts sz hist n"
  by (auto simp: ref_accepts_def)

lemma ref_accepted_once:
  assumes acc: "snd (ref_step sz h (Accept c n))"
    and keep: "list_all (\<lambda>e. \<not> forgets c e) es"
  shows "\<not> snd (ref_step sz (final (ref_step sz) (fst (ref_step sz h (Accept c n))) es) (Accept c n))"
proof -
  let ?h = "fst (ref_step sz h (Accept c n))"
  have "whole n \<in> ?h c" using acc by (auto split: if_splits)
  from ref_run_remembers [where h = ?h, OF this keep] have "whole n \<in> final (ref_step sz) ?h es c" .
  then have "\<not> ref_accepts sz (final (ref_step sz) ?h es c) n" by (rule ref_rejects)
  then show ?thesis by (simp only: ref_step.simps if_False snd_conv not_False_eq_True)
qed

section \<open>Properties\<close>

text \<open>
  C10. A guard answers every sequence of accepts, resets and clears exactly as
  the reference that never forgets a number: pruning the window changes no
  decision.
\<close>

theorem replay_window_exact:
  assumes "new_guard n = Inr g"
  shows "outputs guard_step g es = outputs (ref_step (whole n)) (\<lambda>_. {}) es"
proof -
  from assms have "1 \<le> whole n" and "windowSize g = whole n"
    by (auto simp: new_guard_def split: if_splits)
  with new_guard_rel [OF assms] show ?thesis by (simp add: window.run_out)
qed

theorem replay_window_exact_witness:
  "outputs guard_step \<lparr>windowSize = 2, windows = Map.empty\<rparr>
     [Accept ''chat'' (Whole 5), Accept ''chat'' (Whole 4), Accept ''chat'' (Whole 3)] =
   outputs (ref_step 2) (\<lambda>_. {})
     [Accept ''chat'' (Whole 5), Accept ''chat'' (Whole 4), Accept ''chat'' (Whole 3)]"
proof -
  have "new_guard (Whole 2) = Inr \<lparr>windowSize = 2, windows = Map.empty\<rparr>"
    by (simp add: new_guard_def safe_int_def MAX_SAFE_INTEGER_def)
  from replay_window_exact [OF this] show ?thesis by (simp only: whole.simps)
qed

text \<open>
  No replay: between two resets of a context, a sequence number that was
  accepted is never accepted again, whatever arrived in between.
\<close>

theorem replay_accepted_once:
  assumes "new_guard k = Inr g"
    and "snd (guard_step (final guard_step g es) (Accept c n))"
    and "list_all (\<lambda>e. \<not> forgets c e) fs"
  shows "\<not> snd (guard_step (final guard_step g (es @ Accept c n # fs)) (Accept c n))"
proof -
  from assms(1) have r: "1 \<le> whole k \<and> windowSize g = whole k \<and> history_rel g (\<lambda>_. {})"
    using new_guard_rel by (auto simp: new_guard_def split: if_splits)
  let ?h = "final (ref_step (whole k)) (\<lambda>_. {})"
  have "snd (ref_step (whole k) (?h es) (Accept c n))"
    using assms(2) window.step_out [OF window.run_rel [OF r]] by metis
  from ref_accepted_once [OF this assms(3)]
  show ?thesis
    using window.step_out [OF window.run_rel [OF r], of "es @ Accept c n # fs"]
    by (simp add: final_append del: guard_step.simps ref_step.simps)
qed

theorem replay_accepted_once_witness:
  "\<not> snd (guard_step (final guard_step \<lparr>windowSize = 2, windows = Map.empty\<rparr>
     ([] @ Accept ''chat'' (Whole 5) # [Accept ''chat'' (Whole 9), Reset ''call'']))
     (Accept ''chat'' (Whole 5)))"
proof (rule replay_accepted_once [where k = "Whole 2"])
  show "new_guard (Whole 2) = Inr \<lparr>windowSize = 2, windows = Map.empty\<rparr>"
    by (simp add: new_guard_def safe_int_def MAX_SAFE_INTEGER_def)
  show "snd (guard_step (final guard_step \<lparr>windowSize = 2, windows = Map.empty\<rparr> [])
     (Accept ''chat'' (Whole 5)))"
    by (simp add: accept_def safe_int_def MAX_SAFE_INTEGER_def)
qed simp

text \<open>
  The memory of a context is bounded: after any run it holds at most
  \<open>windowSize\<close> sequence numbers, all of them within the window below the
  highest accepted one.
\<close>

theorem replay_memory_bounded:
  assumes "new_guard n = Inr g" and "windows (final guard_step g es) c = Some w"
  shows "finite (seen w) \<and> int (card (seen w)) \<le> whole n \<and>
    seen w \<subseteq> {highest w - whole n <.. highest w}"
proof -
  from assms(1) have sz: "windowSize g = whole n" "1 \<le> whole n"
    by (auto simp: new_guard_def split: if_splits)
  have "guard_ok (final guard_step g es)" by (rule guard.run_inv [OF new_guard_ok [OF assms(1)]])
  with assms(2) sz have ok: "window_ok (whole n) w" by (auto simp: guard_ok_def)
  with window_card [OF ok] sz show ?thesis by (simp add: window_ok_def)
qed

theorem replay_memory_bounded_witness:
  "finite {7::int, 8} \<and> int (card {7::int, 8}) \<le> 2 \<and> {7::int, 8} \<subseteq> {8 - 2 <.. 8}"
proof -
  have g: "new_guard (Whole 2) = Inr \<lparr>windowSize = 2, windows = Map.empty\<rparr>"
    by (simp add: new_guard_def safe_int_def MAX_SAFE_INTEGER_def)
  have w: "windows (final guard_step \<lparr>windowSize = 2, windows = Map.empty\<rparr>
      [Accept ''chat'' (Whole 5), Accept ''chat'' (Whole 7), Accept ''chat'' (Whole 8)]) ''chat'' =
      Some \<lparr>highest = 8, seen = {7, 8}\<rparr>"
    by (auto simp: accept_def safe_int_def MAX_SAFE_INTEGER_def Let_def)
  from replay_memory_bounded [OF g w] show ?thesis by simp
qed

text \<open>
  Out-of-order delivery: a number below the highest one is accepted while
  it is new and inside the window. (The source comment of \<open>accept\<close> promises
  acceptance only of numbers greater than the last accepted one.)
\<close>

theorem replay_accepts_out_of_order:
  assumes "windows g c = Some w" and "safe_int n" and "1 \<le> n"
    and "highest w - windowSize g < n" and "n < highest w" and "n \<notin> seen w"
  shows "snd (accept g c (Whole n)) \<and>
    highest (the (windows (fst (accept g c (Whole n))) c)) = highest w"
  using assms by (simp add: accept_def Let_def max_def)

theorem replay_accepts_out_of_order_witness:
  "snd (accept \<lparr>windowSize = 1024, windows = [''chat'' \<mapsto> \<lparr>highest = 9, seen = {9}\<rparr>]\<rparr>
     ''chat'' (Whole 4)) \<and>
   highest (the (windows (fst (accept
     \<lparr>windowSize = 1024, windows = [''chat'' \<mapsto> \<lparr>highest = 9, seen = {9}\<rparr>]\<rparr>
     ''chat'' (Whole 4))) ''chat'')) = highest \<lparr>highest = 9, seen = {9}\<rparr>"
  by (rule replay_accepts_out_of_order) (simp_all add: safe_int_def MAX_SAFE_INTEGER_def)

end
