(* ===== verification/Delivery.thy ===== *)
theory Delivery
  imports Prelude "HOL-Library.Sublist"
begin

text \<open>
  The delivery boundary of \<open>service/src/delivery\<close>: the path contracts, the
  fail-closed checklist for optional paths (\<open>pathEligibility.ts\<close>), the relay
  adapter and the coordinator's retry loop (\<open>deliveryCoordinator.ts\<close>).

  What the coordinator calls out to (the clock, the authority check, the relay,
  the persistence and the rejection callback) is an environment record over an
  arbitrary world, so that each call may fail and may answer differently each
  time. The loop also returns the calls it made, in order.
\<close>

section \<open>Contracts\<close>

datatype path_kind = Relay | Lan | Direct

record path_capabilities =
  path :: path_kind
  encryptedEnvelopes :: bool
  messageDelivery :: bool
  offlineMailbox :: bool

record submission_result =
  result_id :: "string option"
  result_timestamp :: "int option"
  terminalRejection :: bool

record 'e pending_envelope =
  envelope :: 'e
  relayId :: "string option"
  sentAt :: "int option"

record feature_flags =
  lanDelivery :: bool
  directDelivery :: bool

definition CONNECTIVITY_FEATURE_FLAGS :: feature_flags where
  "CONNECTIVITY_FEATURE_FLAGS = \<lparr>lanDelivery = False, directDelivery = False\<rparr>"

section \<open>Eligibility of optional paths\<close>

record readiness =
  featureEnabled :: bool
  privacyAllowsAddressDisclosure :: bool
  contactVerifiedAndUnchanged :: bool
  requiredTrustFreshnessAvailable :: bool
  capabilitiesAuthenticated :: bool
  peerAdmissionAuthenticatedAndCurrent :: bool
  stableEnvelopeIdentityAvailable :: bool
  receiverDeduplicatesBeforeDecrypt :: bool
  sharedDedupeHorizonDefined :: bool
  acceptanceCrashConsistent :: bool
  authenticatedReceiptAvailable :: bool
  outboxCompletionSupportsPath :: bool

datatype path_blocker =
    Feature_disabled
  | Privacy_disallows_address_disclosure
  | Contact_not_verified_and_unchanged
  | Trust_freshness_unavailable
  | Capability_not_authenticated
  | Peer_admission_unavailable
  | Stable_envelope_identity_unavailable
  | Receiver_deduplication_unavailable
  | Dedupe_horizon_undefined
  | Acceptance_not_crash_consistent
  | Authenticated_receipt_unavailable
  | Outbox_completion_incompatible

definition optionalPathBlockers :: "readiness \<Rightarrow> path_blocker list" where
  "optionalPathBlockers r =
     (if \<not> featureEnabled r then [Feature_disabled] else [])
   @ (if \<not> privacyAllowsAddressDisclosure r then [Privacy_disallows_address_disclosure] else [])
   @ (if \<not> contactVerifiedAndUnchanged r then [Contact_not_verified_and_unchanged] else [])
   @ (if \<not> requiredTrustFreshnessAvailable r then [Trust_freshness_unavailable] else [])
   @ (if \<not> capabilitiesAuthenticated r then [Capability_not_authenticated] else [])
   @ (if \<not> peerAdmissionAuthenticatedAndCurrent r then [Peer_admission_unavailable] else [])
   @ (if \<not> stableEnvelopeIdentityAvailable r then [Stable_envelope_identity_unavailable] else [])
   @ (if \<not> receiverDeduplicatesBeforeDecrypt r then [Receiver_deduplication_unavailable] else [])
   @ (if \<not> sharedDedupeHorizonDefined r then [Dedupe_horizon_undefined] else [])
   @ (if \<not> acceptanceCrashConsistent r then [Acceptance_not_crash_consistent] else [])
   @ (if \<not> authenticatedReceiptAvailable r then [Authenticated_receipt_unavailable] else [])
   @ (if \<not> outboxCompletionSupportsPath r then [Outbox_completion_incompatible] else [])"

definition isOptionalPathEligible :: "path_kind \<Rightarrow> readiness \<Rightarrow> bool" where
  "isOptionalPathEligible p r =
     (if p \<noteq> Lan \<and> p \<noteq> Direct then False else length (optionalPathBlockers r) = 0)"

section \<open>The coordinator\<close>

definition relay_capabilities :: path_capabilities where
  "relay_capabilities = \<lparr>path = Relay, encryptedEnvelopes = True, messageDelivery = True,
     offlineMailbox = True\<rparr>"

definition new_coordinator :: "path_capabilities \<Rightarrow> unit outcome" where
  "new_coordinator caps =
     (if path caps \<noteq> Relay \<or> \<not> encryptedEnvelopes caps \<or> \<not> messageDelivery caps
      then Inl ''An encrypted relay message path is required.'' else Inr ())"

text \<open>
  The callbacks of one retry pass, over a world \<open>'w\<close>. An item is the pending
  envelope together with what the caller keeps beside it (\<open>'x\<close>).
\<close>

type_synonym ('e, 'x) item = "('e, 'x) pending_envelope_scheme"

record ('w, 'e, 'x) delivery_env =
  env_now :: "'w \<Rightarrow> int \<times> 'w"
  env_skip :: "'w \<Rightarrow> ('e, 'x) item \<Rightarrow> bool"
  env_beforeSubmit :: "'w \<Rightarrow> ('e, 'x) item \<Rightarrow> unit outcome \<times> 'w"
  env_submit :: "'w \<Rightarrow> 'e \<Rightarrow> string option \<Rightarrow> submission_result outcome \<times> 'w"
  env_onTerminalRejection :: "'w \<Rightarrow> ('e, 'x) item \<Rightarrow> unit outcome \<times> 'w"
  env_persist :: "'w \<Rightarrow> ('e, 'x) item list \<Rightarrow> unit outcome \<times> 'w"

datatype ('e, 'i) delivery_call =
    CheckAuthority 'i
  | Submit 'e "string option"
  | TerminalRejection 'i
  | Persist "'i list"

fun truthy_str :: "string option \<Rightarrow> bool" where
  "truthy_str None = False"
| "truthy_str (Some s) = (s \<noteq> [])"

fun truthy_int :: "int option \<Rightarrow> bool" where
  "truthy_int None = False"
| "truthy_int (Some n) = (n \<noteq> 0)"

definition throttled :: "int \<Rightarrow> ('e, 'x) item \<Rightarrow> bool" where
  "throttled t i \<longleftrightarrow> truthy_str (relayId i) \<and> truthy_int (sentAt i) \<and> t - the (sentAt i) < 5000"

text \<open>
  The clock is read for the throttle test only when the item carries a relay
  id and a send time, as the short-circuit conjunction does.
\<close>

definition check_throttle ::
  "('w, 'e, 'x) delivery_env \<Rightarrow> 'w \<Rightarrow> ('e, 'x) item \<Rightarrow> bool \<times> 'w" where
  "check_throttle env w i =
     (if truthy_str (relayId i) \<and> truthy_int (sentAt i)
      then let (t, w') = env_now env w in (throttled t i, w') else (False, w))"

text \<open>
  One \<open>try\<close> block. It returns the item as left behind, the world, the calls
  made, and whether the block completed (otherwise the loop returns).
\<close>

definition attempt ::
  "('w, 'e, 'x) delivery_env \<Rightarrow> string option \<Rightarrow> 'w \<Rightarrow> ('e, 'x) item list \<Rightarrow> ('e, 'x) item \<Rightarrow>
   ('e, 'x) item list \<Rightarrow> ('e, 'x) item \<times> 'w \<times> ('e, ('e, 'x) item) delivery_call list \<times> bool" where
  "attempt env rid w before i after =
     (case env_beforeSubmit env w i of
        (Inl _, w1) \<Rightarrow> (i, w1, [CheckAuthority i], False)
      | (Inr _, w1) \<Rightarrow>
        (case env_submit env w1 (envelope i) rid of
           (Inl _, w2) \<Rightarrow> (i, w2, [CheckAuthority i, Submit (envelope i) rid], False)
         | (Inr sent, w2) \<Rightarrow>
           (let (t, w3) = env_now env w2;
                i' = i\<lparr>relayId := result_id sent, sentAt := Some t\<rparr>;
                calls = [CheckAuthority i, Submit (envelope i) rid];
                (r4, w4, calls4) =
                  (if terminalRejection sent
                   then let (r, w') = env_onTerminalRejection env w3 i'
                        in (r, w', calls @ [TerminalRejection i'])
                   else (Inr (), w3, calls))
            in case r4 of
                 Inl _ \<Rightarrow> (i', w4, calls4, False)
               | Inr _ \<Rightarrow>
                 (case env_persist env w4 (before @ i' # after) of
                    (Inl _, w5) \<Rightarrow> (i', w5, calls4 @ [Persist (before @ i' # after)], False)
                  | (Inr _, w5) \<Rightarrow> (i', w5, calls4 @ [Persist (before @ i' # after)], True)))))"

fun retry_loop ::
  "('w, 'e, 'x) delivery_env \<Rightarrow> string option \<Rightarrow> 'w \<Rightarrow> ('e, 'x) item list \<Rightarrow> ('e, 'x) item list \<Rightarrow>
   ('e, 'x) item list \<times> 'w \<times> ('e, ('e, 'x) item) delivery_call list" where
  "retry_loop env rid w before [] = (before, w, [])"
| "retry_loop env rid w before (i # after) =
     (if env_skip env w i then retry_loop env rid w (before @ [i]) after
      else case check_throttle env w i of
        (True, w1) \<Rightarrow> retry_loop env rid w1 (before @ [i]) after
      | (False, w1) \<Rightarrow>
        (case attempt env rid w1 before i after of
           (i', w2, calls, False) \<Rightarrow> (before @ i' # after, w2, calls)
         | (i', w2, calls, True) \<Rightarrow>
           (case retry_loop env rid w2 (before @ [i']) after of
              (items, w3, calls') \<Rightarrow> (items, w3, calls @ calls'))))"

definition retry where
  "retry env rid w pending = retry_loop env rid w [] pending"

section \<open>What the calls of a pass show\<close>

fun submitted :: "('e, 'i) delivery_call list \<Rightarrow> ('e \<times> string option) list" where
  "submitted [] = []"
| "submitted (Submit e r # cs) = (e, r) # submitted cs"
| "submitted (_ # cs) = submitted cs"

text \<open>Every submission follows the authority check of an item with that envelope.\<close>

fun checked_before_submit ::
  "('e, ('e, 'x) item) delivery_call list \<Rightarrow> bool" where
  "checked_before_submit [] = True"
| "checked_before_submit (CheckAuthority i # Submit e r # cs) =
     (envelope i = e \<and> checked_before_submit cs)"
| "checked_before_submit (Submit e r # cs) = False"
| "checked_before_submit (_ # cs) = checked_before_submit cs"

section \<open>Lemmas\<close>

lemma blockers_empty:
  "optionalPathBlockers r = [] \<longleftrightarrow>
     featureEnabled r \<and> privacyAllowsAddressDisclosure r \<and> contactVerifiedAndUnchanged r \<and>
     requiredTrustFreshnessAvailable r \<and> capabilitiesAuthenticated r \<and>
     peerAdmissionAuthenticatedAndCurrent r \<and> stableEnvelopeIdentityAvailable r \<and>
     receiverDeduplicatesBeforeDecrypt r \<and> sharedDedupeHorizonDefined r \<and>
     acceptanceCrashConsistent r \<and> authenticatedReceiptAvailable r \<and>
     outboxCompletionSupportsPath r"
  by (simp add: optionalPathBlockers_def)

lemma submitted_append [simp]: "submitted (cs @ ds) = submitted cs @ submitted ds"
  by (induction cs rule: submitted.induct) simp_all

lemmas attempt_splits = prod.splits sum.splits if_splits

lemma attempt_envelope: "attempt env rid w b i a = (i', w', cs, ok) \<Longrightarrow> envelope i' = envelope i"
  by (auto simp: attempt_def Let_def split: attempt_splits)

lemma attempt_submitted:
  "attempt env rid w b i a = (i', w', cs, ok) \<Longrightarrow>
     submitted cs = [] \<and> \<not> ok \<or> submitted cs = [(envelope i, rid)]"
  by (auto simp: attempt_def Let_def split: attempt_splits)

lemma attempt_checked:
  "attempt env rid w b i a = (i', w', cs, ok) \<Longrightarrow> checked_before_submit cs"
  "attempt env rid w b i a = (i', w', cs, True) \<Longrightarrow> checked_before_submit ds \<Longrightarrow>
     checked_before_submit (cs @ ds)"
  by (auto simp: attempt_def Let_def split: attempt_splits)

lemma attempt_failed_before_ack:
  "attempt env rid w b i a = (i', w', cs, False) \<Longrightarrow> \<forall>js. Persist js \<notin> set cs \<Longrightarrow>
     \<forall>j. TerminalRejection j \<notin> set cs \<Longrightarrow> i' = i"
  by (auto simp: attempt_def Let_def split: attempt_splits)

lemma retry_loop_envelopes:
  "retry_loop env rid w b todo = (items, w', cs) \<Longrightarrow>
     map envelope items = map envelope b @ map envelope todo"
proof (induction env rid w b todo arbitrary: items w' cs rule: retry_loop.induct)
  case (1 env rid w before)
  then show ?case by simp
next
  case (2 env rid w before i after)
  then show ?case
    by (auto split: if_splits prod.splits bool.splits dest: attempt_envelope)
qed

lemma retry_loop_submitted:
  "retry_loop env rid w b todo = (items, w', cs) \<Longrightarrow>
     subseq (submitted cs) (map (\<lambda>i. (envelope i, rid)) todo)"
proof (induction env rid w b todo arbitrary: items w' cs rule: retry_loop.induct)
  case (1 env rid w before)
  then show ?case by simp
next
  case (2 env rid w before i after)
  then show ?case
    by (auto split: if_splits prod.splits bool.splits dest!: attempt_submitted)
qed

lemma retry_loop_checked:
  "retry_loop env rid w b todo = (items, w', cs) \<Longrightarrow> checked_before_submit cs"
proof (induction env rid w b todo arbitrary: items w' cs rule: retry_loop.induct)
  case (1 env rid w before)
  then show ?case by simp
next
  case (2 env rid w before i after)
  then show ?case
    by (auto split: if_splits prod.splits bool.splits intro: attempt_checked)
qed

text \<open>With a clock that stands still and a fixed skip rule, the items a pass may touch.\<close>

definition due :: "(('e, 'x) item \<Rightarrow> bool) \<Rightarrow> int \<Rightarrow> ('e, 'x) item \<Rightarrow> bool" where
  "due skip t i \<longleftrightarrow> \<not> skip i \<and> \<not> throttled t i"

lemma check_throttle_fixed:
  "(\<And>w. env_now env w = (t, w)) \<Longrightarrow> check_throttle env w i = (throttled t i, w)"
  by (auto simp: check_throttle_def throttled_def)

lemma retry_loop_due:
  assumes "\<And>w. env_now env w = (t, w)" and "\<And>w i. env_skip env w i = skip i"
  shows "retry_loop env rid w b todo = (items, w', cs) \<Longrightarrow>
     subseq (submitted cs) (map (\<lambda>i. (envelope i, rid)) (filter (due skip t) todo))"
proof (induction todo arbitrary: w b items w' cs)
  case Nil
  then show ?case by simp
next
  case (Cons i todo)
  then show ?case
    by (auto simp: check_throttle_fixed [OF assms(1)] assms(2) due_def
        split: if_splits prod.splits bool.splits dest!: attempt_submitted)
qed

text \<open>An environment in which no call fails.\<close>

definition never_fails :: "('w, 'e, 'x) delivery_env \<Rightarrow> bool" where
  "never_fails env \<longleftrightarrow>
     (\<forall>w i e w'. env_beforeSubmit env w i \<noteq> (Inl e, w')) \<and>
     (\<forall>w c r e w'. env_submit env w c r \<noteq> (Inl e, w')) \<and>
     (\<forall>w i e w'. env_onTerminalRejection env w i \<noteq> (Inl e, w')) \<and>
     (\<forall>w js e w'. env_persist env w js \<noteq> (Inl e, w'))"

lemma attempt_never_fails:
  assumes "never_fails env" and "attempt env rid w b i a = (i', w', cs, ok)"
  shows "ok \<and> submitted cs = [(envelope i, rid)]"
  using assms by (auto simp: attempt_def never_fails_def Let_def split: attempt_splits)

lemma retry_loop_complete:
  assumes "\<And>w. env_now env w = (t, w)" and "\<And>w i. env_skip env w i = skip i"
    and "never_fails env"
  shows "retry_loop env rid w b todo = (items, w', cs) \<Longrightarrow>
     submitted cs = map (\<lambda>i. (envelope i, rid)) (filter (due skip t) todo)"
proof (induction todo arbitrary: w b items w' cs)
  case Nil
  then show ?case by simp
next
  case (Cons i todo)
  then show ?case
    by (auto simp: check_throttle_fixed [OF assms(1)] assms(2) due_def
        split: if_splits prod.splits bool.splits dest!: attempt_never_fails [OF assms(3)])
qed

text \<open>A concrete environment for the witnesses: a fixed clock and a relay that accepts.\<close>

definition sample_env :: "(nat, string, unit) delivery_env" where
  "sample_env = \<lparr>env_now = (\<lambda>w. (20000, w)), env_skip = (\<lambda>w i. envelope i = ''held''),
     env_beforeSubmit = (\<lambda>w i. (Inr (), w)),
     env_submit = (\<lambda>w e r. (Inr \<lparr>result_id = Some ''relay-1'', result_timestamp = Some 42,
        terminalRejection = False\<rparr>, w)),
     env_onTerminalRejection = (\<lambda>w i. (Inr (), w)), env_persist = (\<lambda>w js. (Inr (), w))\<rparr>"

definition sample_pending :: "string pending_envelope list" where
  "sample_pending =
     [\<lparr>envelope = ''recent'', relayId = Some ''r'', sentAt = Some 19000\<rparr>,
      \<lparr>envelope = ''held'', relayId = None, sentAt = None\<rparr>,
      \<lparr>envelope = ''stale'', relayId = Some ''s'', sentAt = Some 14000\<rparr>]"

lemma sample_never_fails: "never_fails sample_env"
  by (simp add: never_fails_def sample_env_def)

section \<open>Properties\<close>

text \<open>
  The optional-path policy fails closed: a path is eligible only if it is
  the local-network or the direct path and every one of the twelve gates is
  satisfied; a relay path is never made eligible by it.
\<close>

theorem optional_path_fails_closed:
  "isOptionalPathEligible p r \<longleftrightarrow> p \<noteq> Relay \<and>
     featureEnabled r \<and> privacyAllowsAddressDisclosure r \<and> contactVerifiedAndUnchanged r \<and>
     requiredTrustFreshnessAvailable r \<and> capabilitiesAuthenticated r \<and>
     peerAdmissionAuthenticatedAndCurrent r \<and> stableEnvelopeIdentityAvailable r \<and>
     receiverDeduplicatesBeforeDecrypt r \<and> sharedDedupeHorizonDefined r \<and>
     acceptanceCrashConsistent r \<and> authenticatedReceiptAvailable r \<and>
     outboxCompletionSupportsPath r"
  by (cases p) (auto simp: isOptionalPathEligible_def blockers_empty)

text \<open>
  C25. A retry pass resends only what was saved: whatever the callbacks do, no
  pending envelope is changed, added or dropped; what is submitted is a
  subsequence of the pending envelopes in outbox order (so each at most once),
  always to the pass's recipient, and each submission directly follows the
  authority check of the same envelope.
\<close>

theorem retry_submits_saved_ciphertext:
  assumes "retry env rid w pending = (items, w', calls)"
  shows "map envelope items = map envelope pending \<and>
    subseq (submitted calls) (map (\<lambda>i. (envelope i, rid)) pending) \<and>
    checked_before_submit calls"
  using assms retry_loop_envelopes [of env rid w "[]" pending items w' calls]
    retry_loop_submitted [of env rid w "[]" pending items w' calls]
    retry_loop_checked [of env rid w "[]" pending items w' calls]
  by (simp add: retry_def)

theorem retry_submits_saved_ciphertext_witness:
  "map envelope (fst (retry sample_env (Some ''peer'') 0 sample_pending)) = map envelope sample_pending \<and>
   subseq (submitted (snd (snd (retry sample_env (Some ''peer'') 0 sample_pending))))
     (map (\<lambda>i. (envelope i, Some ''peer'')) sample_pending) \<and>
   checked_before_submit (snd (snd (retry sample_env (Some ''peer'') 0 sample_pending)))"
  by (rule retry_submits_saved_ciphertext
      [of sample_env "Some ''peer''" 0 sample_pending
        "fst (retry sample_env (Some ''peer'') 0 sample_pending)"
        "fst (snd (retry sample_env (Some ''peer'') 0 sample_pending))"]) simp

text \<open>
  C27. Progress of a pass: when no call fails, every item that is neither
  skipped nor sent less than five seconds ago is submitted, in order, and
  nothing else is.
\<close>

theorem retry_submits_every_due_item:
  assumes "\<And>w. env_now env w = (t, w)" and "\<And>w i. env_skip env w i = skip i"
    and "never_fails env" and "retry env rid w pending = (items, w', calls)"
  shows "submitted calls = map (\<lambda>i. (envelope i, rid)) (filter (due skip t) pending)"
  using retry_loop_complete [OF assms(1-3)] assms(4) by (simp add: retry_def)

theorem retry_submits_every_due_item_witness:
  "submitted (snd (snd (retry sample_env (Some ''peer'') 0 sample_pending))) = [(''stale'', Some ''peer'')]"
proof -
  let ?r = "retry sample_env (Some ''peer'') 0 sample_pending"
  have "submitted (snd (snd ?r)) = map (\<lambda>i. (envelope i, Some ''peer''))
      (filter (due (\<lambda>i. envelope i = ''held'') 20000) sample_pending)"
    by (rule retry_submits_every_due_item [OF _ _ sample_never_fails, of _ _ _ _ _ "fst ?r" "fst (snd ?r)"])
      (simp_all only: prod.collapse, simp_all add: sample_env_def)
  then show ?thesis
    by (simp add: sample_pending_def due_def throttled_def)
qed

end
