(* ===== verification/EnvelopeIdentity.thy ===== *)
theory EnvelopeIdentity
  imports Encoding
begin

text \<open>
  The stable envelope identifier of \<open>service/src/delivery/envelopeIdentity.ts\<close>.
  JavaScript strings are here lists of 16-bit code units, because the code
  inspects surrogates; \<open>TextEncoder\<close> is the UTF-8 encoding of the decoded code
  points. SHA-256 is the Web Crypto implementation and stays a parameter. The
  theory shows that the bytes that are hashed determine the conversation and
  the ciphertext, so that two envelopes share an identifier only if SHA-256
  collides.
\<close>

section \<open>The identifier\<close>

definition DOMAIN :: "u8 list" where
  "DOMAIN = encode_utf8 (units_of ''k3ncrypt/envelope-id/v1'')"

definition encodeScalarString :: "code_units \<Rightarrow> string \<Rightarrow> u8 list outcome" where
  "encodeScalarString v field =
     (if scalar_string v then Inr (encode_utf8 v) else Inl (field @ '' is not valid Unicode.''))"

definition u32be :: "nat \<Rightarrow> u8 list outcome" where
  "u32be n = (if n > 0xffffffff then Inl ''Envelope identity input is too large.''
     else Inr (u32be_bytes n))"

text \<open>
  The modern-envelope check. The envelope is a JavaScript object; its \<open>data\<close>
  must have exactly the keys \<open>olmMessage\<close> and \<open>version\<close>.
\<close>

definition has_exactly_keys :: "jsval \<Rightarrow> string set \<Rightarrow> bool" where
  "has_exactly_keys v ks \<longleftrightarrow> set (object_keys v) = ks"

definition validatedOlmMessage :: "jsval \<Rightarrow> string outcome" where
  "validatedOlmMessage env =
     (let data = get_prop env ''data'' in
      if \<not> is_plain_object env \<or> get_prop env ''version'' \<noteq> VNum (Whole 2)
         \<or> get_prop env ''strategy'' \<noteq> VStr ''vodozemac-olm-v1'' \<or> \<not> is_plain_object data
      then Inl ''Unsupported modern message.''
      else case get_prop data ''olmMessage'' of
        VStr m \<Rightarrow>
          if \<not> has_exactly_keys data {''olmMessage'', ''version''}
             \<or> get_prop data ''version'' \<noteq> VNum (Whole 1) \<or> length m < 1 \<or> length m > 192 * 1024
          then Inl ''Malformed modern message.'' else Inr m
      | _ \<Rightarrow> Inl ''Malformed modern message.'')"

text \<open>The hashed bytes: domain, then each field with its 32-bit length before it.\<close>

definition identity_input :: "code_units \<Rightarrow> code_units \<Rightarrow> u8 list outcome" where
  "identity_input conversationId olmMessage =
     (case encodeScalarString conversationId ''Conversation identifier'' of
        Inl e \<Rightarrow> Inl e
      | Inr conversation \<Rightarrow>
        (case encodeScalarString olmMessage ''Ciphertext'' of
           Inl e \<Rightarrow> Inl e
         | Inr ciphertext \<Rightarrow>
           (case u32be (length conversation) of
              Inl e \<Rightarrow> Inl e
            | Inr l1 \<Rightarrow>
              (case u32be (length ciphertext) of
                 Inl e \<Rightarrow> Inl e
               | Inr l2 \<Rightarrow> Inr (DOMAIN @ l1 @ conversation @ l2 @ ciphertext)))))"

definition envelopeId :: "(u8 list \<Rightarrow> u8 list) \<Rightarrow> code_units \<Rightarrow> code_units \<Rightarrow> string outcome" where
  "envelopeId sha256 conversationId olmMessage =
     (case identity_input conversationId olmMessage of
        Inl e \<Rightarrow> Inl e
      | Inr input \<Rightarrow> Inr (''v1:'' @ concat (map hex_byte (sha256 input))))"

definition envelopeIdForEnvelope :: "(u8 list \<Rightarrow> u8 list) \<Rightarrow> code_units \<Rightarrow> jsval \<Rightarrow> string outcome" where
  "envelopeIdForEnvelope sha256 conversationId env =
     (case validatedOlmMessage env of
        Inl e \<Rightarrow> Inl e | Inr m \<Rightarrow> envelopeId sha256 conversationId (units_of m))"

section \<open>Lemmas\<close>

lemma identity_input_eq:
  "identity_input c m = Inr bs \<longleftrightarrow>
     scalar_string c \<and> scalar_string m \<and>
     length (encode_utf8 c) \<le> 0xffffffff \<and> length (encode_utf8 m) \<le> 0xffffffff \<and>
     bs = DOMAIN @ u32be_bytes (length (encode_utf8 c)) @ encode_utf8 c @
       u32be_bytes (length (encode_utf8 m)) @ encode_utf8 m"
  by (auto simp: identity_input_def encodeScalarString_def u32be_def)

text \<open>The length prefixes make the hashed bytes determine both fields.\<close>

lemma identity_input_inj:
  assumes "identity_input c m = Inr bs" and "identity_input c' m' = Inr bs"
  shows "c = c' \<and> m = m'"
proof -
  have len: "length (u32be_bytes k) = 4" for k by (simp add: u32be_bytes_def)
  from assms have eq: "u32be_bytes (length (encode_utf8 c)) @ encode_utf8 c @
       u32be_bytes (length (encode_utf8 m)) @ encode_utf8 m =
     u32be_bytes (length (encode_utf8 c')) @ encode_utf8 c' @
       u32be_bytes (length (encode_utf8 m')) @ encode_utf8 m'"
    and v: "scalar_string c" "scalar_string c'" "scalar_string m" "scalar_string m'"
    and bd: "length (encode_utf8 c) \<le> 0xffffffff" "length (encode_utf8 c') \<le> 0xffffffff"
    by (auto simp: identity_input_eq)
  from eq have "u32be_bytes (length (encode_utf8 c)) = u32be_bytes (length (encode_utf8 c'))"
    by (simp add: append_eq_append_conv len)
  with bd have lc: "length (encode_utf8 c) = length (encode_utf8 c')" by (intro u32be_bytes_inj)
  with eq have "encode_utf8 c = encode_utf8 c'" and "encode_utf8 m = encode_utf8 m'"
    by (simp_all add: append_eq_append_conv len)
  with v show ?thesis by (simp add: encode_utf8_inj)
qed

section \<open>Properties\<close>

text \<open>
  C18. Envelope identifiers bind the conversation and the exact ciphertext: two
  envelopes get the same identifier only if they belong to the same
  conversation with the same ciphertext, or else the two distinct inputs that
  were hashed are a collision of the hash function.
\<close>

theorem envelope_id_binds:
  assumes "envelopeId sha256 c m = Inr i" and "envelopeId sha256 c' m' = Inr i"
  shows "c = c' \<and> m = m' \<or>
    (\<exists>bs bs'. identity_input c m = Inr bs \<and> identity_input c' m' = Inr bs' \<and>
       bs \<noteq> bs' \<and> sha256 bs = sha256 bs')"
proof -
  from assms obtain bs bs' where i: "identity_input c m = Inr bs" "identity_input c' m' = Inr bs'"
    and "concat (map hex_byte (sha256 bs)) = concat (map hex_byte (sha256 bs'))"
    by (auto simp: envelopeId_def split: sum.splits)
  then have "sha256 bs = sha256 bs'" by (blast intro: hex_bytes_inj)
  with i identity_input_inj show ?thesis by blast
qed

theorem envelope_id_binds_witness:
  "([97] :: code_units) = [98] \<and> ([99] :: code_units) = [99] \<or>
    (\<exists>bs bs'. identity_input [97] [99] = Inr bs \<and> identity_input [98] [99] = Inr bs' \<and>
       bs \<noteq> bs' \<and> (\<lambda>_. [7 :: u8]) bs = (\<lambda>_. [7]) bs')"
  by (rule envelope_id_binds [of "\<lambda>_. [7]" _ _ "''v1:07''"])
    (simp_all add: envelopeId_def identity_input_def encodeScalarString_def u32be_def
      high_surrogate_def low_surrogate_def encode_utf8_def utf8_def utf8_point_def
      hex_byte_def hex_digit_def)

text \<open>
  Malformed input never gets an identifier: an unpaired surrogate in either
  field makes \<open>envelopeId\<close> fail, and on valid Unicode it fails only for a field
  whose UTF-8 form exceeds the 32-bit length.
\<close>

theorem envelope_id_defined_iff:
  "(\<exists>i. envelopeId sha256 c m = Inr i) \<longleftrightarrow>
     scalar_string c \<and> scalar_string m \<and>
     length (encode_utf8 c) \<le> 0xffffffff \<and> length (encode_utf8 m) \<le> 0xffffffff"
  by (auto simp: envelopeId_def identity_input_def encodeScalarString_def u32be_def)

end
