(* ===== verification/RelayLimits.thy ===== *)
theory RelayLimits
  imports Prelude
begin

text \<open>
  The relay's admission limits: the token bucket of \<open>backend/socket.io/rateLimiter.ts\<close>,
  the concurrent-socket slots and the client address of \<open>socketLimits.ts\<close>, and
  the retention deadlines of \<open>backend/db/retention.ts\<close>. Bucket contents are
  counted in thousandths of a token, so that a refill of whole tokens per second
  over whole milliseconds stays integral; the rounding of JavaScript doubles is
  not modelled.
\<close>

section \<open>Token bucket\<close>

record bucket =
  milli_tokens :: int
  lastRefill :: int

record limiter =
  capacity :: int
  refillPerSecond :: int
  buckets :: "string \<Rightarrow> bucket option"


definition refilled :: "limiter \<Rightarrow> string \<Rightarrow> int \<Rightarrow> int" where
  "refilled l key now =
     (let b = (case buckets l key of
            None \<Rightarrow> \<lparr>milli_tokens = 1000 * capacity l, lastRefill = now\<rparr>
          | Some b \<Rightarrow> b)
      in min (1000 * capacity l) (milli_tokens b + max 0 (now - lastRefill b) * refillPerSecond l))"

definition consume :: "limiter \<Rightarrow> string \<Rightarrow> int \<Rightarrow> int \<Rightarrow> limiter \<times> bool" where
  "consume l key cost now =
     (let tokens = refilled l key now;
          store = (\<lambda>t. l\<lparr>buckets := (buckets l)(key \<mapsto> \<lparr>milli_tokens = t, lastRefill = now\<rparr>)\<rparr>)
      in if tokens < 1000 * cost then (store tokens, False)
         else (store (tokens - 1000 * cost), True))"

definition reset_bucket :: "limiter \<Rightarrow> string \<Rightarrow> limiter" where
  "reset_bucket l key = l\<lparr>buckets := (buckets l)(key := None)\<rparr>"

datatype limiter_event = Consume string int int | ResetBucket string

fun limiter_step :: "limiter \<Rightarrow> limiter_event \<Rightarrow> limiter \<times> bool" where
  "limiter_step l (Consume key cost now) = consume l key cost now"
| "limiter_step l (ResetBucket key) = (reset_bucket l key, False)"



section \<open>Concurrent slots\<close>

text \<open>
  \<open>slotCounter\<close>: the counts per key, and the release functions that were handed
  out, each with its key and its \<open>released\<close> flag.
\<close>

record slots =
  open_slots :: "string \<Rightarrow> nat option"
  handles :: "(string \<times> bool) list"

definition no_slots :: slots where
  "no_slots = \<lparr>open_slots = \<lambda>_. None, handles = []\<rparr>"

definition admit :: "nat \<Rightarrow> slots \<Rightarrow> string \<Rightarrow> slots \<times> nat option" where
  "admit cap s key =
     (let count = (case open_slots s key of None \<Rightarrow> 0 | Some n \<Rightarrow> n) in
      if count \<ge> cap then (s, None)
      else (s\<lparr>open_slots := (open_slots s)(key \<mapsto> count + 1), handles := handles s @ [(key, False)]\<rparr>,
        Some (length (handles s))))"

definition release :: "slots \<Rightarrow> nat \<Rightarrow> slots" where
  "release s h =
     (if h \<ge> length (handles s) \<or> snd (handles s ! h) then s
      else
        let key = fst (handles s ! h);
            next_count = (case open_slots s key of None \<Rightarrow> 1 | Some n \<Rightarrow> n) - 1
        in s\<lparr>handles := (handles s)[h := (key, True)],
             open_slots := (open_slots s)(key := (if next_count = 0 then None else Some next_count))\<rparr>)"

definition MAX_SOCKETS_PER_ADDRESS :: nat where
  "MAX_SOCKETS_PER_ADDRESS = 64"

definition MAX_SOCKETS_PER_DEVICE :: nat where
  "MAX_SOCKETS_PER_DEVICE = 10"

datatype slot_event = Admit string | Release nat

fun slot_step :: "nat \<Rightarrow> slots \<Rightarrow> slot_event \<Rightarrow> slots \<times> nat option" where
  "slot_step cap s (Admit key) = admit cap s key"
| "slot_step cap s (Release h) = (release s h, None)"

text \<open>The handles of a key that were not released.\<close>

definition held :: "slots \<Rightarrow> string \<Rightarrow> nat" where
  "held s key = length (filter (\<lambda>h. h = (key, False)) (handles s))"

definition slots_ok :: "nat \<Rightarrow> slots \<Rightarrow> bool" where
  "slots_ok cap s \<longleftrightarrow> (\<forall>key. held s key \<le> cap \<and>
     open_slots s key = (if held s key = 0 then None else Some (held s key)))"

section \<open>Client address\<close>

fun split_on :: "char \<Rightarrow> string \<Rightarrow> string list" where
  "split_on c [] = [[]]"
| "split_on c (x # xs) =
     (if x = c then [] # split_on c xs
      else case split_on c xs of [] \<Rightarrow> [[x]] | y # ys \<Rightarrow> (x # y) # ys)"

text \<open>White space among characters below 256.\<close>

definition is_space :: "char \<Rightarrow> bool" where
  "is_space c \<longleftrightarrow> code c \<in> {9, 10, 11, 12, 13, 32, 160}"

definition trim :: "string \<Rightarrow> string" where
  "trim s = rev (dropWhile is_space (rev (dropWhile is_space s)))"

definition clientAddress :: "bool \<Rightarrow> string option \<Rightarrow> string option \<Rightarrow> string" where
  "clientAddress trustProxy forwarded remoteAddress =
     (let direct = (case remoteAddress of None \<Rightarrow> ''unknown'' | Some a \<Rightarrow> a) in
      if \<not> trustProxy then direct
      else case forwarded of
        None \<Rightarrow> direct
      | Some v \<Rightarrow>
          let items = filter (\<lambda>i. i \<noteq> []) (map trim (split_on (CHR '','') v))
          in if items = [] then direct else last items)"

section \<open>Retention deadlines\<close>

definition DAY_MS :: int where
  "DAY_MS = 24 * 60 * 60 * 1000"

definition MAX_UNCLAIMED_MS :: int where
  "MAX_UNCLAIMED_MS = 7 * DAY_MS"

definition ledgerPurgeAt :: "int list \<Rightarrow> int \<Rightarrow> int" where
  "ledgerPurgeAt expiries now =
     (if expiries = [] then now
      else min (Max (set expiries) + DAY_MS) (now + MAX_UNCLAIMED_MS))"

definition attachmentPurgeAt :: "jsnum option \<Rightarrow> int \<Rightarrow> int \<Rightarrow> int" where
  "attachmentPurgeAt createdAt expiresAt now =
     (let created = (case createdAt of Some n \<Rightarrow> if isSafeInteger n then whole n else now | None \<Rightarrow> now)
      in min (expiresAt + DAY_MS) (created + MAX_UNCLAIMED_MS))"

definition unclaimedPurgeAt :: "int \<Rightarrow> int" where
  "unclaimedPurgeAt storedAt = storedAt + MAX_UNCLAIMED_MS"

section \<open>Lemmas\<close>

lemma limiter_params [simp]:
  "capacity (fst (limiter_step l e)) = capacity l"
  "refillPerSecond (fst (limiter_step l e)) = refillPerSecond l"
  by (cases e; simp add: consume_def reset_bucket_def Let_def)+






lemma held_append [simp]: "held (s\<lparr>open_slots := m, handles := handles s @ [(k, False)]\<rparr>) key =
    held s key + (if k = key then 1 else 0)"
  by (simp add: held_def)

lemma filter_update_length:
  assumes "h < length xs" and "xs ! h = (k, False)"
  shows "length (filter (\<lambda>x. x = (key, False)) (xs[h := (k, True)])) =
    length (filter (\<lambda>x. x = (key, False)) xs) - (if k = key then 1 else 0)"
proof -
  have xs: "xs = take h xs @ (k, False) # drop (Suc h) xs"
    using assms by (metis id_take_nth_drop)
  have "xs[h := (k, True)] = take h xs @ (k, True) # drop (Suc h) xs"
    using assms(1) by (simp add: upd_conv_take_nth_drop)
  then show ?thesis by (subst (2) xs) simp
qed

lemma admit_ok:
  assumes "slots_ok cap s"
  shows "slots_ok cap (fst (admit cap s key))"
proof -
  have c: "(case open_slots s key of None \<Rightarrow> 0 | Some n \<Rightarrow> n) = held s key"
    using assms by (simp add: slots_ok_def)
  show ?thesis
    using assms unfolding admit_def c by (auto simp: slots_ok_def Let_def)
qed

lemma release_ok:
  assumes "slots_ok cap s"
  shows "slots_ok cap (release s h)"
proof (cases "h \<ge> length (handles s) \<or> snd (handles s ! h)")
  case False
  obtain k where k: "handles s ! h = (k, False)" and h: "h < length (handles s)"
    using False by (cases "handles s ! h") auto
  have held: "held (release s h) key = held s key - (if k = key then 1 else 0)" for key
    using filter_update_length [OF h k, of key] k h by (simp add: held_def release_def Let_def)
  have "(k, False) \<in> set (handles s)" using k h by (metis nth_mem)
  then have "held s k \<noteq> 0" by (simp add: held_def filter_empty_conv)
  then have "open_slots s k = Some (held s k)" using assms by (simp add: slots_ok_def)
  then have "open_slots (release s h) = (open_slots s)(k := (if held s k - 1 = 0 then None else Some (held s k - 1)))"
    using k h by (simp add: release_def Let_def)
  moreover have "held s k - 1 \<le> cap" using assms by (simp add: slots_ok_def le_diff_conv le_Suc_eq)
  ultimately show ?thesis using assms by (auto simp: slots_ok_def held)
qed (use assms in \<open>auto simp: release_def\<close>)

interpretation slots: invariant_machine "slot_step cap" "slots_ok cap"
  for cap
proof unfold_locales
  show "slots_ok cap s \<Longrightarrow> slots_ok cap (fst (slot_step cap s e))" for s e
    by (cases e) (simp_all add: admit_ok release_ok)
qed

lemma split_on_append:
  "c \<notin> set y \<Longrightarrow> split_on c (x @ c # y) = split_on c x @ [y]"
proof (induction x)
  case Nil
  then have "split_on c y = [y]" by (induction y) auto
  then show ?case by simp
next
  case (Cons a x)
  moreover have "split_on c x \<noteq> []" for x
    by (cases x) (auto split: list.split)
  ultimately show ?case by (cases "split_on c x") auto
qed

section \<open>Properties\<close>



text \<open>
  Concurrent sockets stay below their cap: after any sequence of admissions
  and releases, in which a release function may be called again, the counter of
  a key is exactly the number of its admissions that were not released, and at
  most the cap; a key with none is forgotten.
\<close>

theorem socket_slots_bounded:
  "let s = final (slot_step cap) no_slots es in
   held s key \<le> cap \<and> open_slots s key = (if held s key = 0 then None else Some (held s key))"
proof -
  have "slots_ok cap no_slots" by (simp add: slots_ok_def no_slots_def held_def)
  from slots.run_inv [OF this] show ?thesis unfolding slots_ok_def Let_def by blast
qed

text \<open>
  Behind the trusted proxy, what a client puts in front of the proxy's own
  X-Forwarded-For entry does not change the address it is limited by.
\<close>

theorem forwarded_prefix_ignored:
  assumes "CHR '','' \<notin> set own" and "trim own \<noteq> []"
  shows "clientAddress True (Some (spoofed @ CHR '','' # own)) remote = trim own \<and>
    clientAddress True (Some own) remote = trim own"
proof -
  have "split_on (CHR '','') own = [own]"
    using assms(1) by (induction own) auto
  with assms show ?thesis
    by (simp add: clientAddress_def split_on_append Let_def)
qed

theorem forwarded_prefix_ignored_witness:
  "clientAddress True (Some (''10.0.0.1'' @ CHR '','' # '' 192.0.2.7'')) (Some ''127.0.0.1'') = trim '' 192.0.2.7'' \<and>
   clientAddress True (Some '' 192.0.2.7'') (Some ''127.0.0.1'') = trim '' 192.0.2.7''"
  by (rule forwarded_prefix_ignored) (simp, code_simp)

end
