(* ===== verification/Mailbox.thy ===== *)
theory Mailbox
  imports Prelude "HOL-Library.Product_Lexorder"
begin

text \<open>
  The relay's in-memory database (\<open>backend/db/inMemDB.ts\<close>) and the in-memory
  branches of \<open>backend/db/index.ts\<close>: generic collections, one-time pre-key claims
  and the store-and-forward mailbox with its leases, acknowledgements and
  terminal rejections. An entry is the map of its properties; the row an
  operation mutates is addressed by its position in the collection. The clock is
  an argument.
\<close>

section \<open>Entries and collections\<close>

datatype field =
    FStr string
  | FNum int
  | FDate int
  | FBool bool
  | FData jsval
  | FKeys "(string \<times> string) list"

type_synonym entry = "string \<Rightarrow> field option"
type_synonym condition = "(string \<times> field) list"

record mem_db =
  storage :: "string \<Rightarrow> entry list option"
  pk :: int

definition coll :: "mem_db \<Rightarrow> string \<Rightarrow> entry list" where
  "coll d c = (case storage d c of None \<Rightarrow> [] | Some es \<Rightarrow> es)"

definition set_coll :: "mem_db \<Rightarrow> string \<Rightarrow> entry list \<Rightarrow> mem_db" where
  "set_coll d c es = d\<lparr>storage := (storage d)(c \<mapsto> es)\<rparr>"

definition num_field :: "entry \<Rightarrow> string \<Rightarrow> int" where
  "num_field e k = (case e k of Some (FNum n) \<Rightarrow> n | _ \<Rightarrow> 0)"

definition date_field :: "entry \<Rightarrow> string \<Rightarrow> int option" where
  "date_field e k = (case e k of Some (FDate t) \<Rightarrow> Some t | _ \<Rightarrow> None)"

fun truthy_field :: "field \<Rightarrow> bool" where
  "truthy_field (FStr s) = (s \<noteq> [])"
| "truthy_field (FNum n) = (n \<noteq> 0)"
| "truthy_field (FBool b) = b"
| "truthy_field _ = True"

definition matches :: "condition \<Rightarrow> entry \<Rightarrow> bool" where
  "matches cond e = list_all (\<lambda>(k, v). e k = Some v) cond"

text \<open>\<open>findOneFromArr\<close>: a falsy condition value never matches.\<close>

definition findOneFromArr :: "entry list \<Rightarrow> condition \<Rightarrow> entry option" where
  "findOneFromArr es cond = find (\<lambda>e. list_all (\<lambda>(k, v). truthy_field v \<and> e k = Some v) cond) es"

fun find_index :: "('a \<Rightarrow> bool) \<Rightarrow> 'a list \<Rightarrow> nat option" where
  "find_index P [] = None"
| "find_index P (x # xs) = (if P x then Some 0 else map_option Suc (find_index P xs))"

definition remove_at :: "nat \<Rightarrow> 'a list \<Rightarrow> 'a list" where
  "remove_at i xs = take i xs @ drop (Suc i) xs"

definition with_pk :: "mem_db \<Rightarrow> entry \<Rightarrow> entry" where
  "with_pk d e = (\<lambda>k. if k = ''pk'' \<and> e k = None then Some (FNum (pk d)) else e k)"

definition insertInDb :: "mem_db \<Rightarrow> entry \<Rightarrow> string \<Rightarrow> mem_db" where
  "insertInDb d e c = (set_coll d c (coll d c @ [with_pk d e]))\<lparr>pk := pk d + 1\<rparr>"

definition findOneFromDB :: "mem_db \<Rightarrow> condition \<Rightarrow> string \<Rightarrow> entry option" where
  "findOneFromDB d cond c = (case storage d c of None \<Rightarrow> None | Some es \<Rightarrow> findOneFromArr es cond)"

definition find_position :: "entry list \<Rightarrow> condition \<Rightarrow> nat option" where
  "find_position es cond = find_index (\<lambda>e. list_all (\<lambda>(k, v). truthy_field v \<and> e k = Some v) cond) es"

definition updateOneFromDb :: "mem_db \<Rightarrow> condition \<Rightarrow> condition \<Rightarrow> string \<Rightarrow> mem_db \<times> entry option" where
  "updateOneFromDb d cond data c =
     (case storage d c of
        None \<Rightarrow> (d, None)
      | Some es \<Rightarrow>
          (case find_position es cond of
             None \<Rightarrow> (d, None)
           | Some i \<Rightarrow>
               let e = foldl (\<lambda>e (k, v). e(k \<mapsto> v)) (es ! i) data
               in (set_coll d c (es[i := e]), Some e)))"

section \<open>One-time pre-keys\<close>

text \<open>The one-time keys of a publication, as pairs of identifier and key.\<close>

definition one_time_keys :: "entry \<Rightarrow> (string \<times> string) list" where
  "one_time_keys e = (case e ''oneTimeKeys'' of Some (FKeys ks) \<Rightarrow> ks | _ \<Rightarrow> [])"

definition claimOneTimeKey ::
  "mem_db \<Rightarrow> condition \<Rightarrow> string \<Rightarrow> string \<Rightarrow> int \<Rightarrow> mem_db \<times> (string \<times> string) option"
where
  "claimOneTimeKey d cond keyId c now =
     (case find_index (\<lambda>e. matches cond e \<and> (case date_field e ''expiresAt'' of None \<Rightarrow> False | Some t \<Rightarrow> now < t)
          \<and> list_ex (\<lambda>k. fst k = keyId) (one_time_keys e)) (coll d c) of
        None \<Rightarrow> (d, None)
      | Some i \<Rightarrow>
          let e = coll d c ! i; ks = one_time_keys e in
          (case find_index (\<lambda>k. fst k = keyId) ks of
             None \<Rightarrow> (d, None)
           | Some j \<Rightarrow>
               (set_coll d c ((coll d c)[i := e(''oneTimeKeys'' \<mapsto> FKeys (remove_at j ks))]), Some (ks ! j))))"

definition expired_at :: "int \<Rightarrow> entry \<Rightarrow> bool" where
  "expired_at now e = (case date_field e ''expiresAt'' of None \<Rightarrow> False | Some t \<Rightarrow> t \<le> now)"

text \<open>Both sweeps keep what has no expiry date or expires later.\<close>

definition deleteExpiredPrekeyBundles :: "mem_db \<Rightarrow> int \<Rightarrow> string \<Rightarrow> mem_db \<times> nat" where
  "deleteExpiredPrekeyBundles d now c =
     (case storage d c of
        None \<Rightarrow> (d, 0)
      | Some es \<Rightarrow>
          let retained = filter (\<lambda>e. \<not> expired_at now e) es
          in (set_coll d c retained, length es - length retained))"

section \<open>Offline messages\<close>

definition OFFLINE :: string where
  "OFFLINE = ''offline_messages''"

definition active :: "entry \<Rightarrow> bool" where
  "active e \<longleftrightarrow> e ''state'' = Some (FStr ''active'')"

definition rejected :: "entry \<Rightarrow> bool" where
  "rejected e \<longleftrightarrow> e ''state'' = Some (FStr ''rejected'')"

text \<open>FIFO: by timestamp, then by insertion. Insertion numbers are distinct, so the identifier never decides.\<close>

definition offlineMessageFifo :: "entry \<Rightarrow> int \<times> int" where
  "offlineMessageFifo e = (num_field e ''timestamp'', num_field e ''pk'')"

definition waiting :: "condition \<Rightarrow> int \<Rightarrow> entry \<Rightarrow> bool" where
  "waiting cond now e \<longleftrightarrow> active e \<and> matches cond e \<and> \<not> expired_at now e"

definition nextActiveOfflineMessage :: "mem_db \<Rightarrow> condition \<Rightarrow> int \<Rightarrow> nat option" where
  "nextActiveOfflineMessage d cond now =
     (let es = coll d OFFLINE in
      case sort_key (\<lambda>i. offlineMessageFifo (es ! i)) (filter (\<lambda>i. waiting cond now (es ! i)) [0..<length es]) of
        [] \<Rightarrow> None
      | i # _ \<Rightarrow> Some i)"

definition leased :: "int \<Rightarrow> entry \<Rightarrow> bool" where
  "leased now e = (case date_field e ''claimedUntil'' of None \<Rightarrow> False | Some t \<Rightarrow> now < t)"

definition findOfflineMessages :: "mem_db \<Rightarrow> condition \<Rightarrow> int \<Rightarrow> nat \<Rightarrow> entry list" where
  "findOfflineMessages d cond now limit =
     take limit (sort_key offlineMessageFifo
       (filter (\<lambda>e. waiting cond now e \<and> \<not> leased now e) (coll d OFFLINE)))"

definition same_dedupe :: "entry \<Rightarrow> entry \<Rightarrow> bool" where
  "same_dedupe data e \<longleftrightarrow> e ''dedupeKey'' = data ''dedupeKey''"

definition insertOfflineMessage :: "mem_db \<Rightarrow> entry \<Rightarrow> mem_db \<times> entry" where
  "insertOfflineMessage d data =
     (case find (same_dedupe data) (coll d OFFLINE) of
        Some e \<Rightarrow> (d, e)
      | None \<Rightarrow>
          let stored = (\<lambda>k. if k = ''state'' \<and> data k = None then Some (FStr ''active'') else data k)
          in (insertInDb d stored OFFLINE, stored))"

definition claimOfflineMessage :: "mem_db \<Rightarrow> condition \<Rightarrow> int \<Rightarrow> string \<Rightarrow> int \<Rightarrow> mem_db \<times> entry option" where
  "claimOfflineMessage d cond leaseUntil claimId now =
     (case nextActiveOfflineMessage d cond now of
        None \<Rightarrow> (d, None)
      | Some i \<Rightarrow>
          let e = coll d OFFLINE ! i in
          if leased now e then (d, None)
          else
            let attempts = (case e ''deliveryAttempts'' of
                    Some (FNum n) \<Rightarrow> if safe_int n \<and> 0 \<le> n then n + 1 else 1
                  | _ \<Rightarrow> 1);
                e' = e(''claimedUntil'' \<mapsto> FDate leaseUntil, ''claimId'' \<mapsto> FStr claimId,
                  ''deliveryAttempts'' \<mapsto> FNum attempts)
            in (set_coll d OFFLINE ((coll d OFFLINE)[i := e']), Some e'))"

definition offlineMessageClaimUntil :: "mem_db \<Rightarrow> condition \<Rightarrow> int \<Rightarrow> int option" where
  "offlineMessageClaimUntil d cond now =
     (case nextActiveOfflineMessage d cond now of
        None \<Rightarrow> None
      | Some i \<Rightarrow>
          let e = coll d OFFLINE ! i in if leased now e then date_field e ''claimedUntil'' else None)"

text \<open>An acknowledgement without a claim only removes a row that is not claimed.\<close>

definition ack_matches :: "condition \<Rightarrow> entry \<Rightarrow> bool" where
  "ack_matches cond e \<longleftrightarrow> matches cond e \<and> (map_of cond ''claimId'' = e ''claimId'')"

definition ackOfflineMessage :: "mem_db \<Rightarrow> condition \<Rightarrow> mem_db \<times> bool" where
  "ackOfflineMessage d cond =
     (case find_index (ack_matches cond) (coll d OFFLINE) of
        None \<Rightarrow> (d, False)
      | Some i \<Rightarrow> (set_coll d OFFLINE (remove_at i (coll d OFFLINE)), True))"

definition terminal :: "string \<Rightarrow> int \<Rightarrow> field option \<Rightarrow> entry \<Rightarrow> entry" where
  "terminal reason now claim e =
     e(''state'' := Some (FStr ''rejected''), ''terminalReason'' := Some (FStr reason),
       ''terminalAt'' := Some (FDate now), ''terminalClaimId'' := claim, ''claimedUntil'' := e ''expiresAt'',
       ''envelope'' := None, ''claimId'' := None, ''slot'' := None)"

datatype rejection_result = Rejected_now | Duplicate | Stale_claim

definition rejectOfflineMessage ::
  "mem_db \<Rightarrow> condition \<Rightarrow> string \<Rightarrow> int \<Rightarrow> mem_db \<times> rejection_result"
where
  "rejectOfflineMessage d cond reason now =
     (let es = coll d OFFLINE; claim = map_of cond ''claimId'' in
      case find_index (\<lambda>e. \<not> rejected e \<and> matches cond e) es of
        Some i \<Rightarrow> (set_coll d OFFLINE (es[i := terminal reason now claim (es ! i)]), Rejected_now)
      | None \<Rightarrow>
          (d, if list_ex (\<lambda>e. rejected e \<and> matches (filter (\<lambda>(k, v). k \<noteq> ''claimId'') cond) e
                \<and> e ''terminalClaimId'' = claim) es
            then Duplicate else Stale_claim))"

definition recordOfflineRejection :: "mem_db \<Rightarrow> entry \<Rightarrow> string \<Rightarrow> int \<Rightarrow> mem_db \<times> rejection_result" where
  "recordOfflineRejection d data reason now =
     (let es = coll d OFFLINE in
      case find_index (same_dedupe data) es of
        Some i \<Rightarrow>
          if rejected (es ! i) then (d, Duplicate)
          else (set_coll d OFFLINE (es[i := terminal reason now None (es ! i)]), Rejected_now)
      | None \<Rightarrow>
          (insertInDb d (data(''state'' \<mapsto> FStr ''rejected'', ''claimedUntil'' := data ''expiresAt'',
             ''terminalReason'' \<mapsto> FStr reason, ''terminalAt'' \<mapsto> FDate now)) OFFLINE, Rejected_now))"

definition deleteExpiredOfflineMessages :: "mem_db \<Rightarrow> int \<Rightarrow> mem_db \<times> nat" where
  "deleteExpiredOfflineMessages d now =
     (let es = coll d OFFLINE; retained = filter (\<lambda>e. \<not> expired_at now e) es
      in (set_coll d OFFLINE retained, length es - length retained))"

definition countOfflineMessages :: "mem_db \<Rightarrow> condition \<Rightarrow> int \<Rightarrow> nat" where
  "countOfflineMessages d cond now =
     length (filter (\<lambda>e. \<not> rejected e \<and> matches cond e \<and> \<not> expired_at now e) (coll d OFFLINE))"

section \<open>The store operation with its quotas\<close>

definition offlineGlobal :: nat where
  "offlineGlobal = 4000"

definition offlinePerDevice :: nat where
  "offlinePerDevice = 256"

definition storeOfflineMessage :: "mem_db \<Rightarrow> entry \<Rightarrow> int \<Rightarrow> mem_db \<times> entry outcome" where
  "storeOfflineMessage d data now =
     (case (case data ''dedupeKey'' of None \<Rightarrow> None | Some k \<Rightarrow> findOneFromDB d [(''dedupeKey'', k)] OFFLINE) of
        Some e \<Rightarrow> (d, Inr e)
      | None \<Rightarrow>
          if 64 \<le> length (filter (\<lambda>e. \<not> rejected e \<and> e ''channel'' = data ''channel'' \<and>
               e ''mailbox'' = data ''mailbox'' \<and> \<not> expired_at now e) (coll d OFFLINE))
          then (d, Inl ''MAILBOX_QUOTA'')
          else if offlineGlobal \<le> countOfflineMessages d [] now then (d, Inl ''offline-global'')
          else if (case data ''senderDevice'' of
               Some (FStr s) \<Rightarrow> offlinePerDevice \<le> countOfflineMessages d [(''senderDevice'', FStr s)] now
             | _ \<Rightarrow> False)
          then (d, Inl ''offline-device'')
          else
            let (d', e) = insertOfflineMessage d
              (\<lambda>k. if k = ''state'' \<and> data k = None then Some (FStr ''active'') else data k)
            in (d', Inr e))"

section \<open>Invitations\<close>

definition LINKS :: string where
  "LINKS = ''links''"

definition flag :: "entry \<Rightarrow> string \<Rightarrow> bool" where
  "flag e k = (case e k of None \<Rightarrow> False | Some v \<Rightarrow> truthy_field v)"

definition publications :: "entry \<Rightarrow> int option" where
  "publications e = (case e ''invitationPublications'' of
     Some (FNum n) \<Rightarrow> if safe_int n then Some n else None | _ \<Rightarrow> None)"

definition reserveInvitationPublication :: "mem_db \<Rightarrow> string \<Rightarrow> int \<Rightarrow> mem_db \<times> bool" where
  "reserveInvitationPublication d channel now =
     (case (case storage d LINKS of None \<Rightarrow> None | Some es \<Rightarrow> find_position es [(''hash'', FStr channel)]) of
        None \<Rightarrow> (d, False)
      | Some i \<Rightarrow>
          let room = coll d LINKS ! i in
          if flag room ''deleted'' \<or> flag room ''expired'' then (d, False)
          else if room ''invitationExpiresAt'' = None then (d, True)
          else case (date_field room ''invitationExpiresAt'', publications room) of
            (Some t, Some n) \<Rightarrow>
              if t \<le> now \<or> 2 \<le> n then (d, False)
              else (set_coll d LINKS ((coll d LINKS)[i := room(''invitationPublications'' \<mapsto> FNum (n + 1))]), True)
          | _ \<Rightarrow> (d, False))"

definition revokePendingInvitation :: "mem_db \<Rightarrow> string \<Rightarrow> mem_db \<times> bool" where
  "revokePendingInvitation d channel =
     (case (case storage d LINKS of None \<Rightarrow> None | Some es \<Rightarrow> find_position es [(''hash'', FStr channel)]) of
        None \<Rightarrow> (d, False)
      | Some i \<Rightarrow>
          let room = coll d LINKS ! i in
          (case (date_field room ''invitationExpiresAt'', publications room) of
             (Some t, Some n) \<Rightarrow>
               if flag room ''deleted'' \<or> flag room ''expired'' \<or> n < 0 \<or> 2 \<le> n then (d, False)
               else (set_coll d LINKS ((coll d LINKS)[i := room(''deleted'' \<mapsto> FBool True)]), True)
           | _ \<Rightarrow> (d, False)))"

section \<open>The mailbox as a machine\<close>

text \<open>
  The rows the relay stores: an undelivered envelope (\<open>retainUndeliveredEnvelope\<close> in
  \<open>backend/socket.io/listeners.ts\<close>) and the record of a permanent rejection.
\<close>

definition row :: "condition \<Rightarrow> entry" where
  "row ps = map_of ps"

definition OFFLINE_TTL_MS :: int where
  "OFFLINE_TTL_MS = 7 * 24 * 60 * 60 * 1000"

record mail =
  mail_id :: string
  dedupeKey :: string
  channel :: string
  mailbox :: string
  sender :: string
  timestamp :: int

definition base_row :: "mail \<Rightarrow> condition" where
  "base_row m = [(''id'', FStr (mail_id m)), (''dedupeKey'', FStr (dedupeKey m)),
     (''channel'', FStr (channel m)), (''mailbox'', FStr (mailbox m)), (''sender'', FStr (sender m)),
     (''timestamp'', FNum (timestamp m))]"

definition message_row :: "mail \<Rightarrow> jsval \<Rightarrow> string option \<Rightarrow> entry" where
  "message_row m envelope senderDevice = row (base_row m @
     [(''envelope'', FData envelope), (''state'', FStr ''active''),
      (''expiresAt'', FDate (timestamp m + OFFLINE_TTL_MS))] @
     (case senderDevice of None \<Rightarrow> [] | Some x \<Rightarrow> [(''senderDevice'', FStr x)]))"

definition rejection_row :: "mail \<Rightarrow> int \<Rightarrow> entry" where
  "rejection_row m expiresAt = row (base_row m @
     [(''expiresAt'', FDate expiresAt), (''claimedUntil'', FDate expiresAt), (''state'', FStr ''rejected'')])"

definition mailbox_condition :: "string \<Rightarrow> string \<Rightarrow> condition" where
  "mailbox_condition box chan = [(''mailbox'', FStr box), (''channel'', FStr chan)]"

definition message_condition :: "string \<Rightarrow> string \<Rightarrow> string \<Rightarrow> string option \<Rightarrow> condition" where
  "message_condition i box chan claim =
     [(''id'', FStr i), (''mailbox'', FStr box), (''channel'', FStr chan)]
     @ (case claim of None \<Rightarrow> [] | Some x \<Rightarrow> [(''claimId'', FStr x)])"

datatype mailbox_event =
    StoreMail mail jsval "string option" int
  | ClaimMail string string int string int
  | AckMail string string string "string option"
  | RejectMail string string string string string int
  | RecordRejection mail int string int
  | Sweep int

fun mailbox_step :: "mem_db \<Rightarrow> mailbox_event \<Rightarrow> mem_db \<times> unit" where
  "mailbox_step d (StoreMail m env dev now) = (fst (storeOfflineMessage d (message_row m env dev) now), ())"
| "mailbox_step d (ClaimMail box chan lease cid now) =
     (fst (claimOfflineMessage d (mailbox_condition box chan) lease cid now), ())"
| "mailbox_step d (AckMail i box chan claim) = (fst (ackOfflineMessage d (message_condition i box chan claim)), ())"
| "mailbox_step d (RejectMail i box chan claim reason now) =
     (fst (rejectOfflineMessage d (message_condition i box chan (Some claim)) reason now), ())"
| "mailbox_step d (RecordRejection m expiresAt reason now) =
     (fst (recordOfflineRejection d (rejection_row m expiresAt) reason now), ())"
| "mailbox_step d (Sweep now) = (fst (deleteExpiredOfflineMessages d now), ())"

definition empty_db :: mem_db where
  "empty_db = \<lparr>storage = \<lambda>_. None, pk = 0\<rparr>"

text \<open>
  The invariant: one row per deduplication key, distinct insertion numbers, and
  a rejected row carries neither ciphertext nor claim.
\<close>

definition rows_ok :: "int \<Rightarrow> entry list \<Rightarrow> bool" where
  "rows_ok n es \<longleftrightarrow> distinct (map (\<lambda>e. e ''dedupeKey'') es) \<and>
     distinct (map (\<lambda>e. num_field e ''pk'') es) \<and>
     (\<forall>e\<in>set es. num_field e ''pk'' < n \<and> (rejected e \<longrightarrow> e ''envelope'' = None \<and> e ''claimId'' = None))"

definition mailbox_ok :: "mem_db \<Rightarrow> bool" where
  "mailbox_ok d \<longleftrightarrow> rows_ok (pk d) (coll d OFFLINE)"

section \<open>Lemmas\<close>

lemma coll_set [simp]: "coll (set_coll d c es) c = es" "pk (set_coll d c es) = pk d"
  "c \<noteq> c' \<Longrightarrow> coll (set_coll d c es) c' = coll d c'"
  by (simp_all add: coll_def set_coll_def)

lemma coll_insert [simp]: "coll (insertInDb d e c) c = coll d c @ [with_pk d e]" "pk (insertInDb d e c) = pk d + 1"
  by (simp_all add: insertInDb_def coll_def set_coll_def)

lemma find_index_some: "find_index P xs = Some i \<Longrightarrow> i < length xs \<and> P (xs ! i)"
  by (induction xs arbitrary: i) (auto split: if_splits)

lemma find_index_none: "find_index P xs = None \<longleftrightarrow> (\<forall>x\<in>set xs. \<not> P x)"
  by (induction xs) auto

lemma remove_at_subset: "set (remove_at i xs) \<subseteq> set xs"
  by (auto simp: remove_at_def dest: in_set_takeD in_set_dropD)

lemma distinct_remove_at: "distinct (map f xs) \<Longrightarrow> distinct (map f (remove_at i xs))"
proof -
  assume d: "distinct (map f xs)"
  have "map f xs = map f (take i xs) @ map f (drop i xs)" by (metis append_take_drop_id map_append)
  moreover have "set (drop (Suc i) xs) \<subseteq> set (drop i xs)" by (simp add: set_drop_subset_set_drop)
  moreover have "distinct (map f (drop (Suc i) xs))"
    using d by (simp add: distinct_drop drop_map [symmetric])
  ultimately show ?thesis using d unfolding remove_at_def by auto
qed


lemma map_update_same: "i < length xs \<Longrightarrow> f y = f (xs ! i) \<Longrightarrow> map f (xs[i := y]) = map f xs"
  by (simp add: map_update list_update_same_conv)

lemma rows_update:
  assumes "rows_ok n es" and "i < length es" and "e ''dedupeKey'' = (es ! i) ''dedupeKey''"
    and "e ''pk'' = (es ! i) ''pk''" and "rejected e \<longrightarrow> e ''envelope'' = None \<and> e ''claimId'' = None"
  shows "rows_ok n (es[i := e])"
proof -
  have p: "num_field e ''pk'' = num_field (es ! i) ''pk''" using assms(4) by (simp add: num_field_def)
  have m: "es ! i \<in> set es" using assms(2) by simp
  have "num_field x ''pk'' < n \<and> (rejected x \<longrightarrow> x ''envelope'' = None \<and> x ''claimId'' = None)"
    if "x \<in> set (es[i := e])" for x
    using that set_update_subset_insert [of es i e] assms(1,5) p m by (auto simp: rows_ok_def)
  with assms p show ?thesis by (simp add: rows_ok_def map_update_same)
qed

lemma rows_sub:
  assumes "rows_ok n es" and "distinct (map (\<lambda>e. e ''dedupeKey'') fs)"
    and "distinct (map (\<lambda>e. num_field e ''pk'') fs)" and "set fs \<subseteq> set es"
  shows "rows_ok n fs"
  using assms by (auto simp: rows_ok_def)

lemma rows_insert:
  assumes "rows_ok n es" and "\<forall>x\<in>set es. x ''dedupeKey'' \<noteq> e ''dedupeKey''" and "num_field e ''pk'' = n"
    and "rejected e \<longrightarrow> e ''envelope'' = None \<and> e ''claimId'' = None"
  shows "rows_ok (n + 1) (es @ [e])"
  using assms by (auto simp: rows_ok_def)

lemma row_fields [simp]:
  "message_row m env dev ''dedupeKey'' = Some (FStr (dedupeKey m))"
  "message_row m env dev ''state'' = Some (FStr ''active'')" "message_row m env dev ''pk'' = None"
  "rejection_row m t ''dedupeKey'' = Some (FStr (dedupeKey m))" "rejection_row m t ''pk'' = None"
  "rejection_row m t ''envelope'' = None" "rejection_row m t ''claimId'' = None"
  by (simp_all add: message_row_def rejection_row_def row_def base_row_def split: option.split)

lemma with_pk_fields [simp]:
  "k \<noteq> ''pk'' \<Longrightarrow> with_pk d e k = e k" "e ''pk'' = None \<Longrightarrow> num_field (with_pk d e) ''pk'' = pk d"
  by (simp_all add: with_pk_def num_field_def)

lemma with_pk_rejected [simp]: "rejected (with_pk d e) = rejected e"
  by (simp add: rejected_def)

lemma keep_state:
  "data ''state'' = Some v \<Longrightarrow> (\<lambda>k. if k = ''state'' \<and> data k = None then Some w else data k) = data"
  by (rule ext) auto

lemma store_cases:
  assumes "data ''state'' = Some v"
  shows "fst (storeOfflineMessage d data now) = d \<or>
    (\<forall>x\<in>set (coll d OFFLINE). x ''dedupeKey'' \<noteq> data ''dedupeKey'') \<and>
    fst (storeOfflineMessage d data now) = insertInDb d data OFFLINE"
  using assms
  by (auto simp: storeOfflineMessage_def insertOfflineMessage_def keep_state same_dedupe_def find_None_iff
      split: option.splits prod.splits if_splits)

text \<open>The head of the queue: it waits, and nothing that waits precedes it.\<close>

lemma next_some:
  assumes "nextActiveOfflineMessage d cond now = Some i"
  shows "i < length (coll d OFFLINE) \<and> waiting cond now (coll d OFFLINE ! i) \<and>
    (\<forall>j<length (coll d OFFLINE). waiting cond now (coll d OFFLINE ! j) \<longrightarrow>
       offlineMessageFifo (coll d OFFLINE ! i) \<le> offlineMessageFifo (coll d OFFLINE ! j))"
proof -
  let ?es = "coll d OFFLINE" and ?f = "\<lambda>i. offlineMessageFifo (coll d OFFLINE ! i)"
  let ?s = "sort_key ?f (filter (\<lambda>i. waiting cond now (?es ! i)) [0..<length ?es])"
  obtain r where s: "?s = i # r"
    using assms by (cases ?s) (auto simp: nextActiveOfflineMessage_def Let_def)
  have set: "set ?s = {j. j < length ?es \<and> waiting cond now (?es ! j)}" by auto
  have "sorted (map ?f (i # r))" using sorted_sort_key s by metis
  then have "\<forall>j\<in>set (i # r). ?f i \<le> ?f j" by auto
  with set s show ?thesis by (metis (mono_tags, lifting) list.set_intros(1) mem_Collect_eq)
qed

lemma next_none:
  assumes "nextActiveOfflineMessage d cond now = None"
  shows "\<forall>e\<in>set (coll d OFFLINE). \<not> waiting cond now e"
proof -
  let ?es = "coll d OFFLINE"
  have "sort_key (\<lambda>i. offlineMessageFifo (?es ! i)) (filter (\<lambda>i. waiting cond now (?es ! i)) [0..<length ?es]) = []"
    using assms by (auto simp: nextActiveOfflineMessage_def Let_def split: list.splits)
  then have "filter (\<lambda>i. waiting cond now (?es ! i)) [0..<length ?es] = []"
    by (metis length_0_conv length_sort)
  then show ?thesis by (auto simp: filter_empty_conv in_set_conv_nth)
qed

lemma claim_cases:
  "fst (claimOfflineMessage d cond lease cid now) = d \<or>
   (\<exists>i a. i < length (coll d OFFLINE) \<and> waiting cond now (coll d OFFLINE ! i) \<and>
      \<not> leased now (coll d OFFLINE ! i) \<and>
      nextActiveOfflineMessage d cond now = Some i \<and>
      fst (claimOfflineMessage d cond lease cid now) = set_coll d OFFLINE ((coll d OFFLINE)[i :=
        (coll d OFFLINE ! i)(''claimedUntil'' \<mapsto> FDate lease, ''claimId'' \<mapsto> FStr cid, ''deliveryAttempts'' \<mapsto> FNum a)]) \<and>
      snd (claimOfflineMessage d cond lease cid now) = Some ((coll d OFFLINE ! i)(''claimedUntil'' \<mapsto> FDate lease,
        ''claimId'' \<mapsto> FStr cid, ''deliveryAttempts'' \<mapsto> FNum a)))"
proof (cases "nextActiveOfflineMessage d cond now")
  case None
  then show ?thesis by (simp add: claimOfflineMessage_def)
next
  case (Some i)
  let ?es = "coll d OFFLINE"
  from next_some [OF Some] have i: "i < length ?es" "waiting cond now (?es ! i)" by auto
  show ?thesis
  proof (cases "leased now (?es ! i)")
    case True
    with Some show ?thesis by (simp add: claimOfflineMessage_def Let_def)
  next
    case False
    with Some i show ?thesis unfolding claimOfflineMessage_def by (auto simp: Let_def)
  qed
qed

lemma terminal_fields [simp]:
  "terminal r t c e ''dedupeKey'' = e ''dedupeKey''" "terminal r t c e ''pk'' = e ''pk''"
  "rejected (terminal r t c e)" "terminal r t c e ''envelope'' = None" "terminal r t c e ''claimId'' = None"
  "terminal r t c e ''expiresAt'' = e ''expiresAt''"
  by (simp_all add: terminal_def rejected_def)

lemma waiting_active: "waiting cond now e \<Longrightarrow> \<not> rejected e"
  by (auto simp: waiting_def active_def rejected_def)

lemma mailbox_step_ok: "mailbox_ok d \<Longrightarrow> mailbox_ok (fst (mailbox_step d ev))"
proof (cases ev)
  case (StoreMail m env dev now)
  assume ok: "mailbox_ok d"
  from store_cases [of "message_row m env dev" _ d now] show ?thesis
    using ok StoreMail rows_insert [of "pk d" "coll d OFFLINE" "with_pk d (message_row m env dev)"]
    by (auto simp: mailbox_ok_def) (auto simp: rejected_def)
next
  case (ClaimMail box chan lease cid now)
  assume ok: "mailbox_ok d"
  from claim_cases [of d "mailbox_condition box chan" lease cid now] show ?thesis
  proof
    assume "\<exists>i a. i < length (coll d OFFLINE) \<and> waiting (mailbox_condition box chan) now (coll d OFFLINE ! i) \<and>
      \<not> leased now (coll d OFFLINE ! i) \<and> nextActiveOfflineMessage d (mailbox_condition box chan) now = Some i \<and>
      fst (claimOfflineMessage d (mailbox_condition box chan) lease cid now) = set_coll d OFFLINE ((coll d OFFLINE)[i :=
        (coll d OFFLINE ! i)(''claimedUntil'' \<mapsto> FDate lease, ''claimId'' \<mapsto> FStr cid, ''deliveryAttempts'' \<mapsto> FNum a)]) \<and>
      snd (claimOfflineMessage d (mailbox_condition box chan) lease cid now) = Some ((coll d OFFLINE ! i)(''claimedUntil'' \<mapsto> FDate lease,
        ''claimId'' \<mapsto> FStr cid, ''deliveryAttempts'' \<mapsto> FNum a))"
    then obtain i a where i: "i < length (coll d OFFLINE)" "waiting (mailbox_condition box chan) now (coll d OFFLINE ! i)"
      "fst (claimOfflineMessage d (mailbox_condition box chan) lease cid now) = set_coll d OFFLINE ((coll d OFFLINE)[i :=
        (coll d OFFLINE ! i)(''claimedUntil'' \<mapsto> FDate lease, ''claimId'' \<mapsto> FStr cid, ''deliveryAttempts'' \<mapsto> FNum a)])"
      by blast
    from ok have "rows_ok (pk d) (coll d OFFLINE)" by (simp add: mailbox_ok_def)
    from rows_update [OF this i(1)] i(3) waiting_active [OF i(2)] ClaimMail show ?thesis
      by (simp add: mailbox_ok_def rejected_def)
  qed (use ok ClaimMail in simp)
next
  case (AckMail i box chan claim)
  assume ok: "mailbox_ok d"
  show ?thesis
  proof (cases "find_index (ack_matches (message_condition i box chan claim)) (coll d OFFLINE)")
    case (Some j)
    with ok AckMail rows_sub [of "pk d" "coll d OFFLINE" "remove_at j (coll d OFFLINE)"] show ?thesis
      by (simp add: ackOfflineMessage_def mailbox_ok_def distinct_remove_at remove_at_subset rows_ok_def [of _ "coll d OFFLINE"])
  qed (use ok AckMail in \<open>simp add: ackOfflineMessage_def\<close>)
next
  case (RejectMail i box chan claim reason now)
  assume ok: "mailbox_ok d"
  show ?thesis
  proof (cases "find_index (\<lambda>e. \<not> rejected e \<and> matches (message_condition i box chan (Some claim)) e) (coll d OFFLINE)")
    case (Some j)
    with ok RejectMail find_index_some [OF Some] rows_update [of "pk d" "coll d OFFLINE" j] show ?thesis
      by (simp add: rejectOfflineMessage_def Let_def mailbox_ok_def)
  qed (use ok RejectMail in \<open>simp add: rejectOfflineMessage_def Let_def\<close>)
next
  case (RecordRejection m t reason now)
  assume ok: "mailbox_ok d"
  show ?thesis
  proof (cases "find_index (same_dedupe (rejection_row m t)) (coll d OFFLINE)")
    case (Some j)
    with ok RecordRejection find_index_some [OF Some] rows_update [of "pk d" "coll d OFFLINE" j] show ?thesis
      by (simp add: recordOfflineRejection_def Let_def mailbox_ok_def)
  next
    case None
    let ?e = "with_pk d ((rejection_row m t)(''state'' \<mapsto> FStr ''rejected'', ''claimedUntil'' := rejection_row m t ''expiresAt'',
      ''terminalReason'' \<mapsto> FStr reason, ''terminalAt'' \<mapsto> FDate now))"
    from None have "\<forall>x\<in>set (coll d OFFLINE). x ''dedupeKey'' \<noteq> ?e ''dedupeKey''"
      by (simp add: find_index_none same_dedupe_def)
    with ok None RecordRejection rows_insert [of "pk d" "coll d OFFLINE" ?e] show ?thesis
      by (simp add: recordOfflineRejection_def Let_def mailbox_ok_def)
  qed
next
  case (Sweep now)
  assume ok: "mailbox_ok d"
  with Sweep rows_sub [of "pk d" "coll d OFFLINE" "filter (\<lambda>e. \<not> expired_at now e) (coll d OFFLINE)"] show ?thesis
    by (simp add: deleteExpiredOfflineMessages_def Let_def mailbox_ok_def distinct_map_filter rows_ok_def [of _ "coll d OFFLINE"])
qed

interpretation mail: invariant_machine mailbox_step mailbox_ok
  by unfold_locales (rule mailbox_step_ok)

lemma empty_ok [simp]: "mailbox_ok empty_db"
  by (simp add: mailbox_ok_def rows_ok_def empty_db_def coll_def)

lemma claim_some:
  assumes "claimOfflineMessage d cond lease cid now = (d', Some e')"
  shows "\<exists>i a. nextActiveOfflineMessage d cond now = Some i \<and> \<not> leased now (coll d OFFLINE ! i) \<and>
    d' = set_coll d OFFLINE ((coll d OFFLINE)[i := e']) \<and>
    e' = (coll d OFFLINE ! i)(''claimedUntil'' \<mapsto> FDate lease, ''claimId'' \<mapsto> FStr cid, ''deliveryAttempts'' \<mapsto> FNum a)"
  using assms unfolding claimOfflineMessage_def Let_def
  by (auto simp del: fun_upd_apply split: option.splits if_splits)

lemma not_in_removed:
  assumes "distinct (map f xs)" and "j < length xs" and "x \<in> set (remove_at j xs)"
  shows "f x \<noteq> f (xs ! j)"
proof -
  have "map f xs = map f (take j xs) @ f (xs ! j) # map f (drop (Suc j) xs)"
    using assms(2) by (metis id_take_nth_drop list.simps(9) map_append)
  with assms(1) have "f (xs ! j) \<notin> f ` (set (take j xs) \<union> set (drop (Suc j) xs))"
    by (metis (no_types, lifting) Un_iff distinct.simps(2) distinct_append image_Un list.set_map not_distinct_conv_prefix
        disjoint_insert(1) list.simps(15))
  with assms(3) show ?thesis unfolding remove_at_def by (metis UnCI UnE imageI set_append)
qed

lemma only_match:
  assumes "length (filter P xs) = 1" and "i < length xs" and "P (xs ! i)"
  shows "\<forall>l<length xs. l \<noteq> i \<longrightarrow> \<not> P (xs ! l)"
proof (intro allI impI notI)
  fix l
  assume l: "l < length xs" "l \<noteq> i" "P (xs ! l)"
  have "card {k. k < length xs \<and> P (xs ! k)} = 1" using assms(1) by (simp add: length_filter_conv_card)
  moreover have "{i, l} \<subseteq> {k. k < length xs \<and> P (xs ! k)}" using assms l by auto
  ultimately show False using l(2) by (metis card_1_singletonE insert_subset singleton_iff)
qed

section \<open>Terminal rejections\<close>







section \<open>Properties\<close>

text \<open>
  C29. Whatever the relay does with its mailbox, the store keeps one row per
  deduplication key, gives every row its own insertion number, and has removed
  the ciphertext and the claim from every rejected row.
\<close>

theorem mailbox_invariant:
  "let d = final mailbox_step empty_db es in
   distinct (map (\<lambda>e. e ''dedupeKey'') (coll d OFFLINE)) \<and>
   distinct (map (\<lambda>e. num_field e ''pk'') (coll d OFFLINE)) \<and>
   list_all (\<lambda>e. if rejected e then e ''envelope'' = None \<and> e ''claimId'' = None else True) (coll d OFFLINE)"
  using mail.run_inv [OF empty_ok, of es] by (auto simp: mailbox_ok_def rows_ok_def Let_def list_all_iff)


definition sample_mail :: mail where
  "sample_mail = \<lparr>mail_id = ''m1'', dedupeKey = ''k1'', channel = ''c'', mailbox = ''bob'', sender = ''alice'',
     timestamp = 5\<rparr>"


text \<open>
  Claims are first in, first out and exclusive: a claim takes the oldest
  waiting message of its mailbox, whose previous lease has run out; and until
  the new lease or the message expires, no other claim on the mailbox succeeds,
  although later messages may be waiting.
\<close>

theorem claim_is_fifo_and_exclusive:
  assumes d: "d = final mailbox_step empty_db es"
    and claim: "claimOfflineMessage d (mailbox_condition box chan) lease cid now = (d', Some e')"
    and later: "now \<le> now'" "now' < lease" "\<not> expired_at now' e'"
  shows "(\<exists>e\<in>set (coll d OFFLINE). waiting (mailbox_condition box chan) now e \<and> \<not> leased now e \<and>
      e ''id'' = e' ''id'' \<and> e ''envelope'' = e' ''envelope'' \<and>
      filter (\<lambda>x. waiting (mailbox_condition box chan) now x \<and> offlineMessageFifo x < offlineMessageFifo e)
        (coll d OFFLINE) = []) \<and>
    claimOfflineMessage d' (mailbox_condition box chan) lease' cid' now' = (d', None)"
proof -
  let ?es = "coll d OFFLINE" and ?c = "mailbox_condition box chan"
  have ok: "mailbox_ok d" using d mail.run_inv [OF empty_ok] by simp
  from claim_some [OF claim] obtain i a where n: "nextActiveOfflineMessage d ?c now = Some i"
    and l: "\<not> leased now (?es ! i)" and d': "d' = set_coll d OFFLINE (?es[i := e'])"
    and e': "e' = (?es ! i)(''claimedUntil'' \<mapsto> FDate lease, ''claimId'' \<mapsto> FStr cid, ''deliveryAttempts'' \<mapsto> FNum a)"
    by auto
  note i = next_some [OF n]
  have fifo: "offlineMessageFifo e' = offlineMessageFifo (?es ! i)"
    by (simp add: e' offlineMessageFifo_def num_field_def)
  have w': "waiting ?c now' e'"
    using i later(3) by (auto simp: waiting_def e' active_def matches_def mailbox_condition_def)
  have "e' \<in> set (coll d' OFFLINE)" using i by (simp add: d' set_update_memI)
  with w' have "nextActiveOfflineMessage d' ?c now' \<noteq> None" using next_none by blast
  then obtain j where j: "nextActiveOfflineMessage d' ?c now' = Some j" by blast
  note js = next_some [OF j, unfolded d', simplified]
  have "j = i"
  proof (rule ccontr)
    assume ne: "j \<noteq> i"
    with js have wj: "waiting ?c now' (?es ! j)" "j < length ?es" by auto
    then have "waiting ?c now (?es ! j)"
      using later(1) by (auto simp: waiting_def expired_at_def split: option.splits)
    with i wj have "offlineMessageFifo (?es ! i) \<le> offlineMessageFifo (?es ! j)" by blast
    moreover have "offlineMessageFifo (?es ! j) \<le> offlineMessageFifo e'"
      using js ne i w' by (metis length_list_update nth_list_update_eq nth_list_update_neq)
    ultimately have "num_field (?es ! i) ''pk'' = num_field (?es ! j) ''pk''"
      unfolding fifo by (auto simp: offlineMessageFifo_def)
    with ok i wj(2) ne show False
      by (auto simp: mailbox_ok_def rows_ok_def distinct_conv_nth)
  qed
  moreover have "leased now' e'" using later(2) by (simp add: leased_def date_field_def e')
  ultimately have "claimOfflineMessage d' ?c lease' cid' now' = (d', None)"
    using j i by (simp add: claimOfflineMessage_def d')
  moreover have "filter (\<lambda>x. waiting ?c now x \<and> offlineMessageFifo x < offlineMessageFifo (?es ! i)) ?es = []"
    using i by (auto simp: filter_empty_conv in_set_conv_nth) (meson leD)
  ultimately show ?thesis using i l by (intro conjI bexI [of _ "?es ! i"]) (auto simp: e')
qed

theorem claim_is_fifo_and_exclusive_witness:
  "\<exists>d d' e'. claimOfflineMessage d (mailbox_condition ''bob'' ''c'') 40 ''x'' 10 = (d', Some e') \<and>
     claimOfflineMessage d' (mailbox_condition ''bob'' ''c'') 90 ''y'' 30 = (d', None)"
proof -
  define d where "d = final mailbox_step empty_db [StoreMail sample_mail VNull None 6]"
  define e where "e = with_pk empty_db (message_row sample_mail VNull None)"
  have c: "coll d OFFLINE = [e]" unfolding d_def e_def
    by (simp add: storeOfflineMessage_def insertOfflineMessage_def empty_db_def coll_def insertInDb_def set_coll_def
        findOneFromDB_def keep_state countOfflineMessages_def offlineGlobal_def Let_def split: option.split)
      (simp add: message_row_def row_def base_row_def)
  have x: "e ''expiresAt'' = Some (FDate 604800005)"
    by (simp add: e_def message_row_def row_def base_row_def sample_mail_def OFFLINE_TTL_MS_def)
  have w: "waiting (mailbox_condition ''bob'' ''c'') 10 e" "\<not> leased 10 e"
    by (simp_all add: waiting_def expired_at_def date_field_def x)
      (simp_all add: e_def active_def matches_def mailbox_condition_def leased_def date_field_def message_row_def
        row_def base_row_def sample_mail_def)
  have n: "nextActiveOfflineMessage d (mailbox_condition ''bob'' ''c'') 10 = Some 0"
    using w by (simp add: nextActiveOfflineMessage_def c)
  obtain d' e' where cl: "claimOfflineMessage d (mailbox_condition ''bob'' ''c'') 40 ''x'' 10 = (d', Some e')"
    using n c w by (simp add: claimOfflineMessage_def Let_def)
  have "\<not> expired_at 30 e'"
    using claim_some [OF cl] n c x by (auto simp: expired_at_def date_field_def)
  from claim_is_fifo_and_exclusive [OF d_def cl _ _ this] cl show ?thesis by auto
qed

text \<open>
  A one-time pre-key is handed out once: if the publication that matches is
  unique and its key identifiers are distinct, then after a claim no later claim
  of the same key finds it.
\<close>

theorem one_time_key_claimed_once:
  assumes "claimOneTimeKey d cond keyId c now = (d', Some k)"
    and "length (filter (matches cond) (coll d c)) = 1"
    and "list_all (\<lambda>e. distinct (map fst (one_time_keys e))) (coll d c)"
  shows "fst k = keyId \<and> claimOneTimeKey d' cond keyId c now' = (d', None)"
proof -
  let ?es = "coll d c"
  from assms(1) obtain i j where
    i: "find_index (\<lambda>e. matches cond e \<and> (case date_field e ''expiresAt'' of None \<Rightarrow> False | Some t \<Rightarrow> now < t)
          \<and> list_ex (\<lambda>k. fst k = keyId) (one_time_keys e)) ?es = Some i"
    and j: "find_index (\<lambda>k. fst k = keyId) (one_time_keys (?es ! i)) = Some j"
    and d': "d' = set_coll d c (?es[i := (?es ! i)(''oneTimeKeys'' \<mapsto> FKeys (remove_at j (one_time_keys (?es ! i))))])"
    and k: "k = one_time_keys (?es ! i) ! j"
    by (auto simp: claimOneTimeKey_def Let_def split: option.splits)
  let ?e = "(?es ! i)(''oneTimeKeys'' \<mapsto> FKeys (remove_at j (one_time_keys (?es ! i))))"
  from find_index_some [OF i] have il: "i < length ?es" "matches cond (?es ! i)" by auto
  from find_index_some [OF j] have jl: "j < length (one_time_keys (?es ! i))" "fst k = keyId" using k by auto
  have keys: "one_time_keys ?e = remove_at j (one_time_keys (?es ! i))" by (simp add: one_time_keys_def)
  have "distinct (map fst (one_time_keys (?es ! i)))" using assms(3) il(1) by (simp add: list_all_length)
  then have gone: "\<not> list_ex (\<lambda>k. fst k = keyId) (one_time_keys ?e)"
    unfolding keys using not_in_removed [OF _ jl(1)] jl(2) k by (auto simp: list_ex_iff)
  have only: "\<not> matches cond (?es ! l)" if "l < length ?es" "l \<noteq> i" for l
    using only_match [of "matches cond" ?es i, OF assms(2) il] that by blast
  have "\<not> (matches cond x \<and> list_ex (\<lambda>k. fst k = keyId) (one_time_keys x))" if x: "x \<in> set (?es[i := ?e])" for x
  proof -
    from x obtain l where l: "l < length ?es" "x = ?es[i := ?e] ! l" by (metis in_set_conv_nth length_list_update)
    show ?thesis
    proof (cases "l = i")
      case True
      with l il(1) have "x = ?e" by simp
      with gone show ?thesis by blast
    next
      case False
      with l only show ?thesis by simp
    qed
  qed
  then have "find_index (\<lambda>e. matches cond e \<and> (case date_field e ''expiresAt'' of None \<Rightarrow> False | Some t \<Rightarrow> now' < t)
          \<and> list_ex (\<lambda>k. fst k = keyId) (one_time_keys e)) (?es[i := ?e]) = None"
    unfolding find_index_none by blast
  then show ?thesis using jl(2) by (simp add: claimOneTimeKey_def d')
qed

theorem one_time_key_claimed_once_witness:
  "\<exists>d d' k. claimOneTimeKey d [(''channel'', FStr ''c'')] ''k1'' ''p'' 5 = (d', Some k) \<and> fst k = ''k1'' \<and>
     claimOneTimeKey d' [(''channel'', FStr ''c'')] ''k1'' ''p'' 6 = (d', None)"
proof -
  let ?e = "[''channel'' \<mapsto> FStr ''c'', ''expiresAt'' \<mapsto> FDate 9, ''oneTimeKeys'' \<mapsto> FKeys [(''k1'', ''A''), (''k2'', ''B'')]]"
  let ?d = "\<lparr>storage = [''p'' \<mapsto> [?e]], pk = 1\<rparr>"
  obtain d' where c: "claimOneTimeKey ?d [(''channel'', FStr ''c'')] ''k1'' ''p'' 5 = (d', Some (''k1'', ''A''))"
    by (simp add: claimOneTimeKey_def coll_def matches_def date_field_def one_time_keys_def Let_def)
  have "fst (''k1'', ''A'') = ''k1'' \<and> claimOneTimeKey d' [(''channel'', FStr ''c'')] ''k1'' ''p'' 6 = (d', None)"
    by (rule one_time_key_claimed_once [OF c]) (simp_all add: coll_def matches_def one_time_keys_def)
  with c show ?thesis by blast
qed

end
