(* ===== verification/Spec2Isabelle.thy ===== *)
theory Spec2Isabelle
  imports CallComposition ConversationList MessageHistory ReplayGuard Delivery EnvelopeIdentity SyncRuntime RelayLimits Mailbox
begin

text \<open>
  A verification development for k3ncrypt, an end-to-end encrypted messenger.
  Its TypeScript has three parts: the service library (\<open>service/src\<close>), which
  holds devices, trust, delivery, calls and synchronisation; the client
  (\<open>client/src\<close>), whose \<open>product\<close> directory keeps contacts, conversations and
  message history in encrypted records; and the relay (\<open>backend\<close>), which stores
  ciphertext for recipients and admits sockets and devices. Messages are
  encrypted by an Olm implementation in WebAssembly. The model covers the rules
  around that encryption: what is accepted, what is bound to what, what happens
  once, and what survives failures and concurrent writers.

  Theories and the code they model. An operation has the name of the function
  it models, a class is a record of its fields, and a loop over retries counts
  its attempts.

  \<^item> \<open>Prelude\<close>, \<open>Encoding\<close>, \<open>Json\<close>: JavaScript values, errors as a sum, UTF-8,
    \<open>JSON.stringify\<close> and their injectivity, and the interfaces
    \<open>invariant_machine\<close>, \<open>monotone_machine\<close> and \<open>simulation\<close> that lift a fact about
    one operation to every run. The components interpret these interfaces.
  \<^item> \<open>ReplayGuard\<close>: \<open>service/src/utils/replayGuard.ts\<close>, with the reference that
    remembers every number.
  \<^item> \<open>Delivery\<close>: path eligibility and the delivery coordinator of
    \<open>service/src/delivery\<close>; the submissions are an oracle, the retries a bounded
    loop over the due items.
  \<^item> \<open>EnvelopeIdentity\<close>: the identifier of an encrypted message.
  \<^item> \<open>DeviceIdentity\<close>, \<open>DeviceLifecycle\<close>, \<open>Storage\<close>, \<open>DeviceStore\<close>,
    \<open>DeviceProperties\<close>, \<open>DeviceTrust\<close>: \<open>service/src/devices\<close>. Device lists with
    epochs and commitments, enrollment and revocation, the durable lifecycle
    record with its high-water mark (an attacker may rewrite the record, not the
    mark), trust decisions, freshness and the reserve of signalling proofs.
    \<open>DeviceLifecycle\<close> states the contract of the persistence as a locale and
    \<open>DeviceStore\<close> interprets it.
  \<^item> \<open>SyncProtocol\<close>, \<open>SyncStore\<close>, \<open>SyncRuntime\<close>: \<open>service/src/sync\<close>. State machines,
    packages and their digests, the transfer controller, the transactional store
    and the runtime that joins them.
  \<^item> \<open>Contacts\<close>, \<open>RoomMessages\<close>, \<open>MessageHistory\<close>, \<open>Conversations\<close>,
    \<open>ConversationList\<close>: \<open>client/src/product\<close>. The identity registry and verification codes, account
    binding, the room message frame and its version floor, message and call
    history, the conversation index with its removal markers, and which of the
    saved conversations may open and how they are listed. Writers
    retry a compare-and-swap; the other writers are an argument that acts
    between the attempts (8 for messages, 64 for the index, as in the code).
  \<^item> \<open>RelayLimits\<close>, \<open>Mailbox\<close>, \<open>RelayAuthority\<close>: \<open>backend\<close>. Rate limits and
    sockets, the offline mailbox with its leases and the one-time keys, connected
    clients, the device trust control plane and attachment requests.
  \<^item> \<open>Calls\<close>, \<open>CallSignals\<close>, \<open>CallComposition\<close>: \<open>service/src/calls\<close>. The call state
    machine and service, signed and replay-checked signals with their
    authenticated transport, and the composition that places, answers and ends
    calls.

  How they interact: device lists and commitments feed trust and sync; contacts
  and trust gate calls and conversations; the record store of \<open>Storage\<close> is what
  the client components and the device store write, and its compare-and-swap is
  what their retries rest on; replay claims and digests are used by sync, by the
  relay's control plane and by calls.

  What the lemmas show. Safety: revocation and trust loss are permanent, a
  rollback is detected, authorizations, proofs, replay claims and call signals
  are used once, digests bind what they cover (up to a collision of the hash),
  saved messages survive writes and removed conversations stay removed.
  Refinement and equivalence: the replay window decides as the unbounded
  reference, the connected clients as a map of sockets. Invariants: the mailbox,
  stored calls and the one unfinished call. Round trips: room frames and device lists. Liveness and termination: the next epoch commits, every due
  item is retried, a call past its deadline settles. Error behaviour that
  contradicts what the code or its documents say is stated as the code has it.

  Parameters: SHA-256 and HMAC on bytes, \<open>Date.parse\<close>, \<open>toISOString\<close>, the locale
  order of \<open>localeCompare\<close>, the clock, fresh identifiers, and the outcome of
  sending. Numbers are integers or the value that every safe-integer check
  rejects; strings have characters below 256. An asynchronous operation is one
  step unless its theory says otherwise. Recursions end on lists, on counted
  attempts or by an explicit measure, so no fuel is guessed.

  Not modelled: the conversation runtime \<open>modernConversation.ts\<close> and
  \<open>vodozemacRuntime.ts\<close>, which sequence calls into the compiled Olm library that
  is not source of this repository's TypeScript; the generated bindings; socket
  and HTTP input and output (\<open>multiplexed.ts\<close>, \<open>listeners.ts\<close>, transports), the
  MongoDB branches (their atomicity is the database's), passphrase encryption
  of records in \<open>secureVault.ts\<close>, WebRTC media and negotiation, file chunks, groups,
  recovery ceremonies, deployment configuration and the React interface.
\<close>

end
